(* ===== verification/Ublk_Prelude.thy ===== *)
theory Ublk_Prelude
  imports Main "HOL-Library.Word"
begin

unbundle bit_operations_syntax

text \<open>
  Shared material of the development: the machine integer types of the C++ sources, the
  completion channels of a sender and the task monad that models \<open>co_await\<close>, the size rules
  of C structs, the generic interfaces (codecs, transition systems, acquired resources) and
  the lemmas on words and lists that the components use.
\<close>

section \<open>Collections of facts\<close>

named_theorems consts_simps \<open>values of the constants of \<open>ublk_cmd.h\<close>\<close>
named_theorems flag_consts \<open>values of the flag constants of \<open>ublk_cmd.h\<close>\<close>
named_theorems task_simps \<open>unfolding of the sender and task combinators\<close>
named_theorems raw_simps \<open>unfolding of the raw command constructors\<close>

section \<open>Machine integers\<close>

text \<open>
  Unsigned integers keep their width. A signed \<open>int32_t\<close> result is an \<open>int\<close>: the sources
  only compare it, negate an errno or pass it on; where a narrowing conversion happens it is
  written out with \<open>to_s32\<close>.
\<close>

type_synonym u8 = "8 word"
type_synonym u16 = "16 word"
type_synonym u32 = "32 word"
type_synonym u64 = "64 word"
type_synonym s32 = int

definition to_s32 :: "int \<Rightarrow> s32" where
  "to_s32 i = signed_take_bit 31 i"

definition in_s32 :: "int \<Rightarrow> bool" where
  "in_s32 i \<longleftrightarrow> - (2 ^ 31) \<le> i \<and> i < 2 ^ 31"

lemma to_s32_id [simp]: "in_s32 i \<Longrightarrow> to_s32 i = i"
  unfolding in_s32_def to_s32_def by (rule signed_take_bit_int_eq_self) simp_all

lemma in_s32_to_s32 [simp]: "in_s32 (to_s32 i)"
  unfolding in_s32_def to_s32_def
  using signed_take_bit_int_greater_eq_minus_exp [of 31 i] signed_take_bit_int_less_exp [of 31 i]
  by simp

text \<open>The conversion of an integer expression to \<open>bool\<close> in a condition such as \<open>flags & F\<close>.\<close>

definition has_flag :: "'a::len word \<Rightarrow> 'a word \<Rightarrow> bool" where
  "has_flag w f \<longleftrightarrow> w AND f \<noteq> 0"

lemma has_flag_bit: "has_flag w (push_bit n 1) \<longleftrightarrow> bit w n"
  by (auto simp: has_flag_def and_exp_eq_0_iff_not_bit push_bit_eq_mult)

lemma has_flag_or: "has_flag w (f OR g) \<longleftrightarrow> has_flag w f \<or> has_flag w g"
  by (auto simp: has_flag_def bit_eq_iff bit_simps)

lemma has_flag_0 [simp]: "\<not> has_flag 0 f"
  by (simp add: has_flag_def)

section \<open>Sizes of C structs\<close>

text \<open>
  A field is a pair of its size and its alignment; a struct is laid out in declaration order,
  every field at the next multiple of its alignment and the size rounded up to the largest
  alignment. \<open>c_struct\<close> returns the size and the alignment of the struct, so that
  structs nest.
\<close>

definition round_up :: "nat \<Rightarrow> nat \<Rightarrow> nat" where
  "round_up n a = (n + a - 1) div a * a"

lemma round_up_bounds:
  assumes "0 < a"
  shows "a dvd round_up n a \<and> n \<le> round_up n a \<and> round_up n a < n + a"
proof -
  let ?m = "n + a - 1"
  have "?m div a * a + ?m mod a = ?m" by (rule div_mult_mod_eq)
  moreover have "?m mod a < a" using assms by simp
  ultimately have "n \<le> ?m div a * a" and "?m div a * a < n + a" using assms by linarith+
  then show ?thesis by (simp add: round_up_def)
qed

fun struct_end :: "nat \<Rightarrow> (nat \<times> nat) list \<Rightarrow> nat" where
  "struct_end off [] = off"
| "struct_end off ((sz, al) # fs) = struct_end (round_up off al + sz) fs"

definition c_struct :: "(nat \<times> nat) list \<Rightarrow> nat \<times> nat" where
  "c_struct fs = (let al = fold (max \<circ> snd) fs 1 in (round_up (struct_end 0 fs) al, al))"

abbreviation c_u8 :: "nat \<times> nat" where "c_u8 \<equiv> (1, 1)"
abbreviation c_u16 :: "nat \<times> nat" where "c_u16 \<equiv> (2, 2)"
abbreviation c_u32 :: "nat \<times> nat" where "c_u32 \<equiv> (4, 4)"
abbreviation c_u64 :: "nat \<times> nat" where "c_u64 \<equiv> (8, 8)"
abbreviation c_array :: "nat \<Rightarrow> nat \<times> nat \<Rightarrow> nat \<times> nat" where
  "c_array n t \<equiv> (n * fst t, snd t)"

section \<open>Senders and tasks\<close>

text \<open>
  A sender completes on one of three channels: a value, an error or stopped. An
  \<^verbatim>\<open>ex::task\<close> is a coroutine over senders: it reads and changes the world \<open>'w\<close> (the kernel
  and everything outside the library) and completes on one of the channels. The error channel
  of an \<open>io_uring\<close> operation carries a \<^verbatim>\<open>std::error_code\<close>, of which only the value is read;
  the error channel of a task carries a \<^verbatim>\<open>std::exception_ptr\<close>.
\<close>

type_synonym error_code = int

datatype exn =
    SystemError error_code string
  | RuntimeError string
  | OutOfRange string
  | LengthError string
  | BadAlloc
  | OtherException

datatype ('e, 'a) outcome = Value 'a | Error 'e | Stopped

type_synonym ('w, 'e, 'a) sender = "'w \<Rightarrow> ('e, 'a) outcome \<times> 'w"
type_synonym ('w, 'a) task = "('w, exn, 'a) sender"

definition co_return :: "'a \<Rightarrow> ('w, 'a) task" where
  "co_return a = (\<lambda>w. (Value a, w))"

definition throw :: "exn \<Rightarrow> ('w, 'a) task" where
  "throw e = (\<lambda>w. (Error e, w))"

text \<open>
  \<^verbatim>\<open>co_await s\<close> inside a task: a value resumes the coroutine, an exception is rethrown and
  \<open>stopped\<close> ends the task as stopped.
\<close>

definition await :: "('w, 'a) task \<Rightarrow> ('a \<Rightarrow> ('w, 'b) task) \<Rightarrow> ('w, 'b) task" where
  "await s k = (\<lambda>w. case s w of
      (Value a, w') \<Rightarrow> k a w'
    | (Error e, w') \<Rightarrow> (Error e, w')
    | (Stopped, w') \<Rightarrow> (Stopped, w'))"

text \<open>
  Awaiting a sender whose error channel carries a \<^verbatim>\<open>std::error_code\<close> throws
  \<^verbatim>\<open>std::system_error\<close> with that code.
\<close>

definition throwing :: "('w, error_code, 'a) sender \<Rightarrow> ('w, 'a) task" where
  "throwing s = (\<lambda>w. case s w of
      (Value a, w') \<Rightarrow> (Value a, w')
    | (Error ec, w') \<Rightarrow> (Error (SystemError ec ''''), w')
    | (Stopped, w') \<Rightarrow> (Stopped, w'))"

definition then_value :: "('w, 'e, 'a) sender \<Rightarrow> ('a \<Rightarrow> 'b) \<Rightarrow> ('w, 'e, 'b) sender" where
  "then_value s f = (\<lambda>w. case s w of
      (Value a, w') \<Rightarrow> (Value (f a), w')
    | (Error e, w') \<Rightarrow> (Error e, w')
    | (Stopped, w') \<Rightarrow> (Stopped, w'))"

definition upon_error :: "('w, 'e, 'a) sender \<Rightarrow> ('e \<Rightarrow> 'a) \<Rightarrow> ('w, 'f, 'a) sender" where
  "upon_error s f = (\<lambda>w. case s w of
      (Value a, w') \<Rightarrow> (Value a, w')
    | (Error e, w') \<Rightarrow> (Value (f e), w')
    | (Stopped, w') \<Rightarrow> (Stopped, w'))"

definition stopped_as_error :: "('w, 'e, 'a) sender \<Rightarrow> 'e \<Rightarrow> ('w, 'e, 'a) sender" where
  "stopped_as_error s e0 = (\<lambda>w. case s w of
      (Value a, w') \<Rightarrow> (Value a, w')
    | (Error e, w') \<Rightarrow> (Error e, w')
    | (Stopped, w') \<Rightarrow> (Error e0, w'))"

lemmas [task_simps] =
  co_return_def throw_def await_def throwing_def then_value_def upon_error_def stopped_as_error_def

lemma await_assoc: "await (await s f) g = await s (\<lambda>x. await (f x) g)"
  by (rule ext) (auto simp: await_def split: prod.splits outcome.splits)

lemma await_co_return [simp]: "await (co_return a) k = k a"
  by (simp add: await_def co_return_def)

lemma await_throw [simp]: "await (throw e) k = throw e"
  by (rule ext) (simp add: await_def throw_def)

section \<open>Generic interfaces\<close>

text \<open>
  A codec: what \<open>enc\<close> writes, \<open>dec\<close> reads back, on the valid inputs. Every address and element
  encoding of the sources is an instance.
\<close>

locale codec =
  fixes enc :: "'a \<Rightarrow> 'b" and dec :: "'b \<Rightarrow> 'a" and valid :: "'a \<Rightarrow> bool"
  assumes dec_enc: "valid x \<Longrightarrow> dec (enc x) = x"
begin

lemma enc_eq_iff: "valid x \<Longrightarrow> valid y \<Longrightarrow> enc x = enc y \<longleftrightarrow> x = y"
  by (metis dec_enc)

lemma enc_inj: "inj_on enc {x. valid x}"
  by (rule inj_onI) (simp add: enc_eq_iff)

end

text \<open>
  A transition system with an invariant: the contract shared by the queue models. The client
  fact is that every reachable state satisfies the invariant.
\<close>

locale transition_system =
  fixes init :: "'s \<Rightarrow> bool" and step :: "'s \<Rightarrow> 's \<Rightarrow> bool" and inv :: "'s \<Rightarrow> bool"
  assumes inv_init: "init s \<Longrightarrow> inv s"
    and inv_step: "inv s \<Longrightarrow> step s t \<Longrightarrow> inv t"
begin

lemma inv_steps: "rtranclp step s t \<Longrightarrow> inv s \<Longrightarrow> inv t"
  by (induction rule: rtranclp_induct) (auto intro: inv_step)

lemma inv_reachable: "init s \<Longrightarrow> rtranclp step s t \<Longrightarrow> inv t"
  by (blast intro: inv_init inv_steps)

end

text \<open>Replacing an element by one of less weight.\<close>

lemma sum_list_update_less:
  "i < length xs \<Longrightarrow> f y < f (xs ! i) \<Longrightarrow> (\<Sum>x\<leftarrow>xs[i := y]. f x) < (\<Sum>x\<leftarrow>xs. f x :: nat)"
proof (induction xs arbitrary: i)
  case (Cons x xs)
  then show ?case by (cases i) auto
qed simp

text \<open>
  A transition system that comes to an end: among its steps, the \<open>move\<close>s from an \<open>active\<close> state keep
  it active and lower a rank, and an active state without a move is \<open>over\<close>. The client facts are
  that every run of moves is bounded by the rank, that one which cannot go on is over, and that
  one to the end exists.
\<close>

locale draining = transition_system init step inv
  for init :: "'s \<Rightarrow> bool" and step :: "'s \<Rightarrow> 's \<Rightarrow> bool" and inv :: "'s \<Rightarrow> bool" +
  fixes move :: "'s \<Rightarrow> 's \<Rightarrow> bool" and active :: "'s \<Rightarrow> bool" and rank :: "'s \<Rightarrow> nat" and over :: "'s \<Rightarrow> bool"
  assumes move_step: "move s t \<Longrightarrow> step s t"
    and move_active: "inv s \<Longrightarrow> active s \<Longrightarrow> move s t \<Longrightarrow> active t"
    and move_rank: "inv s \<Longrightarrow> active s \<Longrightarrow> move s t \<Longrightarrow> rank t < rank s"
    and stuck_over: "inv s \<Longrightarrow> active s \<Longrightarrow> (\<nexists>t. move s t) \<Longrightarrow> over s"
begin

lemma moves_bounded:
  "(move ^^ n) s t \<Longrightarrow> inv s \<Longrightarrow> active s \<Longrightarrow> rank t + n \<le> rank s \<and> inv t \<and> active t"
proof (induction n arbitrary: t)
  case (Suc n)
  then obtain u where u: "(move ^^ n) s u" "move u t" by auto
  with Suc have "rank u + n \<le> rank s" "inv u" "active u" by auto
  with move_rank [OF _ _ u(2)] move_active [OF _ _ u(2)] inv_step [OF _ move_step [OF u(2)]] show ?case by force
qed simp

lemma moves_end: "inv s \<Longrightarrow> active s \<Longrightarrow> \<exists>t. move\<^sup>*\<^sup>* s t \<and> over t"
proof (induction "rank s" arbitrary: s rule: less_induct)
  case less
  show ?case
  proof (cases "\<exists>u. move s u")
    case True
    then obtain u where u: "move s u" by blast
    with less.prems have "inv u" "active u" "rank u < rank s"
      using inv_step move_step move_active move_rank by blast+
    with less.hyps u show ?thesis by (meson converse_rtranclp_into_rtranclp)
  next
    case False
    with less.prems stuck_over show ?thesis by blast
  qed
qed

lemma drains:
  assumes "init s" and "step\<^sup>*\<^sup>* s s'" and "active s'" and "(move ^^ n) s' s''"
  shows "n \<le> rank s' \<and> ((\<nexists>t. move s'' t) \<longrightarrow> over s'') \<and> (\<exists>t. move\<^sup>*\<^sup>* s'' t \<and> over t)"
proof -
  have "inv s'" using assms(1,2) by (rule inv_reachable)
  with moves_bounded [OF assms(4)] assms(3) have "rank s'' + n \<le> rank s'" "inv s''" "active s''" by auto
  with stuck_over [of s''] moves_end [of s''] show ?thesis by auto
qed

end

end
