(* ===== verification/Ublk_Cmd.thy ===== *)
theory Ublk_Cmd
  imports Ublk_Prelude
begin

text \<open>
  The kernel interface header \<^verbatim>\<open>include/ublk/ublk_cmd.h\<close>: the structs shipped to and from
  the driver, the feature flags, the encoded command numbers and the address encodings, and
  the helpers of \<^verbatim>\<open>include/ublk/helpers.hpp\<close> built on them. The record of a struct has the
  struct's name and its fields carry a short prefix.
\<close>

section \<open>Structs\<close>

record ublk_shmem_buf_reg =
  sr_addr :: u64
  sr_len :: u64
  sr_flags :: u32
  sr_reserved :: u32

record ublksrv_ctrl_dev_info =
  di_nr_hw_queues :: u16
  di_queue_depth :: u16
  di_state :: u16
  di_io_desc_size :: u16
  di_max_io_buf_bytes :: u32
  di_dev_id :: u32
  di_ublksrv_pid :: s32
  di_pad1 :: u32
  di_flags :: u64
  di_ublksrv_flags :: u64
  di_owner_uid :: u32
  di_owner_gid :: u32
  di_reserved1 :: u64
  di_reserved2 :: u64

record ublksrv_io_desc =
  iod_op_flags :: u32
  iod_nr_sectors :: u32
  iod_start_sector :: u64
  iod_addr :: u64

record ublk_auto_buf_reg =
  abr_index :: u16
  abr_flags :: u8
  abr_reserved0 :: u8
  abr_reserved1 :: u32

record ublksrv_io_cmd =
  ic_q_id :: u16
  ic_tag :: u16
  ic_result :: s32
  ic_addr :: u64

record ublk_elem_header =
  eh_tag :: u16
  eh_buf_index :: u16
  eh_result :: s32

record ublk_batch_io =
  bi_q_id :: u16
  bi_flags :: u16
  bi_nr_elem :: u16
  bi_elem_bytes :: u8
  bi_reserved :: u8
  bi_reserved2 :: u64

record ublk_param_basic =
  pb_attrs :: u32
  pb_logical_bs_shift :: u8
  pb_physical_bs_shift :: u8
  pb_io_opt_shift :: u8
  pb_io_min_shift :: u8
  pb_max_sectors :: u32
  pb_chunk_sectors :: u32
  pb_dev_sectors :: u64
  pb_virt_boundary_mask :: u64

record ublk_param_discard =
  pd_discard_alignment :: u32
  pd_discard_granularity :: u32
  pd_max_discard_sectors :: u32
  pd_max_write_zeroes_sectors :: u32
  pd_max_discard_segments :: u16
  pd_reserved0 :: u16

record ublk_param_devt =
  pv_char_major :: u32
  pv_char_minor :: u32
  pv_disk_major :: u32
  pv_disk_minor :: u32

record ublk_param_zoned =
  pz_max_open_zones :: u32
  pz_max_active_zones :: u32
  pz_max_zone_append_sectors :: u32

record ublk_param_dma_align =
  pa_alignment :: u32

record ublk_param_segment =
  ps_seg_boundary_mask :: u64
  ps_max_segment_size :: u32
  ps_max_segments :: u16

record ublk_param_integrity =
  pi_flags :: u32
  pi_max_integrity_segments :: u16
  pi_interval_exp :: u8
  pi_metadata_size :: u8
  pi_pi_offset :: u8
  pi_csum_type :: u8
  pi_tag_size :: u8

record ublk_params =
  pr_len :: u32
  pr_types :: u32
  pr_basic :: ublk_param_basic
  pr_discard :: ublk_param_discard
  pr_devt :: ublk_param_devt
  pr_zoned :: ublk_param_zoned
  pr_dma :: ublk_param_dma_align
  pr_seg :: ublk_param_segment
  pr_integrity :: ublk_param_integrity

text \<open>
  The buffer a control command points to. A pointer is represented by the object it points to:
  nothing, a device path, a plain struct, or a \<^verbatim>\<open>DevPathBuf\<close>, a struct behind a device path.
\<close>

type_synonym cpu_set_t = "1024 word"

datatype ctrl_payload =
    NoPayload
  | PInfo ublksrv_ctrl_dev_info
  | PParams ublk_params
  | PCpuset cpu_set_t
  | PShmReg ublk_shmem_buf_reg
  | PFeatures u64

datatype ctrl_ptr =
    Nullptr
  | PathPtr string
  | PayloadPtr ctrl_payload
  | PathBufPtr string ctrl_payload

record ublksrv_ctrl_cmd =
  cc_dev_id :: u32
  cc_queue_id :: u16
  cc_len :: u16
  cc_addr :: ctrl_ptr
  cc_data0 :: u64
  cc_dev_path_len :: u16
  cc_pad :: u16
  cc_reserved :: u32

section \<open>Sizes\<close>

definition sizeof_ublk_shmem_buf_reg :: nat where
  "sizeof_ublk_shmem_buf_reg = fst (c_struct [c_u64, c_u64, c_u32, c_u32])"

definition sizeof_ublksrv_ctrl_cmd :: nat where
  "sizeof_ublksrv_ctrl_cmd =
     fst (c_struct [c_u32, c_u16, c_u16, c_u64, c_array 1 c_u64, c_u16, c_u16, c_u32])"

definition sizeof_ublksrv_ctrl_dev_info :: nat where
  "sizeof_ublksrv_ctrl_dev_info =
     fst (c_struct [c_u16, c_u16, c_u16, c_u16, c_u32, c_u32, c_u32, c_u32, c_u64, c_u64,
       c_u32, c_u32, c_u64, c_u64])"

definition sizeof_ublksrv_io_desc :: nat where
  "sizeof_ublksrv_io_desc = fst (c_struct [c_u32, c_u32, c_u64, c_u64])"

definition sizeof_ublksrv_io_cmd :: nat where
  "sizeof_ublksrv_io_cmd = fst (c_struct [c_u16, c_u16, c_u32, c_u64])"

definition sizeof_ublk_elem_header :: nat where
  "sizeof_ublk_elem_header = fst (c_struct [c_u16, c_u16, c_u32])"

definition sizeof_ublk_batch_io :: nat where
  "sizeof_ublk_batch_io = fst (c_struct [c_u16, c_u16, c_u16, c_u8, c_u8, c_u64])"

definition sizeof_ublk_params :: nat where
  "sizeof_ublk_params = fst (c_struct [c_u32, c_u32,
     c_struct [c_u32, c_u8, c_u8, c_u8, c_u8, c_u32, c_u32, c_u64, c_u64],
     c_struct [c_u32, c_u32, c_u32, c_u32, c_u16, c_u16],
     c_struct [c_u32, c_u32, c_u32, c_u32],
     c_struct [c_u32, c_u32, c_u32, c_array 20 c_u8],
     c_struct [c_u32, c_array 4 c_u8],
     c_struct [c_u64, c_u32, c_u16, c_array 2 c_u8],
     c_struct [c_u32, c_u16, c_u8, c_u8, c_u8, c_u8, c_u8, c_array 5 c_u8]])"

lemma sizeof_values [consts_simps]:
  "sizeof_ublk_shmem_buf_reg = 24"
  "sizeof_ublksrv_ctrl_cmd = 32"
  "sizeof_ublksrv_ctrl_dev_info = 64"
  "sizeof_ublksrv_io_desc = 24"
  "sizeof_ublksrv_io_cmd = 16"
  "sizeof_ublk_elem_header = 8"
  "sizeof_ublk_batch_io = 16"
  "sizeof_ublk_params = 152"
  by code_simp+

section \<open>Command numbers\<close>

text \<open>
  The \<^verbatim>\<open>_IOR\<close> and \<^verbatim>\<open>_IOWR\<close> macros of the Linux headers: direction in bits 30-31, size of the
  argument in bits 16-29, type \<^verbatim>\<open>'u'\<close> in bits 8-15, number in bits 0-7.
\<close>

definition IOC :: "u32 \<Rightarrow> u32 \<Rightarrow> nat \<Rightarrow> u32" where
  "IOC dir nr sz =
     push_bit 30 dir OR push_bit 16 (of_nat sz) OR push_bit 8 (of_nat (of_char (CHR ''u''))) OR nr"

definition IOR :: "u32 \<Rightarrow> nat \<Rightarrow> u32" where
  "IOR nr sz = IOC 2 nr sz"

definition IOWR :: "u32 \<Rightarrow> nat \<Rightarrow> u32" where
  "IOWR nr sz = IOC 3 nr sz"

text \<open>The legacy command numbers, which the encoded commands carry.\<close>

definition UBLK_CMD_GET_QUEUE_AFFINITY :: u32 where [consts_simps]: "UBLK_CMD_GET_QUEUE_AFFINITY = 1"
definition UBLK_CMD_GET_DEV_INFO :: u32 where [consts_simps]: "UBLK_CMD_GET_DEV_INFO = 2"
definition UBLK_CMD_ADD_DEV :: u32 where [consts_simps]: "UBLK_CMD_ADD_DEV = 4"
definition UBLK_CMD_DEL_DEV :: u32 where [consts_simps]: "UBLK_CMD_DEL_DEV = 5"
definition UBLK_CMD_START_DEV :: u32 where [consts_simps]: "UBLK_CMD_START_DEV = 6"
definition UBLK_CMD_STOP_DEV :: u32 where [consts_simps]: "UBLK_CMD_STOP_DEV = 7"
definition UBLK_CMD_SET_PARAMS :: u32 where [consts_simps]: "UBLK_CMD_SET_PARAMS = 8"
definition UBLK_CMD_GET_PARAMS :: u32 where [consts_simps]: "UBLK_CMD_GET_PARAMS = 9"
definition UBLK_CMD_START_USER_RECOVERY :: u32 where [consts_simps]: "UBLK_CMD_START_USER_RECOVERY = 16"
definition UBLK_CMD_END_USER_RECOVERY :: u32 where [consts_simps]: "UBLK_CMD_END_USER_RECOVERY = 17"
definition UBLK_CMD_GET_DEV_INFO2 :: u32 where [consts_simps]: "UBLK_CMD_GET_DEV_INFO2 = 18"
definition UBLK_IO_FETCH_REQ :: u32 where [consts_simps]: "UBLK_IO_FETCH_REQ = 32"
definition UBLK_IO_COMMIT_AND_FETCH_REQ :: u32 where [consts_simps]: "UBLK_IO_COMMIT_AND_FETCH_REQ = 33"
definition UBLK_IO_NEED_GET_DATA :: u32 where [consts_simps]: "UBLK_IO_NEED_GET_DATA = 34"

definition UBLK_U_CMD_GET_QUEUE_AFFINITY :: u32 where [consts_simps]:
  "UBLK_U_CMD_GET_QUEUE_AFFINITY = IOR UBLK_CMD_GET_QUEUE_AFFINITY sizeof_ublksrv_ctrl_cmd"

definition UBLK_U_CMD_GET_DEV_INFO :: u32 where [consts_simps]:
  "UBLK_U_CMD_GET_DEV_INFO = IOR UBLK_CMD_GET_DEV_INFO sizeof_ublksrv_ctrl_cmd"

definition UBLK_U_CMD_ADD_DEV :: u32 where [consts_simps]:
  "UBLK_U_CMD_ADD_DEV = IOWR UBLK_CMD_ADD_DEV sizeof_ublksrv_ctrl_cmd"

definition UBLK_U_CMD_DEL_DEV :: u32 where [consts_simps]:
  "UBLK_U_CMD_DEL_DEV = IOWR UBLK_CMD_DEL_DEV sizeof_ublksrv_ctrl_cmd"

definition UBLK_U_CMD_START_DEV :: u32 where [consts_simps]:
  "UBLK_U_CMD_START_DEV = IOWR UBLK_CMD_START_DEV sizeof_ublksrv_ctrl_cmd"

definition UBLK_U_CMD_STOP_DEV :: u32 where [consts_simps]:
  "UBLK_U_CMD_STOP_DEV = IOWR UBLK_CMD_STOP_DEV sizeof_ublksrv_ctrl_cmd"

definition UBLK_U_CMD_SET_PARAMS :: u32 where [consts_simps]:
  "UBLK_U_CMD_SET_PARAMS = IOWR UBLK_CMD_SET_PARAMS sizeof_ublksrv_ctrl_cmd"

definition UBLK_U_CMD_GET_PARAMS :: u32 where [consts_simps]:
  "UBLK_U_CMD_GET_PARAMS = IOR UBLK_CMD_GET_PARAMS sizeof_ublksrv_ctrl_cmd"

definition UBLK_U_CMD_START_USER_RECOVERY :: u32 where [consts_simps]:
  "UBLK_U_CMD_START_USER_RECOVERY = IOWR UBLK_CMD_START_USER_RECOVERY sizeof_ublksrv_ctrl_cmd"

definition UBLK_U_CMD_END_USER_RECOVERY :: u32 where [consts_simps]:
  "UBLK_U_CMD_END_USER_RECOVERY = IOWR UBLK_CMD_END_USER_RECOVERY sizeof_ublksrv_ctrl_cmd"

definition UBLK_U_CMD_GET_DEV_INFO2 :: u32 where [consts_simps]:
  "UBLK_U_CMD_GET_DEV_INFO2 = IOR UBLK_CMD_GET_DEV_INFO2 sizeof_ublksrv_ctrl_cmd"

definition UBLK_U_CMD_GET_FEATURES :: u32 where [consts_simps]:
  "UBLK_U_CMD_GET_FEATURES = IOR 19 sizeof_ublksrv_ctrl_cmd"

definition UBLK_U_CMD_DEL_DEV_ASYNC :: u32 where [consts_simps]:
  "UBLK_U_CMD_DEL_DEV_ASYNC = IOR 20 sizeof_ublksrv_ctrl_cmd"

definition UBLK_U_CMD_UPDATE_SIZE :: u32 where [consts_simps]:
  "UBLK_U_CMD_UPDATE_SIZE = IOWR 21 sizeof_ublksrv_ctrl_cmd"

definition UBLK_U_CMD_QUIESCE_DEV :: u32 where [consts_simps]:
  "UBLK_U_CMD_QUIESCE_DEV = IOWR 22 sizeof_ublksrv_ctrl_cmd"

definition UBLK_U_CMD_TRY_STOP_DEV :: u32 where [consts_simps]:
  "UBLK_U_CMD_TRY_STOP_DEV = IOWR 23 sizeof_ublksrv_ctrl_cmd"

definition UBLK_U_CMD_REG_BUF :: u32 where [consts_simps]:
  "UBLK_U_CMD_REG_BUF = IOWR 24 sizeof_ublksrv_ctrl_cmd"

definition UBLK_U_CMD_UNREG_BUF :: u32 where [consts_simps]:
  "UBLK_U_CMD_UNREG_BUF = IOWR 25 sizeof_ublksrv_ctrl_cmd"

definition UBLK_U_IO_FETCH_REQ :: u32 where [consts_simps]:
  "UBLK_U_IO_FETCH_REQ = IOWR UBLK_IO_FETCH_REQ sizeof_ublksrv_io_cmd"

definition UBLK_U_IO_COMMIT_AND_FETCH_REQ :: u32 where [consts_simps]:
  "UBLK_U_IO_COMMIT_AND_FETCH_REQ = IOWR UBLK_IO_COMMIT_AND_FETCH_REQ sizeof_ublksrv_io_cmd"

definition UBLK_U_IO_NEED_GET_DATA :: u32 where [consts_simps]:
  "UBLK_U_IO_NEED_GET_DATA = IOWR UBLK_IO_NEED_GET_DATA sizeof_ublksrv_io_cmd"

definition UBLK_U_IO_REGISTER_IO_BUF :: u32 where [consts_simps]:
  "UBLK_U_IO_REGISTER_IO_BUF = IOWR 35 sizeof_ublksrv_io_cmd"

definition UBLK_U_IO_UNREGISTER_IO_BUF :: u32 where [consts_simps]:
  "UBLK_U_IO_UNREGISTER_IO_BUF = IOWR 36 sizeof_ublksrv_io_cmd"

definition UBLK_U_IO_PREP_IO_CMDS :: u32 where [consts_simps]:
  "UBLK_U_IO_PREP_IO_CMDS = IOWR 37 sizeof_ublk_batch_io"

definition UBLK_U_IO_COMMIT_IO_CMDS :: u32 where [consts_simps]:
  "UBLK_U_IO_COMMIT_IO_CMDS = IOWR 38 sizeof_ublk_batch_io"

definition UBLK_U_IO_FETCH_IO_CMDS :: u32 where [consts_simps]:
  "UBLK_U_IO_FETCH_IO_CMDS = IOWR 39 sizeof_ublk_batch_io"

section \<open>Feature flags\<close>

definition UBLK_F_SUPPORT_ZERO_COPY :: u64 where [flag_consts]:
  "UBLK_F_SUPPORT_ZERO_COPY = push_bit 0 1"

definition UBLK_F_URING_CMD_COMP_IN_TASK :: u64 where [flag_consts]:
  "UBLK_F_URING_CMD_COMP_IN_TASK = push_bit 1 1"

definition UBLK_F_NEED_GET_DATA :: u64 where [flag_consts]:
  "UBLK_F_NEED_GET_DATA = push_bit 2 1"

definition UBLK_F_USER_RECOVERY :: u64 where [flag_consts]:
  "UBLK_F_USER_RECOVERY = push_bit 3 1"

definition UBLK_F_USER_RECOVERY_REISSUE :: u64 where [flag_consts]:
  "UBLK_F_USER_RECOVERY_REISSUE = push_bit 4 1"

definition UBLK_F_UNPRIVILEGED_DEV :: u64 where [flag_consts]:
  "UBLK_F_UNPRIVILEGED_DEV = push_bit 5 1"

definition UBLK_F_CMD_IOCTL_ENCODE :: u64 where [flag_consts]:
  "UBLK_F_CMD_IOCTL_ENCODE = push_bit 6 1"

definition UBLK_F_USER_COPY :: u64 where [flag_consts]:
  "UBLK_F_USER_COPY = push_bit 7 1"

definition UBLK_F_ZONED :: u64 where [flag_consts]:
  "UBLK_F_ZONED = push_bit 8 1"

definition UBLK_F_USER_RECOVERY_FAIL_IO :: u64 where [flag_consts]:
  "UBLK_F_USER_RECOVERY_FAIL_IO = push_bit 9 1"

definition UBLK_F_UPDATE_SIZE :: u64 where [flag_consts]:
  "UBLK_F_UPDATE_SIZE = push_bit 10 1"

definition UBLK_F_AUTO_BUF_REG :: u64 where [flag_consts]:
  "UBLK_F_AUTO_BUF_REG = push_bit 11 1"

definition UBLK_F_QUIESCE :: u64 where [flag_consts]:
  "UBLK_F_QUIESCE = push_bit 12 1"

definition UBLK_F_PER_IO_DAEMON :: u64 where [flag_consts]:
  "UBLK_F_PER_IO_DAEMON = push_bit 13 1"

definition UBLK_F_BUF_REG_OFF_DAEMON :: u64 where [flag_consts]:
  "UBLK_F_BUF_REG_OFF_DAEMON = push_bit 14 1"

definition UBLK_F_BATCH_IO :: u64 where [flag_consts]:
  "UBLK_F_BATCH_IO = push_bit 15 1"

definition UBLK_F_INTEGRITY :: u64 where [flag_consts]:
  "UBLK_F_INTEGRITY = push_bit 16 1"

definition UBLK_F_SAFE_STOP_DEV :: u64 where [flag_consts]:
  "UBLK_F_SAFE_STOP_DEV = push_bit 17 1"

definition UBLK_F_NO_AUTO_PART_SCAN :: u64 where [flag_consts]:
  "UBLK_F_NO_AUTO_PART_SCAN = push_bit 18 1"

definition UBLK_F_SHMEM_ZC :: u64 where [flag_consts]:
  "UBLK_F_SHMEM_ZC = push_bit 19 1"

definition UBLK_F_IO_DESC_SIZE :: u64 where [flag_consts]:
  "UBLK_F_IO_DESC_SIZE = push_bit 20 1"

section \<open>Results and limits\<close>

text \<open>Linux errno values that the sources name.\<close>

definition ENOENT :: int where [consts_simps]: "ENOENT = 2"
definition EIO :: int where [consts_simps]: "EIO = 5"
definition EACCES :: int where [consts_simps]: "EACCES = 13"
definition EEXIST :: int where [consts_simps]: "EEXIST = 17"
definition ENODEV :: int where [consts_simps]: "ENODEV = 19"
definition EINVAL :: int where [consts_simps]: "EINVAL = 22"
definition EOPNOTSUPP :: int where [consts_simps]: "EOPNOTSUPP = 95"
definition ECANCELED :: int where [consts_simps]: "ECANCELED = 125"

definition UBLK_IO_RES_OK :: s32 where [consts_simps]:
  "UBLK_IO_RES_OK = 0"

definition UBLK_IO_RES_NEED_GET_DATA :: s32 where [consts_simps]:
  "UBLK_IO_RES_NEED_GET_DATA = 1"

definition UBLK_IO_RES_ABORT :: s32 where [consts_simps]:
  "UBLK_IO_RES_ABORT = - ENODEV"

definition UBLK_FEATURES_LEN :: nat where [consts_simps]:
  "UBLK_FEATURES_LEN = 8"

definition UBLK_SHMEM_BUF_READ_ONLY :: u32 where [flag_consts]:
  "UBLK_SHMEM_BUF_READ_ONLY = push_bit 0 1"

definition UBLKSRV_CMD_BUF_OFFSET :: u64 where [consts_simps]:
  "UBLKSRV_CMD_BUF_OFFSET = 0"

definition UBLKSRV_IO_BUF_OFFSET :: u64 where [consts_simps]:
  "UBLKSRV_IO_BUF_OFFSET = 0x80000000"

definition UBLK_MAX_QUEUE_DEPTH :: nat where [consts_simps]:
  "UBLK_MAX_QUEUE_DEPTH = 4096"

definition UBLK_IO_BUF_OFF :: nat where [consts_simps]:
  "UBLK_IO_BUF_OFF = 0"

definition UBLK_IO_BUF_BITS :: nat where [consts_simps]:
  "UBLK_IO_BUF_BITS = 25"

definition UBLK_IO_BUF_BITS_MASK :: u64 where [consts_simps]:
  "UBLK_IO_BUF_BITS_MASK = push_bit UBLK_IO_BUF_BITS 1 - 1"

definition UBLK_TAG_OFF :: nat where [consts_simps]:
  "UBLK_TAG_OFF = UBLK_IO_BUF_BITS"

definition UBLK_TAG_BITS :: nat where [consts_simps]:
  "UBLK_TAG_BITS = 16"

definition UBLK_TAG_BITS_MASK :: u64 where [consts_simps]:
  "UBLK_TAG_BITS_MASK = push_bit UBLK_TAG_BITS 1 - 1"

definition UBLK_QID_OFF :: nat where [consts_simps]:
  "UBLK_QID_OFF = UBLK_TAG_OFF + UBLK_TAG_BITS"

definition UBLK_QID_BITS :: nat where [consts_simps]:
  "UBLK_QID_BITS = 12"

definition UBLK_QID_BITS_MASK :: u64 where [consts_simps]:
  "UBLK_QID_BITS_MASK = push_bit UBLK_QID_BITS 1 - 1"

definition UBLK_MAX_NR_QUEUES :: nat where [consts_simps]:
  "UBLK_MAX_NR_QUEUES = 2 ^ UBLK_QID_BITS"

definition UBLKSRV_IO_BUF_TOTAL_BITS :: nat where [consts_simps]:
  "UBLKSRV_IO_BUF_TOTAL_BITS = UBLK_QID_OFF + UBLK_QID_BITS"

definition UBLKSRV_IO_BUF_TOTAL_SIZE :: u64 where [consts_simps]:
  "UBLKSRV_IO_BUF_TOTAL_SIZE = push_bit UBLKSRV_IO_BUF_TOTAL_BITS 1"

definition UBLK_INTEGRITY_FLAG_OFF :: nat where [consts_simps]:
  "UBLK_INTEGRITY_FLAG_OFF = 62"

definition UBLKSRV_IO_INTEGRITY_FLAG :: u64 where [consts_simps]:
  "UBLKSRV_IO_INTEGRITY_FLAG = push_bit UBLK_INTEGRITY_FLAG_OFF 1"

section \<open>Device states and I/O operations\<close>

definition UBLK_S_DEV_DEAD :: u16 where [consts_simps]: "UBLK_S_DEV_DEAD = 0"
definition UBLK_S_DEV_LIVE :: u16 where [consts_simps]: "UBLK_S_DEV_LIVE = 1"
definition UBLK_S_DEV_QUIESCED :: u16 where [consts_simps]: "UBLK_S_DEV_QUIESCED = 2"
definition UBLK_S_DEV_FAIL_IO :: u16 where [consts_simps]: "UBLK_S_DEV_FAIL_IO = 3"

definition UBLK_IO_OP_READ :: u8 where [consts_simps]: "UBLK_IO_OP_READ = 0"
definition UBLK_IO_OP_WRITE :: u8 where [consts_simps]: "UBLK_IO_OP_WRITE = 1"
definition UBLK_IO_OP_FLUSH :: u8 where [consts_simps]: "UBLK_IO_OP_FLUSH = 2"
definition UBLK_IO_OP_DISCARD :: u8 where [consts_simps]: "UBLK_IO_OP_DISCARD = 3"
definition UBLK_IO_OP_WRITE_SAME :: u8 where [consts_simps]: "UBLK_IO_OP_WRITE_SAME = 4"
definition UBLK_IO_OP_WRITE_ZEROES :: u8 where [consts_simps]: "UBLK_IO_OP_WRITE_ZEROES = 5"
definition UBLK_IO_OP_ZONE_OPEN :: u8 where [consts_simps]: "UBLK_IO_OP_ZONE_OPEN = 10"
definition UBLK_IO_OP_ZONE_CLOSE :: u8 where [consts_simps]: "UBLK_IO_OP_ZONE_CLOSE = 11"
definition UBLK_IO_OP_ZONE_FINISH :: u8 where [consts_simps]: "UBLK_IO_OP_ZONE_FINISH = 12"
definition UBLK_IO_OP_ZONE_APPEND :: u8 where [consts_simps]: "UBLK_IO_OP_ZONE_APPEND = 13"
definition UBLK_IO_OP_ZONE_RESET_ALL :: u8 where [consts_simps]: "UBLK_IO_OP_ZONE_RESET_ALL = 14"
definition UBLK_IO_OP_ZONE_RESET :: u8 where [consts_simps]: "UBLK_IO_OP_ZONE_RESET = 15"
definition UBLK_IO_OP_REPORT_ZONES :: u8 where [consts_simps]: "UBLK_IO_OP_REPORT_ZONES = 18"

text \<open>The flags of a request, at their positions in \<^verbatim>\<open>op_flags\<close>.\<close>

definition UBLK_IO_F_FAILFAST_DEV :: u32 where [flag_consts]: "UBLK_IO_F_FAILFAST_DEV = push_bit 8 1"
definition UBLK_IO_F_FAILFAST_TRANSPORT :: u32 where [flag_consts]: "UBLK_IO_F_FAILFAST_TRANSPORT = push_bit 9 1"
definition UBLK_IO_F_FAILFAST_DRIVER :: u32 where [flag_consts]: "UBLK_IO_F_FAILFAST_DRIVER = push_bit 10 1"
definition UBLK_IO_F_META :: u32 where [flag_consts]: "UBLK_IO_F_META = push_bit 11 1"
definition UBLK_IO_F_FUA :: u32 where [flag_consts]: "UBLK_IO_F_FUA = push_bit 13 1"
definition UBLK_IO_F_NOUNMAP :: u32 where [flag_consts]: "UBLK_IO_F_NOUNMAP = push_bit 15 1"
definition UBLK_IO_F_SWAP :: u32 where [flag_consts]: "UBLK_IO_F_SWAP = push_bit 16 1"
definition UBLK_IO_F_INTEGRITY :: u64 where [flag_consts]: "UBLK_IO_F_INTEGRITY = push_bit 18 1"

definition UBLK_IO_F_NEED_REG_BUF :: u32 where [flag_consts]:
  "UBLK_IO_F_NEED_REG_BUF = push_bit 17 1"

definition UBLK_IO_F_SHMEM_ZC :: u32 where [flag_consts]:
  "UBLK_IO_F_SHMEM_ZC = push_bit 19 1"

definition UBLK_AUTO_BUF_REG_FALLBACK :: u8 where [flag_consts]:
  "UBLK_AUTO_BUF_REG_FALLBACK = push_bit 0 1"

definition UBLK_AUTO_BUF_REG_F_MASK :: u8 where [flag_consts]:
  "UBLK_AUTO_BUF_REG_F_MASK = UBLK_AUTO_BUF_REG_FALLBACK"

definition UBLK_BATCH_F_HAS_ZONE_LBA :: u16 where [flag_consts]:
  "UBLK_BATCH_F_HAS_ZONE_LBA = push_bit 0 1"

definition UBLK_BATCH_F_HAS_BUF_ADDR :: u16 where [flag_consts]:
  "UBLK_BATCH_F_HAS_BUF_ADDR = push_bit 1 1"

definition UBLK_BATCH_F_AUTO_BUF_REG_FALLBACK :: u16 where [flag_consts]:
  "UBLK_BATCH_F_AUTO_BUF_REG_FALLBACK = push_bit 2 1"

section \<open>Accessors and address encodings\<close>

definition ublksrv_get_op :: "ublksrv_io_desc \<Rightarrow> u8" where
  "ublksrv_get_op iod = ucast (iod_op_flags iod AND 0xff)"

definition ublksrv_get_flags :: "ublksrv_io_desc \<Rightarrow> u32" where
  "ublksrv_get_flags iod = drop_bit 8 (iod_op_flags iod)"

definition ublk_sqe_addr_to_auto_buf_reg :: "u64 \<Rightarrow> ublk_auto_buf_reg" where
  "ublk_sqe_addr_to_auto_buf_reg sqe_addr =
     \<lparr>abr_index = ucast sqe_addr,
      abr_flags = ucast (drop_bit 16 sqe_addr),
      abr_reserved0 = ucast (drop_bit 24 sqe_addr),
      abr_reserved1 = ucast (drop_bit 32 sqe_addr)\<rparr>"

definition ublk_auto_buf_reg_to_sqe_addr :: "ublk_auto_buf_reg \<Rightarrow> u64" where
  "ublk_auto_buf_reg_to_sqe_addr buf =
     ucast (abr_index buf) OR push_bit 16 (ucast (abr_flags buf)) OR
     push_bit 24 (ucast (abr_reserved0 buf)) OR push_bit 32 (ucast (abr_reserved1 buf))"

definition UBLK_SHMEM_ZC_OFF_MASK :: u64 where
  "UBLK_SHMEM_ZC_OFF_MASK = 0xffffffff"

definition UBLK_SHMEM_ZC_IDX_OFF :: nat where
  "UBLK_SHMEM_ZC_IDX_OFF = 32"

definition UBLK_SHMEM_ZC_IDX_MASK :: u64 where
  "UBLK_SHMEM_ZC_IDX_MASK = 0xffff"

definition ublk_shmem_zc_addr :: "u16 \<Rightarrow> u32 \<Rightarrow> u64" where
  "ublk_shmem_zc_addr index off = push_bit UBLK_SHMEM_ZC_IDX_OFF (ucast index) OR ucast off"

definition ublk_shmem_zc_index :: "u64 \<Rightarrow> u16" where
  "ublk_shmem_zc_index addr = ucast (drop_bit UBLK_SHMEM_ZC_IDX_OFF addr AND UBLK_SHMEM_ZC_IDX_MASK)"

definition ublk_shmem_zc_offset :: "u64 \<Rightarrow> u32" where
  "ublk_shmem_zc_offset addr = ucast (addr AND UBLK_SHMEM_ZC_OFF_MASK)"

section \<open>helpers.hpp\<close>

definition shmem_zc_index :: "u64 \<Rightarrow> u16" where
  "shmem_zc_index addr = ublk_shmem_zc_index addr"

definition shmem_zc_offset :: "u64 \<Rightarrow> u32" where
  "shmem_zc_offset addr = ublk_shmem_zc_offset addr"

text \<open>\<open>None\<close> is the failure of the assertion on \<open>offset\<close>.\<close>

definition user_copy_pos :: "u16 \<Rightarrow> u16 \<Rightarrow> u32 \<Rightarrow> u64 option" where
  "user_copy_pos q_id tag offset =
     (if ucast offset AND NOT UBLK_IO_BUF_BITS_MASK \<noteq> 0 then None
      else Some (UBLKSRV_IO_BUF_OFFSET +
        (push_bit UBLK_QID_OFF (ucast q_id) OR push_bit UBLK_TAG_OFF (ucast tag) OR ucast offset)))"

section \<open>Properties of the encodings\<close>

text \<open>Testing a feature flag reads one bit of the flag word.\<close>

lemma flag_bits:
  "has_flag w UBLK_F_SUPPORT_ZERO_COPY \<longleftrightarrow> bit w 0"
  "has_flag w UBLK_F_URING_CMD_COMP_IN_TASK \<longleftrightarrow> bit w 1"
  "has_flag w UBLK_F_NEED_GET_DATA \<longleftrightarrow> bit w 2"
  "has_flag w UBLK_F_USER_RECOVERY \<longleftrightarrow> bit w 3"
  "has_flag w UBLK_F_USER_RECOVERY_REISSUE \<longleftrightarrow> bit w 4"
  "has_flag w UBLK_F_UNPRIVILEGED_DEV \<longleftrightarrow> bit w 5"
  "has_flag w UBLK_F_CMD_IOCTL_ENCODE \<longleftrightarrow> bit w 6"
  "has_flag w UBLK_F_USER_COPY \<longleftrightarrow> bit w 7"
  "has_flag w UBLK_F_ZONED \<longleftrightarrow> bit w 8"
  "has_flag w UBLK_F_USER_RECOVERY_FAIL_IO \<longleftrightarrow> bit w 9"
  "has_flag w UBLK_F_UPDATE_SIZE \<longleftrightarrow> bit w 10"
  "has_flag w UBLK_F_AUTO_BUF_REG \<longleftrightarrow> bit w 11"
  "has_flag w UBLK_F_QUIESCE \<longleftrightarrow> bit w 12"
  "has_flag w UBLK_F_PER_IO_DAEMON \<longleftrightarrow> bit w 13"
  "has_flag w UBLK_F_BUF_REG_OFF_DAEMON \<longleftrightarrow> bit w 14"
  "has_flag w UBLK_F_BATCH_IO \<longleftrightarrow> bit w 15"
  "has_flag w UBLK_F_INTEGRITY \<longleftrightarrow> bit w 16"
  "has_flag w UBLK_F_SAFE_STOP_DEV \<longleftrightarrow> bit w 17"
  "has_flag w UBLK_F_NO_AUTO_PART_SCAN \<longleftrightarrow> bit w 18"
  "has_flag w UBLK_F_SHMEM_ZC \<longleftrightarrow> bit w 19"
  "has_flag w UBLK_F_IO_DESC_SIZE \<longleftrightarrow> bit w 20"
  unfolding UBLK_F_SUPPORT_ZERO_COPY_def UBLK_F_URING_CMD_COMP_IN_TASK_def UBLK_F_NEED_GET_DATA_def UBLK_F_USER_RECOVERY_def UBLK_F_USER_RECOVERY_REISSUE_def UBLK_F_UNPRIVILEGED_DEV_def UBLK_F_CMD_IOCTL_ENCODE_def UBLK_F_USER_COPY_def UBLK_F_ZONED_def UBLK_F_USER_RECOVERY_FAIL_IO_def UBLK_F_UPDATE_SIZE_def UBLK_F_AUTO_BUF_REG_def UBLK_F_QUIESCE_def UBLK_F_PER_IO_DAEMON_def UBLK_F_BUF_REG_OFF_DAEMON_def UBLK_F_BATCH_IO_def UBLK_F_INTEGRITY_def UBLK_F_SAFE_STOP_DEV_def UBLK_F_NO_AUTO_PART_SCAN_def UBLK_F_SHMEM_ZC_def UBLK_F_IO_DESC_SIZE_def
  by (rule has_flag_bit)+

lemma op_flag_bits:
  "has_flag w' UBLK_IO_F_NEED_REG_BUF \<longleftrightarrow> bit w' 17"
  "has_flag w' UBLK_IO_F_SHMEM_ZC \<longleftrightarrow> bit w' 19"
  unfolding UBLK_IO_F_NEED_REG_BUF_def UBLK_IO_F_SHMEM_ZC_def by (rule has_flag_bit)+

lemma unat_less_take_bit: "unat (w::'a::len word) < 2 ^ k \<longleftrightarrow> take_bit k w = w"
  by (metis take_bit_nat_eq_self_iff unsigned_take_bit_eq unsigned_word_eqI)

lemma bit_below: "unat (w::'a::len word) < 2 ^ k \<Longrightarrow> bit w n \<Longrightarrow> n < k"
  by (metis bit_take_bit_iff unat_less_take_bit)

lemma low_masks:
  "(0xff::u32) = mask 8" "(0xffff::u64) = mask 16" "(0xffffffff::u64) = mask 32"
  "UBLK_IO_BUF_BITS_MASK = mask 25"
  by (simp_all add: consts_simps mask_eq_exp_minus_1)

lemma op_flags_split:
  "push_bit 8 (ublksrv_get_flags iod) OR ucast (ublksrv_get_op iod) = iod_op_flags iod"
proof (rule bit_word_eqI)
  fix n
  assume "n < LENGTH(32)"
  then show "bit (push_bit 8 (ublksrv_get_flags iod) OR ucast (ublksrv_get_op iod)) n =
      bit (iod_op_flags iod) n"
    by (cases "n < 8") (auto simp: ublksrv_get_flags_def ublksrv_get_op_def low_masks bit_simps)
qed

subsection \<open>Automatic buffer registration\<close>

lemma auto_buf_reg_dec_enc:
  "ublk_sqe_addr_to_auto_buf_reg (ublk_auto_buf_reg_to_sqe_addr r) = r"
proof -
  let ?e = "ublk_auto_buf_reg_to_sqe_addr r"
  have "ucast ?e = abr_index r" "ucast (drop_bit 16 ?e) = abr_flags r"
    "ucast (drop_bit 24 ?e) = abr_reserved0 r" "ucast (drop_bit 32 ?e) = abr_reserved1 r"
    by (rule bit_word_eqI;
        auto simp: ublk_auto_buf_reg_to_sqe_addr_def bit_simps dest: bit_imp_le_length)+
  then show ?thesis by (simp add: ublk_sqe_addr_to_auto_buf_reg_def)
qed

lemma auto_buf_reg_enc_dec:
  "ublk_auto_buf_reg_to_sqe_addr (ublk_sqe_addr_to_auto_buf_reg a) = a"
proof (rule bit_word_eqI)
  fix n
  assume "n < LENGTH(64)"
  then consider "n < 16" | "16 \<le> n" "n < 24" | "24 \<le> n" "n < 32" | "32 \<le> n" "n < 64"
    by fastforce
  then show "bit (ublk_auto_buf_reg_to_sqe_addr (ublk_sqe_addr_to_auto_buf_reg a)) n = bit a n"
    by cases
      (auto simp: ublk_auto_buf_reg_to_sqe_addr_def ublk_sqe_addr_to_auto_buf_reg_def bit_simps)
qed

interpretation auto_reg: codec ublk_auto_buf_reg_to_sqe_addr ublk_sqe_addr_to_auto_buf_reg "\<lambda>_. True"
  by unfold_locales (rule auto_buf_reg_dec_enc)

text \<open>
  The registration data packed into \<^verbatim>\<open>sqe->addr\<close> for automatic buffer registration and the
  unpacking function are mutually inverse: no two registrations share an address and every
  64-bit address is the packing of exactly one registration.
\<close>

theorem auto_buf_reg_bijective:
  "ublk_sqe_addr_to_auto_buf_reg (ublk_auto_buf_reg_to_sqe_addr r) = r \<and>
   ublk_auto_buf_reg_to_sqe_addr (ublk_sqe_addr_to_auto_buf_reg a) = a \<and>
   (ublk_auto_buf_reg_to_sqe_addr r = ublk_auto_buf_reg_to_sqe_addr r' \<longleftrightarrow> r = r')"
  by (simp add: auto_buf_reg_dec_enc auto_buf_reg_enc_dec auto_reg.enc_eq_iff)

subsection \<open>Shared memory zero copy\<close>

lemmas zc_defs =
  ublk_shmem_zc_addr_def ublk_shmem_zc_index_def ublk_shmem_zc_offset_def
  shmem_zc_index_def shmem_zc_offset_def
  UBLK_SHMEM_ZC_OFF_MASK_def UBLK_SHMEM_ZC_IDX_OFF_def UBLK_SHMEM_ZC_IDX_MASK_def

lemma shmem_zc_dec_enc:
  "shmem_zc_index (ublk_shmem_zc_addr i off) = i"
  "shmem_zc_offset (ublk_shmem_zc_addr i off) = off"
  by (rule bit_word_eqI; auto simp: zc_defs low_masks bit_simps dest: bit_imp_le_length)+

interpretation shmem_zc: codec
  "\<lambda>(i, off). ublk_shmem_zc_addr i off" "\<lambda>a. (shmem_zc_index a, shmem_zc_offset a)" "\<lambda>_. True"
  by unfold_locales (auto simp: shmem_zc_dec_enc)

lemma shmem_zc_enc_dec:
  assumes "drop_bit 48 a = 0"
  shows "ublk_shmem_zc_addr (shmem_zc_index a) (shmem_zc_offset a) = a"
proof (rule bit_word_eqI)
  fix n
  assume n: "n < LENGTH(64)"
  have "\<not> bit a n" if "48 \<le> n"
  proof -
    have "bit (drop_bit 48 a) (n - 48) = bit a n" using that by (simp add: bit_simps)
    then show ?thesis using assms by simp
  qed
  then show "bit (ublk_shmem_zc_addr (shmem_zc_index a) (shmem_zc_offset a)) n = bit a n"
    using n by (cases "n < 48") (auto simp: zc_defs low_masks bit_simps)
qed

text \<open>
  Buffer index and byte offset survive the shared memory zero-copy address encoding, so the
  two helpers of \<^verbatim>\<open>helpers.hpp\<close> recover what the driver put into an I/O descriptor, and an
  address whose 16 reserved bits are zero is exactly the encoding of the two values read from it.
\<close>

theorem shmem_zc_roundtrip:
  assumes "drop_bit 48 a = 0"
  shows "shmem_zc_index (ublk_shmem_zc_addr i off) = i \<and>
    shmem_zc_offset (ublk_shmem_zc_addr i off) = off \<and>
    ublk_shmem_zc_addr (shmem_zc_index a) (shmem_zc_offset a) = a"
  using assms by (simp add: shmem_zc_dec_enc shmem_zc_enc_dec)

theorem shmem_zc_roundtrip_witness:
  "ublk_shmem_zc_addr (shmem_zc_index 0x700001000) (shmem_zc_offset 0x700001000) = 0x700001000"
  using shmem_zc_roundtrip [of "0x700001000" 0 0] by simp

subsection \<open>User copy\<close>

lemma integrity_bit: "has_flag w UBLKSRV_IO_INTEGRITY_FLAG \<longleftrightarrow> bit w 62"
  unfolding UBLKSRV_IO_INTEGRITY_FLAG_def UBLK_INTEGRITY_FLAG_OFF_def by (rule has_flag_bit)

text \<open>The position inside \<^verbatim>\<open>/dev/ublkcN\<close> as the driver splits it, from the bit fields of the header.\<close>

definition user_copy_fields :: "u64 \<Rightarrow> u16 \<times> u16 \<times> u32" where
  "user_copy_fields pos =
     (let p = pos - UBLKSRV_IO_BUF_OFFSET
      in (ucast (take_bit UBLK_QID_BITS (drop_bit UBLK_QID_OFF p)),
          ucast (take_bit UBLK_TAG_BITS (drop_bit UBLK_TAG_OFF p)),
          ucast (take_bit UBLK_IO_BUF_BITS p)))"

lemma user_copy_assert:
  "ucast (offset::u32) AND NOT UBLK_IO_BUF_BITS_MASK = 0 \<longleftrightarrow> unat offset < 2 ^ UBLK_IO_BUF_BITS"
proof -
  have "ucast offset AND NOT UBLK_IO_BUF_BITS_MASK = 0 \<longleftrightarrow> take_bit 25 (ucast offset :: u64) = ucast offset"
    by (auto simp: low_masks bit_eq_iff bit_simps)
  also have "\<dots> \<longleftrightarrow> unat (ucast offset :: u64) < 2 ^ 25"
    by (rule unat_less_take_bit [symmetric])
  also have "unat (ucast offset :: u64) = unat offset"
    by (simp add: unsigned_ucast_eq take_bit_nat_eq_self unsigned_less [of offset, THEN less_le_trans])
  finally show ?thesis by (simp add: UBLK_IO_BUF_BITS_def)
qed

text \<open>
  C39. For a queue below \<^verbatim>\<open>UBLK_MAX_NR_QUEUES\<close> and an offset below 32 MiB the position computed
  for \<^verbatim>\<open>pread\<close>/\<^verbatim>\<open>pwrite\<close> exists, lies in the data area, with the integrity flag clear, and splits
  back into exactly the queue, the tag and the offset: the bit fields never run into each other.
\<close>

theorem user_copy_pos_fields:
  assumes "unat q_id < UBLK_MAX_NR_QUEUES" and "unat offset < 2 ^ UBLK_IO_BUF_BITS"
  shows "\<exists>pos. user_copy_pos q_id tag offset = Some pos \<and> user_copy_fields pos = (q_id, tag, offset) \<and>
    UBLKSRV_IO_BUF_OFFSET \<le> pos \<and> pos < UBLKSRV_IO_BUF_OFFSET + UBLKSRV_IO_BUF_TOTAL_SIZE \<and>
    \<not> has_flag pos UBLKSRV_IO_INTEGRITY_FLAG"
proof -
  let ?p = "push_bit UBLK_QID_OFF (ucast q_id) OR push_bit UBLK_TAG_OFF (ucast tag) OR ucast offset :: u64"
  have q: "\<And>n. bit q_id n \<Longrightarrow> n < 12" and o: "\<And>n. bit offset n \<Longrightarrow> n < 25"
    using assms bit_below [of q_id 12] bit_below [of offset 25] by (auto simp: consts_simps)
  have "ucast (take_bit UBLK_QID_BITS (drop_bit UBLK_QID_OFF ?p)) = q_id"
       "ucast (take_bit UBLK_TAG_BITS (drop_bit UBLK_TAG_OFF ?p)) = tag"
       "ucast (take_bit UBLK_IO_BUF_BITS ?p) = offset"
    by (rule bit_word_eqI; auto simp: consts_simps bit_simps dest: bit_imp_le_length q o)+
  moreover have "take_bit 53 ?p = ?p"
    by (rule bit_word_eqI) (auto simp: consts_simps bit_simps dest: bit_imp_le_length q o)
  then have p: "unat ?p < 2 ^ 53" by (rule unat_less_take_bit [THEN iffD2])
  then have u: "unat (UBLKSRV_IO_BUF_OFFSET + ?p) = 0x80000000 + unat ?p"
    by (simp add: unat_word_ariths UBLKSRV_IO_BUF_OFFSET_def)
  have "\<not> bit (UBLKSRV_IO_BUF_OFFSET + ?p) 62"
    using bit_below [of "UBLKSRV_IO_BUF_OFFSET + ?p" 54 62] u p by auto
  moreover have "UBLKSRV_IO_BUF_OFFSET \<le> UBLKSRV_IO_BUF_OFFSET + ?p"
    "UBLKSRV_IO_BUF_OFFSET + ?p < UBLKSRV_IO_BUF_OFFSET + UBLKSRV_IO_BUF_TOTAL_SIZE"
    using u p by (simp_all add: word_le_nat_alt word_less_nat_alt UBLKSRV_IO_BUF_OFFSET_def
        UBLKSRV_IO_BUF_TOTAL_SIZE_def UBLKSRV_IO_BUF_TOTAL_BITS_def UBLK_QID_OFF_def UBLK_TAG_OFF_def
        UBLK_TAG_BITS_def UBLK_QID_BITS_def UBLK_IO_BUF_BITS_def)
  ultimately show ?thesis
    using assms(2) by (simp add: user_copy_pos_def user_copy_assert user_copy_fields_def integrity_bit)
qed

theorem user_copy_pos_fields_witness:
  "\<exists>pos. user_copy_pos 3 65535 4096 = Some pos \<and> user_copy_fields pos = (3, 65535, 4096) \<and> \<not> has_flag pos UBLKSRV_IO_INTEGRITY_FLAG"
proof -
  have "unat (3 :: u16) < UBLK_MAX_NR_QUEUES" "unat (4096 :: u32) < 2 ^ UBLK_IO_BUF_BITS" by (simp_all add: consts_simps)
  from user_copy_pos_fields [OF this, of 65535] show ?thesis by blast
qed

lemma user_copy_pos_abort: "user_copy_pos q_id tag offset = None \<longleftrightarrow> \<not> unat offset < 2 ^ UBLK_IO_BUF_BITS"
  by (simp add: user_copy_pos_def user_copy_assert)

subsection \<open>The request word\<close>

text \<open>
  The word a driver stores for an operation and a list of flags. The flags are named at their
  positions in \<^verbatim>\<open>op_flags\<close>, one of them as an \<^verbatim>\<open>unsigned long\<close>.
\<close>

definition io_flags :: "u32 list" where
  "io_flags =
     [UBLK_IO_F_FAILFAST_DEV, UBLK_IO_F_FAILFAST_TRANSPORT, UBLK_IO_F_FAILFAST_DRIVER, UBLK_IO_F_META,
      UBLK_IO_F_FUA, UBLK_IO_F_NOUNMAP, UBLK_IO_F_SWAP, UBLK_IO_F_NEED_REG_BUF, ucast UBLK_IO_F_INTEGRITY,
      UBLK_IO_F_SHMEM_ZC]"

definition request_word :: "u8 \<Rightarrow> u32 list \<Rightarrow> u32" where
  "request_word op fs = ucast op OR foldr (OR) fs 0"

lemma io_flags_bits: "io_flags = map (\<lambda>k. push_bit k 1) [8, 9, 10, 11, 13, 15, 16, 17, 18, 19]"
  by (simp add: io_flags_def flag_consts)

lemma bit_foldr_or: "bit (foldr (OR) fs (0 :: u32)) n \<longleftrightarrow> (\<exists>f \<in> set fs. bit f n)"
  by (induction fs) (auto simp: bit_simps)

lemma io_flag_bit:
  assumes "f \<in> set io_flags"
  shows "\<exists>k. 8 \<le> k \<and> k < 20 \<and> f = push_bit k 1"
proof -
  obtain k where "k \<in> set [8, 9, 10, 11, 13, 15, 16, 17, 18, 19]" "f = push_bit k 1"
    using assms unfolding io_flags_bits set_map by blast
  then show ?thesis by (intro exI [of _ k]) auto
qed

lemma single_bit_eq: "k < 32 \<Longrightarrow> bit (push_bit k' (1 :: u32)) k \<longleftrightarrow> k = k'"
  by (auto simp: bit_simps)

text \<open>
  A request descriptor can be read back: whatever operation and whichever of the flags of the
  header the driver puts into \<^verbatim>\<open>op_flags\<close>, \<^verbatim>\<open>ublksrv_get_op\<close> returns exactly the operation, and
  testing the word for a flag succeeds exactly for the flags that were put in. The flags share no
  bit with the operation or with each other.
\<close>

theorem request_word_fields:
  assumes "set fs \<subseteq> set io_flags" and "f \<in> set io_flags" and "iod_op_flags iod = request_word op fs"
  shows "ublksrv_get_op iod = op \<and> (has_flag (iod_op_flags iod) f \<longleftrightarrow> f \<in> set fs) \<and>
    (has_flag (iod_op_flags iod) f \<longleftrightarrow> has_flag (ublksrv_get_flags iod) (drop_bit 8 f)) \<and>
    distinct io_flags"
proof (intro conjI)
  have low: "\<not> bit g n" if g: "g \<in> set fs" and n: "n < 8" for g n
  proof -
    obtain k where "8 \<le> k" "g = push_bit k 1" using io_flag_bit assms(1) g by blast
    with n show ?thesis using single_bit_eq [of n k] by simp
  qed
  show "ublksrv_get_op iod = op"
    by (rule bit_word_eqI)
      (auto simp: ublksrv_get_op_def assms(3) request_word_def low_masks bit_simps bit_foldr_or dest: low)
  obtain k where k: "8 \<le> k" "k < 20" "f = push_bit k 1" using io_flag_bit [OF assms(2)] by blast
  have "bit g k \<longleftrightarrow> g = f" if g: "g \<in> set fs" for g
  proof -
    obtain k' where "g = push_bit k' 1" using io_flag_bit assms(1) g by blast
    with k single_bit_eq [of k k'] single_bit_eq [of k k] show ?thesis by auto
  qed
  then have "bit (iod_op_flags iod) k \<longleftrightarrow> f \<in> set fs"
    using k(1) by (auto simp: assms(3) request_word_def bit_foldr_or bit_simps dest: bit_imp_le_length)
  then show "has_flag (iod_op_flags iod) f \<longleftrightarrow> f \<in> set fs" unfolding k(3) has_flag_bit .
  have d: "drop_bit 8 f = push_bit (k - 8) 1"
    unfolding k(3) using k(1,2) by (intro bit_word_eqI) (auto simp: bit_simps)
  show "has_flag (iod_op_flags iod) f \<longleftrightarrow> has_flag (ublksrv_get_flags iod) (drop_bit 8 f)"
    unfolding d unfolding k(3) has_flag_bit using k(1) by (simp add: ublksrv_get_flags_def bit_simps)
  show "distinct io_flags" by (simp add: io_flags_bits)
qed

theorem request_word_fields_witness:
  "ublksrv_get_op \<lparr>iod_op_flags = 0x2001, iod_nr_sectors = 8, iod_start_sector = 0, iod_addr = 0\<rparr> = UBLK_IO_OP_WRITE \<and>
   has_flag 0x2001 UBLK_IO_F_FUA"
  (is "ublksrv_get_op ?iod = _ \<and> _")
proof -
  have m: "set [UBLK_IO_F_FUA] \<subseteq> set io_flags" "UBLK_IO_F_FUA \<in> set io_flags" by (simp_all add: io_flags_def)
  have w: "iod_op_flags ?iod = request_word UBLK_IO_OP_WRITE [UBLK_IO_F_FUA]"
    by (simp add: request_word_def consts_simps flag_consts)
  from request_word_fields [OF m w] show ?thesis by simp
qed

subsection \<open>Command numbers\<close>

text \<open>The fields of an encoded command as \<^verbatim>\<open>_IOC_DIR\<close>, \<^verbatim>\<open>_IOC_TYPE\<close>, \<^verbatim>\<open>_IOC_NR\<close> and \<^verbatim>\<open>_IOC_SIZE\<close> read them.\<close>

definition IOC_DIR :: "u32 \<Rightarrow> u32" where "IOC_DIR cmd = drop_bit 30 cmd AND 3"
definition IOC_TYPE :: "u32 \<Rightarrow> u32" where "IOC_TYPE cmd = drop_bit 8 cmd AND 0xff"
definition IOC_NR :: "u32 \<Rightarrow> u32" where "IOC_NR cmd = cmd AND 0xff"
definition IOC_SIZE :: "u32 \<Rightarrow> nat" where "IOC_SIZE cmd = unat (drop_bit 16 cmd AND 0x3fff)"

definition control_commands :: "u32 list" where
  "control_commands =
     [UBLK_U_CMD_GET_QUEUE_AFFINITY, UBLK_U_CMD_GET_DEV_INFO, UBLK_U_CMD_ADD_DEV,
      UBLK_U_CMD_DEL_DEV, UBLK_U_CMD_START_DEV, UBLK_U_CMD_STOP_DEV, UBLK_U_CMD_SET_PARAMS,
      UBLK_U_CMD_GET_PARAMS, UBLK_U_CMD_START_USER_RECOVERY, UBLK_U_CMD_END_USER_RECOVERY,
      UBLK_U_CMD_GET_DEV_INFO2, UBLK_U_CMD_GET_FEATURES, UBLK_U_CMD_DEL_DEV_ASYNC,
      UBLK_U_CMD_UPDATE_SIZE, UBLK_U_CMD_QUIESCE_DEV, UBLK_U_CMD_TRY_STOP_DEV,
      UBLK_U_CMD_REG_BUF, UBLK_U_CMD_UNREG_BUF]"

definition io_commands :: "u32 list" where
  "io_commands =
     [UBLK_U_IO_FETCH_REQ, UBLK_U_IO_COMMIT_AND_FETCH_REQ, UBLK_U_IO_NEED_GET_DATA,
      UBLK_U_IO_REGISTER_IO_BUF, UBLK_U_IO_UNREGISTER_IO_BUF]"

definition batch_commands :: "u32 list" where
  "batch_commands = [UBLK_U_IO_PREP_IO_CMDS, UBLK_U_IO_COMMIT_IO_CMDS, UBLK_U_IO_FETCH_IO_CMDS]"

definition legacy_commands :: "u32 list" where
  "legacy_commands =
     [UBLK_CMD_GET_QUEUE_AFFINITY, UBLK_CMD_GET_DEV_INFO, UBLK_CMD_ADD_DEV, UBLK_CMD_DEL_DEV,
      UBLK_CMD_START_DEV, UBLK_CMD_STOP_DEV, UBLK_CMD_SET_PARAMS, UBLK_CMD_GET_PARAMS,
      UBLK_CMD_START_USER_RECOVERY, UBLK_CMD_END_USER_RECOVERY, UBLK_CMD_GET_DEV_INFO2,
      UBLK_IO_FETCH_REQ, UBLK_IO_COMMIT_AND_FETCH_REQ, UBLK_IO_NEED_GET_DATA]"

lemmas command_numbers = IOR_def IOWR_def IOC_def

lemmas command_lists = control_commands_def io_commands_def batch_commands_def legacy_commands_def

text \<open>
  Every command of the header is well formed: it has the type character \<^verbatim>\<open>u\<close>, it names a
  transfer direction, the argument size it carries is the size of the struct it is defined with,
  control commands are numbered below 0x20 and I/O commands from there on, no two commands share
  their number, so that the number alone identifies the command, and no encoded command is a
  legacy number.
\<close>

theorem commands_well_formed:
  "distinct (map IOC_NR (control_commands @ io_commands @ batch_commands)) \<and>
   list_all (\<lambda>c. IOC_TYPE c = of_nat (of_char (CHR ''u'')) \<and> IOC_DIR c \<in> {2, 3} \<and> c \<notin> set legacy_commands)
     (control_commands @ io_commands @ batch_commands) \<and>
   list_all (\<lambda>c. IOC_SIZE c = sizeof_ublksrv_ctrl_cmd \<and> IOC_NR c < 0x20) control_commands \<and>
   list_all (\<lambda>c. IOC_SIZE c = sizeof_ublksrv_io_cmd \<and> 0x20 \<le> IOC_NR c \<and> IOC_DIR c = 3) io_commands \<and>
   list_all (\<lambda>c. IOC_SIZE c = sizeof_ublk_batch_io \<and> 0x20 \<le> IOC_NR c \<and> IOC_DIR c = 3) batch_commands"
  by (simp add: command_lists consts_simps command_numbers IOC_NR_def IOC_TYPE_def IOC_DIR_def IOC_SIZE_def)

end
