(* ===== verification/Ublk_Utils.thy ===== *)
theory Ublk_Utils
  imports Ublk_Cmd
begin

text \<open>
  The helpers of \<^verbatim>\<open>detail/utils.hpp\<close> (alignment, deferred clean-up), the device paths of
  \<^verbatim>\<open>detail/path.hpp\<close> and the size rule of \<^verbatim>\<open>RuntimeOptions::build\<close> in \<^verbatim>\<open>runtime.hpp\<close>.
\<close>

section \<open>Deferred clean-up\<close>

text \<open>
  \<^verbatim>\<open>auto d = defer(f)\<close> runs \<open>f\<close> when the scope is left, on every channel. The clean-up
  functions are \<open>noexcept\<close>, so they only change the world.
\<close>

definition run_deferred :: "('w \<Rightarrow> 'w) \<Rightarrow> ('w, 'e, 'a) sender \<Rightarrow> ('w, 'e, 'a) sender" where
  "run_deferred f s = (\<lambda>w. case s w of (r, w') \<Rightarrow> (r, f w'))"

lemma defer_outcome [simp]: "fst (run_deferred f s w) = fst (s w)"
  and defer_world [simp]: "snd (run_deferred f s w) = f (snd (s w))"
  by (simp_all add: run_deferred_def split: prod.splits)

section \<open>Alignment\<close>

text \<open>\<open>None\<close> is the failure of the assertion that the alignment is a power of two.\<close>

definition align_up :: "u64 \<Rightarrow> u64 \<Rightarrow> u64 option" where
  "align_up v alignment =
     (if alignment > 0 \<and> alignment AND (alignment - 1) = 0
      then Some ((v + alignment - 1) AND NOT (alignment - 1)) else None)"

lemma and_not_mask_unat: "unat ((x::'a::len word) AND NOT (mask k)) = unat x div 2 ^ k * 2 ^ k"
proof -
  have "x AND NOT (mask k) = push_bit k (drop_bit k x)"
    by (rule bit_word_eqI) (auto simp: bit_simps)
  then have "unat (x AND NOT (mask k)) = take_bit LENGTH('a) (unat x div 2 ^ k * 2 ^ k)"
    by (metis drop_bit_eq_div push_bit_eq_mult unsigned_drop_bit_eq unsigned_push_bit_eq
        take_bit_nat_eq_self unsigned_less)
  also have "unat x div 2 ^ k * 2 ^ k < 2 ^ LENGTH('a)"
    using unsigned_less [of x] by (rule le_less_trans [OF div_times_less_eq_dividend])
  ultimately show ?thesis by (simp add: take_bit_nat_eq_self)
qed

lemma align_up_pow2:
  assumes "k < 64"
  shows "align_up v (push_bit k 1) = Some ((v + push_bit k 1 - 1) AND NOT (mask k))"
proof -
  have "(2::u64) ^ k AND 2 ^ k - 1 = take_bit k (2 ^ k)"
    by (simp add: take_bit_eq_mask mask_eq_exp_minus_1)
  also have "\<dots> = 0" by (rule bit_word_eqI) (auto simp: bit_simps)
  finally show ?thesis
    using assms by (simp add: align_up_def mask_eq_exp_minus_1 word_gt_0)
qed

lemma align_up_round:
  assumes "k < 64" and "unat v + 2 ^ k \<le> 2 ^ 64"
  shows "\<exists>r. align_up v (push_bit k 1) = Some r \<and> unat r = round_up (unat v) (2 ^ k)"
proof -
  let ?x = "v + push_bit k 1 - 1"
  have "unat ?x = unat v + 2 ^ k - 1"
  proof -
    have "1 \<le> unat v + 2 ^ k" by (simp add: add_increasing)
    then have "?x = word_of_nat (unat v + 2 ^ k - 1)" by (subst of_nat_diff) simp_all
    moreover have "unat v + 2 ^ k - 1 < 2 ^ 64" using assms(2) by simp
    ultimately show ?thesis by (simp add: unsigned_of_nat take_bit_nat_eq_self)
  qed
  then have "unat (?x AND NOT (mask k)) = round_up (unat v) (2 ^ k)"
    by (simp add: and_not_mask_unat round_up_def)
  then show ?thesis using align_up_pow2 [OF assms(1)] by simp
qed

text \<open>
  For every power-of-two alignment, \<^verbatim>\<open>align_up\<close> returns the least multiple of the alignment
  that is not below the value, as long as that multiple fits into 64 bits.
\<close>

theorem align_up_least_multiple:
  assumes "k < 64" and "unat v + 2 ^ k \<le> 2 ^ 64"
  shows "\<exists>r. align_up v (push_bit k 1) = Some r \<and> 2 ^ k dvd unat r \<and>
    unat v \<le> unat r \<and> unat r < unat v + 2 ^ k"
  using align_up_round [OF assms] round_up_bounds [of "2 ^ k" "unat v"] by auto

theorem align_up_least_multiple_witness:
  "\<exists>r. align_up 5000 (push_bit 12 1) = Some r \<and> 2 ^ 12 dvd unat r \<and>
    unat (5000 :: u64) \<le> unat r \<and> unat r < unat (5000 :: u64) + 2 ^ 12"
  by (rule align_up_least_multiple) simp_all

section \<open>Device paths\<close>

text \<open>\<^verbatim>\<open>std::format("{}", n)\<close> on an unsigned integer: its decimal digits.\<close>

fun dec_str :: "nat \<Rightarrow> string" where
  "dec_str n = (if n < 10 then [char_of (48 + n)] else dec_str (n div 10) @ [char_of (48 + n mod 10)])"

declare dec_str.simps [simp del]

definition dev_path :: "u32 \<Rightarrow> string" where
  "dev_path dev_id = ''/dev/ublkc'' @ dec_str (unat dev_id)"

definition DEV_PATH_LEN :: nat where [consts_simps]:
  "DEV_PATH_LEN = 32"

text \<open>
  \<^verbatim>\<open>fill_dev_path\<close> writes at most \<open>size - 1\<close> characters and a terminating zero byte into
  \<open>data\<close>; the bytes behind keep their value. The buffer is a list, so its length is \<open>size\<close>;
  \<open>None\<close> is the failure of the assertion \<open>size > 0\<close>.
\<close>

definition fill_dev_path :: "string \<Rightarrow> u32 \<Rightarrow> string option" where
  "fill_dev_path data dev_id =
     (if length data > 0
      then let out = take (length data - 1) (dev_path dev_id)
           in Some (out @ CHR 0x00 # drop (Suc (length out)) data)
      else None)"

text \<open>The C string in a buffer: the characters up to the first zero byte.\<close>

definition c_str :: "string \<Rightarrow> string" where
  "c_str data = takeWhile (\<lambda>c. c \<noteq> CHR 0x00) data"

definition digit_val :: "char \<Rightarrow> nat" where
  "digit_val c = of_char c - 48"

definition parse_dec :: "string \<Rightarrow> nat" where
  "parse_dec s = foldl (\<lambda>n c. n * 10 + digit_val c) 0 s"

lemma digit_val_char_of: "d < 10 \<Longrightarrow> digit_val (char_of (48 + d)) = d"
  by (simp add: digit_val_def)

lemma parse_dec_str: "parse_dec (dec_str n) = n"
proof (induction n rule: dec_str.induct)
  case (1 n)
  then show ?case
    by (cases "n < 10") (simp_all add: dec_str.simps [of n] parse_dec_def digit_val_char_of)
qed

lemma dec_str_inj: "dec_str m = dec_str n \<longleftrightarrow> m = n"
  by (metis parse_dec_str)

lemma dec_str_length: "n < 10 ^ k \<Longrightarrow> 0 < k \<Longrightarrow> length (dec_str n) \<le> k"
proof (induction n arbitrary: k rule: dec_str.induct)
  case (1 n)
  show ?case
  proof (cases "n < 10")
    case True
    then show ?thesis using "1.prems" by (simp add: dec_str.simps [of n])
  next
    case False
    then obtain j where j: "k = Suc j" "0 < j"
      using "1.prems" by (cases k; cases "k - 1") auto
    then have "n div 10 < 10 ^ j" using "1.prems" by (simp add: div_less_iff_less_mult mult.commute)
    then show ?thesis
      using "1.IH" [OF False, of j] False j by (simp add: dec_str.simps [of n])
  qed
qed

lemma dec_str_no_nul: "c \<in> set (dec_str n) \<Longrightarrow> c \<noteq> CHR 0x00"
proof (induction n rule: dec_str.induct)
  case (1 n)
  have nz: "char_of (48 + d) \<noteq> CHR 0x00" if "d < 10" for d :: nat
  proof
    assume "char_of (48 + d) = CHR 0x00"
    then have "of_char (char_of (48 + d) :: char) = (of_char CHR 0x00 :: nat)"
      by simp
    then show False using that by simp
  qed
  from 1 show ?case
    by (cases "n < 10") (auto simp: dec_str.simps [of n] nz nz [symmetric])
qed

lemma dev_path_length: "length (dev_path dev_id) \<le> 20"
proof -
  have "unat dev_id < 2 ^ 32" using unsigned_less [of dev_id] by simp
  then have "length (dec_str (unat dev_id)) \<le> 10"
    by (intro dec_str_length) auto
  then show ?thesis by (simp add: dev_path_def)
qed

lemma dev_path_no_nul: "c \<in> set (dev_path dev_id) \<Longrightarrow> c \<noteq> CHR 0x00"
  by (auto simp: dev_path_def dest: dec_str_no_nul)

lemma dev_path_inj: "dev_path a = dev_path b \<longleftrightarrow> a = b"
  by (simp add: dev_path_def dec_str_inj word_unat_eq_iff)

lemma c_str_append_nul: "(\<And>c. c \<in> set s \<Longrightarrow> c \<noteq> CHR 0x00) \<Longrightarrow> c_str (s @ CHR 0x00 # t) = s"
  by (simp add: c_str_def takeWhile_append)

lemma fill_dev_path_eq:
  assumes "length data = DEV_PATH_LEN"
  shows "fill_dev_path data dev_id =
    Some (dev_path dev_id @ CHR 0x00 # drop (Suc (length (dev_path dev_id))) data)"
proof -
  have "length (dev_path dev_id) \<le> length data - 1" and "0 < length data"
    using assms dev_path_length [of dev_id] by (auto simp: DEV_PATH_LEN_def)
  then show ?thesis by (simp add: fill_dev_path_def Let_def)
qed

text \<open>
  A device path written into a \<^verbatim>\<open>DEV_PATH_LEN\<close> buffer is never truncated, whatever the 32-bit
  device id: the C string read back is \<^verbatim>\<open>/dev/ublkc<id>\<close>, the buffer keeps its size, and two
  devices never get the same path.
\<close>

theorem fill_dev_path_complete:
  assumes "length data = DEV_PATH_LEN"
  shows "\<exists>data'. fill_dev_path data dev_id = Some data' \<and> length data' = DEV_PATH_LEN \<and>
    c_str data' = dev_path dev_id \<and>
    (\<forall>other. dev_path other = c_str data' \<longleftrightarrow> other = dev_id)"
proof -
  let ?d = "dev_path dev_id @ CHR 0x00 # drop (Suc (length (dev_path dev_id))) data"
  have "c_str ?d = dev_path dev_id"
    by (rule c_str_append_nul) (rule dev_path_no_nul)
  moreover have "length ?d = DEV_PATH_LEN"
    using dev_path_length [of dev_id] assms by (simp add: DEV_PATH_LEN_def)
  ultimately show ?thesis by (simp add: dev_path_inj fill_dev_path_eq [OF assms])
qed

theorem fill_dev_path_complete_witness:
  "\<exists>data'. fill_dev_path (replicate 32 CHR ''x'') 4294967295 = Some data' \<and>
    length data' = DEV_PATH_LEN \<and> c_str data' = dev_path 4294967295 \<and>
    (\<forall>other. dev_path other = c_str data' \<longleftrightarrow> other = 4294967295)"
  by (rule fill_dev_path_complete) (simp add: DEV_PATH_LEN_def)

section \<open>Ring sizes\<close>

text \<open>
  \<^verbatim>\<open>RuntimeOptions::build\<close>: the submission and completion queue sizes requested from the
  runtime. The other options are copied unchanged.
\<close>

record runtime_options =
  requested_sq_size :: u64
  requested_cq_size :: u64

definition sq_size :: "u64 \<Rightarrow> runtime_options \<Rightarrow> runtime_options" where
  "sq_size v o' = o'\<lparr>requested_sq_size := v\<rparr>"

definition cq_size :: "u64 \<Rightarrow> runtime_options \<Rightarrow> runtime_options" where
  "cq_size v o' = o'\<lparr>requested_cq_size := v\<rparr>"

definition build_options :: "runtime_options \<Rightarrow> u64 \<Rightarrow> u64 \<times> u64" where
  "build_options o' default_sq_size =
     (max (requested_sq_size o') default_sq_size, max (requested_cq_size o') (default_sq_size * 2))"

definition default_options :: runtime_options where
  "default_options = \<lparr>requested_sq_size = 0, requested_cq_size = 0\<rparr>"

end
