(* ===== verification/Ublk_Raw.thy ===== *)
theory Ublk_Raw
  imports Ublk_Utils
begin

text \<open>
  The command constructors of \<^verbatim>\<open>include/ublk/raw.hpp\<close> and \<^verbatim>\<open>detail/raw.hpp\<close>. A control command
  is a sender over a kernel parameter: submitting it returns the completion of the
  \<open>io_uring\<close> command and the contents of the buffer afterwards. An I/O command is the submission
  queue entry handed to the ring; its completion is an input of the queue models. The overload
  with an explicit device path or \<^verbatim>\<open>sqe->addr\<close> keeps the C++ name, the short overload ends in
  \<open>0\<close>.
\<close>

section \<open>The kernel as a parameter\<close>

record ctrl_sqe =
  sqe_cmd_op :: u32
  sqe_fd :: int
  sqe_cmd :: ublksrv_ctrl_cmd

type_synonym timespec = "int \<times> int"

text \<open>
  \<open>k_ctrl\<close> is \<^verbatim>\<open>condy::async_uring_cmd\<close> (or its 128-byte variant) on the control device and
  \<open>k_timeout\<close> is \<^verbatim>\<open>condy::async_timeout\<close>; both are code outside the repository and stay
  parameters of every definition that uses them.
\<close>

record 'w kernel =
  k_ctrl :: "ctrl_sqe \<Rightarrow> 'w \<Rightarrow> ((error_code, s32) outcome \<times> ctrl_payload) \<times> 'w"
  k_timeout :: "timespec \<Rightarrow> 'w \<Rightarrow> (error_code, s32) outcome \<times> 'w"

type_synonym 'w ctrl_sender = "'w \<Rightarrow> ((error_code, s32) outcome \<times> ctrl_payload) \<times> 'w"

definition ctrl_cmd ::
  "'w kernel \<Rightarrow> int \<Rightarrow> u32 \<Rightarrow> u32 \<Rightarrow> u16 \<Rightarrow> u64 \<Rightarrow> ctrl_ptr \<Rightarrow> u16 \<Rightarrow> u16 \<Rightarrow> 'w ctrl_sender" where
  "ctrl_cmd K fd cmd_op dev_id queue_id data0 addr len dev_path_len =
     k_ctrl K \<lparr>sqe_cmd_op = cmd_op, sqe_fd = fd,
       sqe_cmd = \<lparr>cc_dev_id = dev_id, cc_queue_id = queue_id, cc_len = len, cc_addr = addr,
         cc_data0 = data0, cc_dev_path_len = dev_path_len, cc_pad = 0, cc_reserved = 0\<rparr>\<rparr>"

text \<open>
  \<^verbatim>\<open>co_await raw::cmd(...)\<close>: the result and the buffer contents, or the error thrown as
  \<^verbatim>\<open>std::system_error\<close>. \<open>ctrl_errno\<close> is the same behind
  \<^verbatim>\<open>upon_error([](std::error_code ec) { return -ec.value(); })\<close>.
\<close>

definition ctrl_await :: "'w ctrl_sender \<Rightarrow> (s32 \<Rightarrow> ctrl_payload \<Rightarrow> ('w, 'b) task) \<Rightarrow> ('w, 'b) task" where
  "ctrl_await s k = (\<lambda>w. case s w of
      ((Value r, p), w') \<Rightarrow> k r p w'
    | ((Error ec, p), w') \<Rightarrow> (Error (SystemError ec ''''), w')
    | ((Stopped, p), w') \<Rightarrow> (Stopped, w'))"

definition ctrl_errno :: "'w ctrl_sender \<Rightarrow> (s32 \<Rightarrow> ctrl_payload \<Rightarrow> ('w, 'b) task) \<Rightarrow> ('w, 'b) task" where
  "ctrl_errno s k = (\<lambda>w. case s w of
      ((Value r, p), w') \<Rightarrow> k r p w'
    | ((Error ec, p), w') \<Rightarrow> k (- ec) p w'
    | ((Stopped, p), w') \<Rightarrow> (Stopped, w'))"

text \<open>Reading a struct back from the buffer a command wrote.\<close>

fun info_of :: "ublksrv_ctrl_dev_info \<Rightarrow> ctrl_payload \<Rightarrow> ublksrv_ctrl_dev_info" where
  "info_of _ (PInfo i) = i"
| "info_of d _ = d"

fun params_of :: "ublk_params \<Rightarrow> ctrl_payload \<Rightarrow> ublk_params" where
  "params_of _ (PParams p) = p"
| "params_of d _ = d"

fun cpuset_of :: "cpu_set_t \<Rightarrow> ctrl_payload \<Rightarrow> cpu_set_t" where
  "cpuset_of _ (PCpuset c) = c"
| "cpuset_of d _ = d"

fun features_of :: "u64 \<Rightarrow> ctrl_payload \<Rightarrow> u64" where
  "features_of _ (PFeatures f) = f"
| "features_of d _ = d"

text \<open>Size of \<^verbatim>\<open>cpu_set_t\<close> and of \<^verbatim>\<open>DevPathBuf<T>\<close>, a path in front of a payload.\<close>

definition sizeof_cpu_set_t :: nat where
  "sizeof_cpu_set_t = fst (c_struct [c_array 16 c_u64])"

definition sizeof_DevPathBuf :: "nat \<Rightarrow> nat" where
  "sizeof_DevPathBuf payload = fst (c_struct [c_array DEV_PATH_LEN c_u8, (payload, 8)])"

lemma sizeof_buf_values [consts_simps]:
  "sizeof_cpu_set_t = 128"
  "sizeof_DevPathBuf 64 = 96"
  "sizeof_DevPathBuf 152 = 184"
  "sizeof_DevPathBuf 128 = 160"
  "sizeof_DevPathBuf 24 = 56"
  by code_simp+

section \<open>Control commands\<close>

definition raw_get_queue_affinity :: "'w kernel \<Rightarrow> int \<Rightarrow> u32 \<Rightarrow> u16 \<Rightarrow> ctrl_ptr \<Rightarrow> u16 \<Rightarrow> u16 \<Rightarrow> 'w ctrl_sender" where [raw_simps]:
  "raw_get_queue_affinity K fd dev_id q_id data sz dev_path_len =
     ctrl_cmd K fd UBLK_U_CMD_GET_QUEUE_AFFINITY dev_id q_id (ucast q_id) data sz dev_path_len"

definition raw_get_queue_affinity0 :: "'w kernel \<Rightarrow> int \<Rightarrow> u32 \<Rightarrow> u16 \<Rightarrow> cpu_set_t \<Rightarrow> 'w ctrl_sender" where [raw_simps]:
  "raw_get_queue_affinity0 K fd dev_id q_id cpuset =
     raw_get_queue_affinity K fd dev_id q_id (PayloadPtr (PCpuset cpuset)) (of_nat sizeof_cpu_set_t) 0"

definition raw_get_dev_info :: "'w kernel \<Rightarrow> int \<Rightarrow> u32 \<Rightarrow> ctrl_ptr \<Rightarrow> u16 \<Rightarrow> u16 \<Rightarrow> 'w ctrl_sender" where [raw_simps]:
  "raw_get_dev_info K fd dev_id data sz dev_path_len =
     ctrl_cmd K fd UBLK_U_CMD_GET_DEV_INFO dev_id (- 1) 0 data sz dev_path_len"

definition raw_get_dev_info0 :: "'w kernel \<Rightarrow> int \<Rightarrow> u32 \<Rightarrow> ublksrv_ctrl_dev_info \<Rightarrow> 'w ctrl_sender" where [raw_simps]:
  "raw_get_dev_info0 K fd dev_id info =
     raw_get_dev_info K fd dev_id (PayloadPtr (PInfo info)) (of_nat sizeof_ublksrv_ctrl_dev_info) 0"

definition raw_add_dev :: "'w kernel \<Rightarrow> int \<Rightarrow> ublksrv_ctrl_dev_info \<Rightarrow> 'w ctrl_sender" where [raw_simps]:
  "raw_add_dev K fd info =
     ctrl_cmd K fd UBLK_U_CMD_ADD_DEV (di_dev_id info) (- 1) 0 (PayloadPtr (PInfo info))
       (of_nat sizeof_ublksrv_ctrl_dev_info) 0"

definition raw_del_dev :: "'w kernel \<Rightarrow> int \<Rightarrow> u32 \<Rightarrow> ctrl_ptr \<Rightarrow> u16 \<Rightarrow> 'w ctrl_sender" where [raw_simps]:
  "raw_del_dev K fd dev_id path dev_path_len =
     ctrl_cmd K fd UBLK_U_CMD_DEL_DEV dev_id (- 1) 0 path dev_path_len dev_path_len"

definition raw_del_dev0 :: "'w kernel \<Rightarrow> int \<Rightarrow> u32 \<Rightarrow> 'w ctrl_sender" where [raw_simps]:
  "raw_del_dev0 K fd dev_id =
     raw_del_dev K fd dev_id Nullptr 0"

definition raw_start_dev :: "'w kernel \<Rightarrow> int \<Rightarrow> u32 \<Rightarrow> s32 \<Rightarrow> ctrl_ptr \<Rightarrow> u16 \<Rightarrow> 'w ctrl_sender" where [raw_simps]:
  "raw_start_dev K fd dev_id daemon_pid path dev_path_len =
     ctrl_cmd K fd UBLK_U_CMD_START_DEV dev_id (- 1) (of_int daemon_pid) path dev_path_len dev_path_len"

definition raw_start_dev0 :: "'w kernel \<Rightarrow> int \<Rightarrow> u32 \<Rightarrow> s32 \<Rightarrow> 'w ctrl_sender" where [raw_simps]:
  "raw_start_dev0 K fd dev_id daemon_pid =
     raw_start_dev K fd dev_id daemon_pid Nullptr 0"

definition raw_stop_dev :: "'w kernel \<Rightarrow> int \<Rightarrow> u32 \<Rightarrow> ctrl_ptr \<Rightarrow> u16 \<Rightarrow> 'w ctrl_sender" where [raw_simps]:
  "raw_stop_dev K fd dev_id path dev_path_len =
     ctrl_cmd K fd UBLK_U_CMD_STOP_DEV dev_id (- 1) 0 path dev_path_len dev_path_len"

definition raw_stop_dev0 :: "'w kernel \<Rightarrow> int \<Rightarrow> u32 \<Rightarrow> 'w ctrl_sender" where [raw_simps]:
  "raw_stop_dev0 K fd dev_id =
     raw_stop_dev K fd dev_id Nullptr 0"

definition raw_set_params :: "'w kernel \<Rightarrow> int \<Rightarrow> u32 \<Rightarrow> ctrl_ptr \<Rightarrow> u16 \<Rightarrow> u16 \<Rightarrow> 'w ctrl_sender" where [raw_simps]:
  "raw_set_params K fd dev_id data sz dev_path_len =
     ctrl_cmd K fd UBLK_U_CMD_SET_PARAMS dev_id (- 1) 0 data sz dev_path_len"

definition raw_set_params0 :: "'w kernel \<Rightarrow> int \<Rightarrow> u32 \<Rightarrow> ublk_params \<Rightarrow> 'w ctrl_sender" where [raw_simps]:
  "raw_set_params0 K fd dev_id params =
     raw_set_params K fd dev_id (PayloadPtr (PParams params)) (of_nat sizeof_ublk_params) 0"

definition raw_get_params :: "'w kernel \<Rightarrow> int \<Rightarrow> u32 \<Rightarrow> ctrl_ptr \<Rightarrow> u16 \<Rightarrow> u16 \<Rightarrow> 'w ctrl_sender" where [raw_simps]:
  "raw_get_params K fd dev_id data sz dev_path_len =
     ctrl_cmd K fd UBLK_U_CMD_GET_PARAMS dev_id (- 1) 0 data sz dev_path_len"

definition raw_get_params0 :: "'w kernel \<Rightarrow> int \<Rightarrow> u32 \<Rightarrow> ublk_params \<Rightarrow> 'w ctrl_sender" where [raw_simps]:
  "raw_get_params0 K fd dev_id params =
     raw_get_params K fd dev_id (PayloadPtr (PParams params)) (of_nat sizeof_ublk_params) 0"

definition raw_start_user_recovery :: "'w kernel \<Rightarrow> int \<Rightarrow> u32 \<Rightarrow> ctrl_ptr \<Rightarrow> u16 \<Rightarrow> 'w ctrl_sender" where [raw_simps]:
  "raw_start_user_recovery K fd dev_id path dev_path_len =
     ctrl_cmd K fd UBLK_U_CMD_START_USER_RECOVERY dev_id (- 1) 0 path dev_path_len dev_path_len"

definition raw_start_user_recovery0 :: "'w kernel \<Rightarrow> int \<Rightarrow> u32 \<Rightarrow> 'w ctrl_sender" where [raw_simps]:
  "raw_start_user_recovery0 K fd dev_id =
     raw_start_user_recovery K fd dev_id Nullptr 0"

definition raw_end_user_recovery :: "'w kernel \<Rightarrow> int \<Rightarrow> u32 \<Rightarrow> s32 \<Rightarrow> ctrl_ptr \<Rightarrow> u16 \<Rightarrow> 'w ctrl_sender" where [raw_simps]:
  "raw_end_user_recovery K fd dev_id daemon_pid path dev_path_len =
     ctrl_cmd K fd UBLK_U_CMD_END_USER_RECOVERY dev_id (- 1) (of_int daemon_pid) path dev_path_len dev_path_len"

definition raw_end_user_recovery0 :: "'w kernel \<Rightarrow> int \<Rightarrow> u32 \<Rightarrow> s32 \<Rightarrow> 'w ctrl_sender" where [raw_simps]:
  "raw_end_user_recovery0 K fd dev_id daemon_pid =
     raw_end_user_recovery K fd dev_id daemon_pid Nullptr 0"

definition raw_get_dev_info2 :: "'w kernel \<Rightarrow> int \<Rightarrow> u32 \<Rightarrow> ctrl_ptr \<Rightarrow> u16 \<Rightarrow> u16 \<Rightarrow> 'w ctrl_sender" where [raw_simps]:
  "raw_get_dev_info2 K fd dev_id data sz dev_path_len =
     ctrl_cmd K fd UBLK_U_CMD_GET_DEV_INFO2 dev_id (- 1) 0 data sz dev_path_len"

definition raw_get_features :: "'w kernel \<Rightarrow> int \<Rightarrow> u64 \<Rightarrow> 'w ctrl_sender" where [raw_simps]:
  "raw_get_features K fd features =
     ctrl_cmd K fd UBLK_U_CMD_GET_FEATURES (- 1) (- 1) 0 (PayloadPtr (PFeatures features))
       (of_nat UBLK_FEATURES_LEN) 0"

definition raw_del_dev_async :: "'w kernel \<Rightarrow> int \<Rightarrow> u32 \<Rightarrow> ctrl_ptr \<Rightarrow> u16 \<Rightarrow> 'w ctrl_sender" where [raw_simps]:
  "raw_del_dev_async K fd dev_id path dev_path_len =
     ctrl_cmd K fd UBLK_U_CMD_DEL_DEV_ASYNC dev_id (- 1) 0 path dev_path_len dev_path_len"

definition raw_del_dev_async0 :: "'w kernel \<Rightarrow> int \<Rightarrow> u32 \<Rightarrow> 'w ctrl_sender" where [raw_simps]:
  "raw_del_dev_async0 K fd dev_id =
     raw_del_dev_async K fd dev_id Nullptr 0"

definition raw_update_size :: "'w kernel \<Rightarrow> int \<Rightarrow> u32 \<Rightarrow> u64 \<Rightarrow> ctrl_ptr \<Rightarrow> u16 \<Rightarrow> 'w ctrl_sender" where [raw_simps]:
  "raw_update_size K fd dev_id sectors path dev_path_len =
     ctrl_cmd K fd UBLK_U_CMD_UPDATE_SIZE dev_id (- 1) sectors path dev_path_len dev_path_len"

definition raw_update_size0 :: "'w kernel \<Rightarrow> int \<Rightarrow> u32 \<Rightarrow> u64 \<Rightarrow> 'w ctrl_sender" where [raw_simps]:
  "raw_update_size0 K fd dev_id sectors =
     raw_update_size K fd dev_id sectors Nullptr 0"

definition raw_quiesce_dev :: "'w kernel \<Rightarrow> int \<Rightarrow> u32 \<Rightarrow> u64 \<Rightarrow> ctrl_ptr \<Rightarrow> u16 \<Rightarrow> 'w ctrl_sender" where [raw_simps]:
  "raw_quiesce_dev K fd dev_id timeout_ms path dev_path_len =
     ctrl_cmd K fd UBLK_U_CMD_QUIESCE_DEV dev_id (- 1) timeout_ms path dev_path_len dev_path_len"

definition raw_quiesce_dev0 :: "'w kernel \<Rightarrow> int \<Rightarrow> u32 \<Rightarrow> u64 \<Rightarrow> 'w ctrl_sender" where [raw_simps]:
  "raw_quiesce_dev0 K fd dev_id timeout_ms =
     raw_quiesce_dev K fd dev_id timeout_ms Nullptr 0"

definition raw_try_stop_dev :: "'w kernel \<Rightarrow> int \<Rightarrow> u32 \<Rightarrow> ctrl_ptr \<Rightarrow> u16 \<Rightarrow> 'w ctrl_sender" where [raw_simps]:
  "raw_try_stop_dev K fd dev_id path dev_path_len =
     ctrl_cmd K fd UBLK_U_CMD_TRY_STOP_DEV dev_id (- 1) 0 path dev_path_len dev_path_len"

definition raw_try_stop_dev0 :: "'w kernel \<Rightarrow> int \<Rightarrow> u32 \<Rightarrow> 'w ctrl_sender" where [raw_simps]:
  "raw_try_stop_dev0 K fd dev_id =
     raw_try_stop_dev K fd dev_id Nullptr 0"

definition raw_register_shm_buf :: "'w kernel \<Rightarrow> int \<Rightarrow> u32 \<Rightarrow> ctrl_ptr \<Rightarrow> u16 \<Rightarrow> u16 \<Rightarrow> 'w ctrl_sender" where [raw_simps]:
  "raw_register_shm_buf K fd dev_id data sz dev_path_len =
     ctrl_cmd K fd UBLK_U_CMD_REG_BUF dev_id (- 1) 0 data sz dev_path_len"

definition raw_register_shm_buf0 :: "'w kernel \<Rightarrow> int \<Rightarrow> u32 \<Rightarrow> ublk_shmem_buf_reg \<Rightarrow> 'w ctrl_sender" where [raw_simps]:
  "raw_register_shm_buf0 K fd dev_id reg =
     raw_register_shm_buf K fd dev_id (PayloadPtr (PShmReg reg)) (of_nat sizeof_ublk_shmem_buf_reg) 0"

definition raw_unregister_shm_buf :: "'w kernel \<Rightarrow> int \<Rightarrow> u32 \<Rightarrow> u64 \<Rightarrow> ctrl_ptr \<Rightarrow> u16 \<Rightarrow> 'w ctrl_sender" where [raw_simps]:
  "raw_unregister_shm_buf K fd dev_id buf_index path dev_path_len =
     ctrl_cmd K fd UBLK_U_CMD_UNREG_BUF dev_id (- 1) buf_index path dev_path_len dev_path_len"

definition raw_unregister_shm_buf0 :: "'w kernel \<Rightarrow> int \<Rightarrow> u32 \<Rightarrow> u64 \<Rightarrow> 'w ctrl_sender" where [raw_simps]:
  "raw_unregister_shm_buf0 K fd dev_id buf_index =
     raw_unregister_shm_buf K fd dev_id buf_index Nullptr 0"

section \<open>I/O commands\<close>

text \<open>A descriptor is a plain one or an index into the ring's file table, \<^verbatim>\<open>condy::fixed\<close>.\<close>

datatype uring_fd = RawFd int | FixedFd int

record io_sqe =
  io_op :: u32
  io_fd :: uring_fd
  io_command :: ublksrv_io_cmd
  io_sqe_addr :: u64

definition io_cmd :: "uring_fd \<Rightarrow> u32 \<Rightarrow> u16 \<Rightarrow> u16 \<Rightarrow> s32 \<Rightarrow> u64 \<Rightarrow> u64 \<Rightarrow> io_sqe" where [raw_simps]:
  "io_cmd fd cmd_op q_id tag result addr sqe_addr =
     \<lparr>io_op = cmd_op, io_fd = fd,
      io_command = \<lparr>ic_q_id = q_id, ic_tag = tag, ic_result = result, ic_addr = addr\<rparr>,
      io_sqe_addr = sqe_addr\<rparr>"

definition raw_fetch_req :: "uring_fd \<Rightarrow> u16 \<Rightarrow> u16 \<Rightarrow> u64 \<Rightarrow> u64 \<Rightarrow> io_sqe" where [raw_simps]:
  "raw_fetch_req fd q_id tag buf_addr sqe_addr =
     io_cmd fd UBLK_U_IO_FETCH_REQ q_id tag 0 buf_addr sqe_addr"

definition raw_fetch_req0 :: "uring_fd \<Rightarrow> u16 \<Rightarrow> u16 \<Rightarrow> u64 \<Rightarrow> io_sqe" where [raw_simps]:
  "raw_fetch_req0 fd q_id tag buf_addr =
     raw_fetch_req fd q_id tag buf_addr 0"

definition raw_commit_and_fetch_req :: "uring_fd \<Rightarrow> u16 \<Rightarrow> u16 \<Rightarrow> s32 \<Rightarrow> u64 \<Rightarrow> u64 \<Rightarrow> io_sqe" where [raw_simps]:
  "raw_commit_and_fetch_req fd q_id tag result buf_addr sqe_addr =
     io_cmd fd UBLK_U_IO_COMMIT_AND_FETCH_REQ q_id tag result buf_addr sqe_addr"

definition raw_commit_and_fetch_req0 :: "uring_fd \<Rightarrow> u16 \<Rightarrow> u16 \<Rightarrow> s32 \<Rightarrow> u64 \<Rightarrow> io_sqe" where [raw_simps]:
  "raw_commit_and_fetch_req0 fd q_id tag result buf_addr =
     raw_commit_and_fetch_req fd q_id tag result buf_addr 0"

definition raw_need_get_data :: "uring_fd \<Rightarrow> u16 \<Rightarrow> u16 \<Rightarrow> u64 \<Rightarrow> io_sqe" where [raw_simps]:
  "raw_need_get_data fd q_id tag buf_addr =
     io_cmd fd UBLK_U_IO_NEED_GET_DATA q_id tag 0 buf_addr 0"

definition raw_register_io_buf :: "uring_fd \<Rightarrow> u16 \<Rightarrow> u16 \<Rightarrow> u64 \<Rightarrow> io_sqe" where [raw_simps]:
  "raw_register_io_buf fd q_id tag buf_index =
     io_cmd fd UBLK_U_IO_REGISTER_IO_BUF q_id tag 0 buf_index 0"

definition raw_unregister_io_buf :: "uring_fd \<Rightarrow> u16 \<Rightarrow> u16 \<Rightarrow> u64 \<Rightarrow> io_sqe" where [raw_simps]:
  "raw_unregister_io_buf fd q_id tag buf_index =
     io_cmd fd UBLK_U_IO_UNREGISTER_IO_BUF q_id tag 0 buf_index 0"

section \<open>Batch commands\<close>

text \<open>
  \<open>'p\<close> is the pointer to the batch buffer; the queue model instantiates it with an offset into
  its commit memory.
\<close>

record 'p batch_sqe =
  bs_op :: u32
  bs_fd :: uring_fd
  bs_command :: ublk_batch_io
  bs_addr :: 'p
  bs_len :: u32

definition batch_io_cmd ::
  "uring_fd \<Rightarrow> u32 \<Rightarrow> u16 \<Rightarrow> u16 \<Rightarrow> u16 \<Rightarrow> u8 \<Rightarrow> 'p \<Rightarrow> u32 \<Rightarrow> 'p batch_sqe" where [raw_simps]:
  "batch_io_cmd fd cmd_op q_id flags nr_elem elem_bytes addr len =
     \<lparr>bs_op = cmd_op, bs_fd = fd,
      bs_command = \<lparr>bi_q_id = q_id, bi_flags = flags, bi_nr_elem = nr_elem,
        bi_elem_bytes = elem_bytes, bi_reserved = 0, bi_reserved2 = 0\<rparr>,
      bs_addr = addr, bs_len = len\<rparr>"

definition raw_prep_io_cmds :: "uring_fd \<Rightarrow> u16 \<Rightarrow> u16 \<Rightarrow> u16 \<Rightarrow> u8 \<Rightarrow> 'p \<Rightarrow> u32 \<Rightarrow> 'p batch_sqe" where [raw_simps]:
  "raw_prep_io_cmds fd q_id flags nr_elem elem_bytes elems elems_len =
     batch_io_cmd fd UBLK_U_IO_PREP_IO_CMDS q_id flags nr_elem elem_bytes elems elems_len"

definition raw_commit_io_cmds :: "uring_fd \<Rightarrow> u16 \<Rightarrow> u16 \<Rightarrow> u16 \<Rightarrow> u8 \<Rightarrow> 'p \<Rightarrow> u32 \<Rightarrow> 'p batch_sqe" where [raw_simps]:
  "raw_commit_io_cmds fd q_id flags nr_elem elem_bytes elems elems_len =
     batch_io_cmd fd UBLK_U_IO_COMMIT_IO_CMDS q_id flags nr_elem elem_bytes elems elems_len"

text \<open>
  The multishot fetch selects its buffers from a provided buffer group instead of an address.
\<close>

record fetch_sqe =
  fs_op :: u32
  fs_fd :: uring_fd
  fs_command :: ublk_batch_io
  fs_buffer_select :: bool
  fs_multishot :: bool
  fs_buf_group :: u16

definition raw_fetch_io_cmds :: "uring_fd \<Rightarrow> u16 \<Rightarrow> u16 \<Rightarrow> fetch_sqe" where [raw_simps]:
  "raw_fetch_io_cmds fd bgid q_id =
     \<lparr>fs_op = UBLK_U_IO_FETCH_IO_CMDS, fs_fd = fd,
      fs_command = \<lparr>bi_q_id = q_id, bi_flags = 0, bi_nr_elem = 0, bi_elem_bytes = 2,
        bi_reserved = 0, bi_reserved2 = 0\<rparr>,
      fs_buffer_select = True, fs_multishot = True, fs_buf_group = bgid\<rparr>"

end
