(* ===== verification/Ublk_Control.thy ===== *)
theory Ublk_Control
  imports Ublk_Raw "HOL-Library.Signed_Division"
begin

text \<open>
  The control plane: the environment query of \<^verbatim>\<open>query.hpp\<close> and \<^verbatim>\<open>detail/task.hpp\<close>, the retry
  loop of \<^verbatim>\<open>detail/retry.hpp\<close> and the control operations of \<^verbatim>\<open>detail/control.hpp\<close> and
  \<^verbatim>\<open>control.hpp\<close>, as tasks over the kernel parameter. An out-pointer of the C++ is an argument
  (the object before) and part of the value (the object after).
\<close>

section \<open>Environment query\<close>

text \<open>
  An environment either does not answer \<^verbatim>\<open>fetch_dev_info\<close> or answers with a pointer, possibly
  null.
\<close>

datatype env = NoQuery | WithInfo "ublksrv_ctrl_dev_info option"

fun fetch_dev_info :: "env \<Rightarrow> ublksrv_ctrl_dev_info option" where
  "fetch_dev_info (WithInfo p) = p"
| "fetch_dev_info NoQuery = None"

text \<open>A task's own environment, built from the receiver's.\<close>

fun TaskEnv :: "env \<Rightarrow> env" where
  "TaskEnv (WithInfo p) = WithInfo p"
| "TaskEnv NoQuery = WithInfo None"

definition task_invoke :: "(env \<Rightarrow> ('w, 'a) task) \<Rightarrow> env \<Rightarrow> ('w, 'a) task" where
  "task_invoke task_fn env = task_fn (TaskEnv env)"

lemma fetch_dev_info_TaskEnv [simp]: "fetch_dev_info (TaskEnv env) = fetch_dev_info env"
  by (cases env) simp_all

section \<open>Retry\<close>

text \<open>
  \<open>fn\<close> captures local variables by reference: they are its state \<open>'s\<close>. The sleep between two
  attempts normally ends with an error code, which is ignored; a stopped sleep stops the task.
\<close>

fun retry_loop :: "'w kernel \<Rightarrow> ('s \<Rightarrow> ('w, bool \<times> 's) task) \<Rightarrow> timespec \<Rightarrow> nat \<Rightarrow> 's \<Rightarrow> ('w, bool \<times> 's) task" where
  "retry_loop K fn ts 0 s = co_return (False, s)"
| "retry_loop K fn ts (Suc n) s =
     await (upon_error (k_timeout K ts) uminus) (\<lambda>_.
     await (fn s) (\<lambda>(ok, s'). if ok then co_return (ok, s') else retry_loop K fn ts n s'))"

definition retry :: "'w kernel \<Rightarrow> ('s \<Rightarrow> ('w, bool \<times> 's) task) \<Rightarrow> nat \<Rightarrow> int \<Rightarrow> 's \<Rightarrow> ('w, bool \<times> 's) task" where
  "retry K fn max_retry sleep_ms s =
     await (fn s) (\<lambda>(ok, s').
       if ok then co_return (True, s')
       else retry_loop K fn (sleep_ms sdiv 1000, (sleep_ms smod 1000) * 1000000) max_retry s')"

section \<open>Device information\<close>

definition zero_info :: ublksrv_ctrl_dev_info where
  "zero_info = \<lparr>di_nr_hw_queues = 0, di_queue_depth = 0, di_state = 0, di_io_desc_size = 0,
     di_max_io_buf_bytes = 0, di_dev_id = 0, di_ublksrv_pid = 0, di_pad1 = 0, di_flags = 0,
     di_ublksrv_flags = 0, di_owner_uid = 0, di_owner_gid = 0, di_reserved1 = 0, di_reserved2 = 0\<rparr>"

definition zero_params :: ublk_params where
  "zero_params = \<lparr>pr_len = 0, pr_types = 0,
     pr_basic = \<lparr>pb_attrs = 0, pb_logical_bs_shift = 0, pb_physical_bs_shift = 0, pb_io_opt_shift = 0,
       pb_io_min_shift = 0, pb_max_sectors = 0, pb_chunk_sectors = 0, pb_dev_sectors = 0,
       pb_virt_boundary_mask = 0\<rparr>,
     pr_discard = \<lparr>pd_discard_alignment = 0, pd_discard_granularity = 0, pd_max_discard_sectors = 0,
       pd_max_write_zeroes_sectors = 0, pd_max_discard_segments = 0, pd_reserved0 = 0\<rparr>,
     pr_devt = \<lparr>pv_char_major = 0, pv_char_minor = 0, pv_disk_major = 0, pv_disk_minor = 0\<rparr>,
     pr_zoned = \<lparr>pz_max_open_zones = 0, pz_max_active_zones = 0, pz_max_zone_append_sectors = 0\<rparr>,
     pr_dma = \<lparr>pa_alignment = 0\<rparr>,
     pr_seg = \<lparr>ps_seg_boundary_mask = 0, ps_max_segment_size = 0, ps_max_segments = 0\<rparr>,
     pr_integrity = \<lparr>pi_flags = 0, pi_max_integrity_segments = 0, pi_interval_exp = 0,
       pi_metadata_size = 0, pi_pi_offset = 0, pi_csum_type = 0, pi_tag_size = 0\<rparr>\<rparr>"

text \<open>
  The path member of a \<^verbatim>\<open>DevPathBuf\<close> or of the local array in \<^verbatim>\<open>with_dev_path\<close>: the C string that
  \<^verbatim>\<open>fill_dev_path\<close> leaves in it. The bytes behind the terminator are indeterminate and the
  driver does not read them.
\<close>

definition path_member :: "u32 \<Rightarrow> string" where
  "path_member dev_id =
     (case fill_dev_path (replicate DEV_PATH_LEN CHR 0x00) dev_id of Some b \<Rightarrow> c_str b | None \<Rightarrow> [])"

lemma path_member_dev_path [simp]: "path_member dev_id = dev_path dev_id"
  by (simp add: path_member_def fill_dev_path_eq c_str_append_nul dev_path_no_nul)

definition DevPathBuf :: "u32 \<Rightarrow> ctrl_payload \<Rightarrow> ctrl_ptr" where
  "DevPathBuf dev_id payload = PathBufPtr (path_member dev_id) payload"

text \<open>
  The lambda passed to \<^verbatim>\<open>retry\<close>; its captured variables are the payload of \<open>buf\<close> and \<open>*info\<close>.
\<close>

definition get_dev_info_attempt ::
  "'w kernel \<Rightarrow> int \<Rightarrow> u32 \<Rightarrow> ublksrv_ctrl_dev_info \<times> ublksrv_ctrl_dev_info \<Rightarrow>
   ('w, bool \<times> ublksrv_ctrl_dev_info \<times> ublksrv_ctrl_dev_info) task" where
  "get_dev_info_attempt K fd dev_id = (\<lambda>(buf, info).
     ctrl_errno (raw_get_dev_info2 K fd dev_id (DevPathBuf dev_id (PInfo buf))
         (of_nat (sizeof_DevPathBuf sizeof_ublksrv_ctrl_dev_info)) (of_nat DEV_PATH_LEN))
       (\<lambda>r p. let buf' = info_of buf p in
          if r \<ge> 0 then co_return (True, buf', buf')
          else if r = - EACCES then co_return (False, buf', info)
          else if r = - EOPNOTSUPP then
            ctrl_await (raw_get_dev_info0 K fd dev_id info)
              (\<lambda>_ p'. co_return (True, buf', info_of info p'))
          else throw (SystemError (- r) ''get_dev_info2'')))"

definition control_get_dev_info ::
  "'w kernel \<Rightarrow> int \<Rightarrow> u32 \<Rightarrow> ublksrv_ctrl_dev_info \<Rightarrow> ('w, ublksrv_ctrl_dev_info) task" where
  "control_get_dev_info K fd dev_id info =
     await (retry K (get_dev_info_attempt K fd dev_id) 20 100 (zero_info, info)) (\<lambda>(ok, buf, info').
       if \<not> ok then throw (SystemError EACCES ''get_dev_info2'') else co_return info')"

definition cached_get_dev_info ::
  "'w kernel \<Rightarrow> env \<Rightarrow> int \<Rightarrow> u32 \<Rightarrow> ublksrv_ctrl_dev_info \<Rightarrow> ('w, ublksrv_ctrl_dev_info) task" where
  "cached_get_dev_info K env fd dev_id info =
     (case fetch_dev_info env of
        Some dev_info \<Rightarrow>
          if di_dev_id dev_info = dev_id then co_return dev_info
          else control_get_dev_info K fd dev_id info
      | None \<Rightarrow> control_get_dev_info K fd dev_id info)"

definition control_get_queue_affinity ::
  "'w kernel \<Rightarrow> env \<Rightarrow> int \<Rightarrow> u32 \<Rightarrow> u16 \<Rightarrow> cpu_set_t \<Rightarrow> ('w, cpu_set_t) task" where
  "control_get_queue_affinity K env fd dev_id q_id cpuset =
     await (cached_get_dev_info K env fd dev_id zero_info) (\<lambda>info.
       if has_flag (di_flags info) UBLK_F_UNPRIVILEGED_DEV
       then ctrl_await (raw_get_queue_affinity K fd dev_id q_id (DevPathBuf dev_id (PCpuset 0))
              (of_nat (sizeof_DevPathBuf sizeof_cpu_set_t)) (of_nat DEV_PATH_LEN))
            (\<lambda>_ p. co_return (cpuset_of 0 p))
       else ctrl_await (raw_get_queue_affinity0 K fd dev_id q_id cpuset)
            (\<lambda>_ p. co_return (cpuset_of cpuset p)))"

section \<open>Commands that carry the device path of an unprivileged device\<close>

definition with_dev_path ::
  "'w kernel \<Rightarrow> env \<Rightarrow> int \<Rightarrow> u32 \<Rightarrow> (ctrl_ptr \<Rightarrow> u16 \<Rightarrow> 'w ctrl_sender) \<Rightarrow> ('w, unit) task" where
  "with_dev_path K env fd dev_id fn =
     await (cached_get_dev_info K env fd dev_id zero_info) (\<lambda>info.
       if has_flag (di_flags info) UBLK_F_UNPRIVILEGED_DEV
       then ctrl_await (fn (PathPtr (path_member dev_id)) (of_nat DEV_PATH_LEN)) (\<lambda>_ _. co_return ())
       else ctrl_await (fn Nullptr 0) (\<lambda>_ _. co_return ()))"

definition control_del_dev :: "'w kernel \<Rightarrow> env \<Rightarrow> int \<Rightarrow> u32 \<Rightarrow> ('w, unit) task" where
  "control_del_dev K env fd dev_id = with_dev_path K env fd dev_id (raw_del_dev K fd dev_id)"

definition control_start_dev :: "'w kernel \<Rightarrow> env \<Rightarrow> int \<Rightarrow> u32 \<Rightarrow> s32 \<Rightarrow> ('w, unit) task" where
  "control_start_dev K env fd dev_id daemon_pid =
     with_dev_path K env fd dev_id (raw_start_dev K fd dev_id daemon_pid)"

definition control_stop_dev :: "'w kernel \<Rightarrow> env \<Rightarrow> int \<Rightarrow> u32 \<Rightarrow> ('w, unit) task" where
  "control_stop_dev K env fd dev_id = with_dev_path K env fd dev_id (raw_stop_dev K fd dev_id)"

definition control_set_params ::
  "'w kernel \<Rightarrow> env \<Rightarrow> int \<Rightarrow> u32 \<Rightarrow> ublk_params \<Rightarrow> ('w, unit) task" where
  "control_set_params K env fd dev_id params =
     await (cached_get_dev_info K env fd dev_id zero_info) (\<lambda>info.
       let full = params\<lparr>pr_len := of_nat sizeof_ublk_params\<rparr> in
       if has_flag (di_flags info) UBLK_F_UNPRIVILEGED_DEV
       then ctrl_await (raw_set_params K fd dev_id (DevPathBuf dev_id (PParams full))
              (of_nat (sizeof_DevPathBuf sizeof_ublk_params)) (of_nat DEV_PATH_LEN))
            (\<lambda>_ _. co_return ())
       else ctrl_await (raw_set_params0 K fd dev_id full) (\<lambda>_ _. co_return ()))"

definition control_get_params ::
  "'w kernel \<Rightarrow> env \<Rightarrow> int \<Rightarrow> u32 \<Rightarrow> ublk_params \<Rightarrow> ('w, ublk_params) task" where
  "control_get_params K env fd dev_id params =
     await (cached_get_dev_info K env fd dev_id zero_info) (\<lambda>info.
       let params' = params\<lparr>pr_len := of_nat sizeof_ublk_params\<rparr>;
           buf = zero_params\<lparr>pr_len := of_nat sizeof_ublk_params\<rparr> in
       if has_flag (di_flags info) UBLK_F_UNPRIVILEGED_DEV
       then ctrl_await (raw_get_params K fd dev_id (DevPathBuf dev_id (PParams buf))
              (of_nat (sizeof_DevPathBuf sizeof_ublk_params)) (of_nat DEV_PATH_LEN))
            (\<lambda>_ p. co_return (params_of buf p))
       else ctrl_await (raw_get_params0 K fd dev_id params') (\<lambda>_ p. co_return (params_of params' p)))"

definition control_start_user_recovery :: "'w kernel \<Rightarrow> env \<Rightarrow> int \<Rightarrow> u32 \<Rightarrow> ('w, unit) task" where
  "control_start_user_recovery K env fd dev_id =
     with_dev_path K env fd dev_id (raw_start_user_recovery K fd dev_id)"

definition control_end_user_recovery :: "'w kernel \<Rightarrow> env \<Rightarrow> int \<Rightarrow> u32 \<Rightarrow> s32 \<Rightarrow> ('w, unit) task" where
  "control_end_user_recovery K env fd dev_id daemon_pid =
     with_dev_path K env fd dev_id (raw_end_user_recovery K fd dev_id daemon_pid)"

definition control_del_dev_async :: "'w kernel \<Rightarrow> env \<Rightarrow> int \<Rightarrow> u32 \<Rightarrow> ('w, unit) task" where
  "control_del_dev_async K env fd dev_id =
     with_dev_path K env fd dev_id (raw_del_dev_async K fd dev_id)"

definition control_update_size :: "'w kernel \<Rightarrow> env \<Rightarrow> int \<Rightarrow> u32 \<Rightarrow> u64 \<Rightarrow> ('w, unit) task" where
  "control_update_size K env fd dev_id sectors =
     with_dev_path K env fd dev_id (raw_update_size K fd dev_id sectors)"

definition control_quiesce_dev :: "'w kernel \<Rightarrow> env \<Rightarrow> int \<Rightarrow> u32 \<Rightarrow> u64 \<Rightarrow> ('w, unit) task" where
  "control_quiesce_dev K env fd dev_id timeout_ms =
     with_dev_path K env fd dev_id (raw_quiesce_dev K fd dev_id timeout_ms)"

definition control_try_stop_dev :: "'w kernel \<Rightarrow> env \<Rightarrow> int \<Rightarrow> u32 \<Rightarrow> ('w, unit) task" where
  "control_try_stop_dev K env fd dev_id =
     with_dev_path K env fd dev_id (raw_try_stop_dev K fd dev_id)"

definition control_register_shm_buf ::
  "'w kernel \<Rightarrow> env \<Rightarrow> int \<Rightarrow> u32 \<Rightarrow> ublk_shmem_buf_reg \<Rightarrow> ('w, s32) task" where
  "control_register_shm_buf K env fd dev_id reg =
     await (cached_get_dev_info K env fd dev_id zero_info) (\<lambda>info.
       if has_flag (di_flags info) UBLK_F_UNPRIVILEGED_DEV
       then ctrl_await (raw_register_shm_buf K fd dev_id (DevPathBuf dev_id (PShmReg reg))
              (of_nat (sizeof_DevPathBuf sizeof_ublk_shmem_buf_reg)) (of_nat DEV_PATH_LEN))
            (\<lambda>r _. co_return r)
       else ctrl_await (raw_register_shm_buf0 K fd dev_id reg) (\<lambda>r _. co_return r))"

definition control_unregister_shm_buf :: "'w kernel \<Rightarrow> env \<Rightarrow> int \<Rightarrow> u32 \<Rightarrow> u64 \<Rightarrow> ('w, unit) task" where
  "control_unregister_shm_buf K env fd dev_id buf_index =
     with_dev_path K env fd dev_id (raw_unregister_shm_buf K fd dev_id buf_index)"

section \<open>Public functions of \<^verbatim>\<open>control.hpp\<close>\<close>

definition get_queue_affinity :: "'w kernel \<Rightarrow> env \<Rightarrow> int \<Rightarrow> u32 \<Rightarrow> u16 \<Rightarrow> cpu_set_t \<Rightarrow> ('w, cpu_set_t) task" where
  "get_queue_affinity K env control_fd dev_id q_id cpuset =
     task_invoke (\<lambda>env'. control_get_queue_affinity K env' control_fd dev_id q_id cpuset) env"

definition get_dev_info ::
  "'w kernel \<Rightarrow> env \<Rightarrow> int \<Rightarrow> u32 \<Rightarrow> ublksrv_ctrl_dev_info \<Rightarrow> ('w, ublksrv_ctrl_dev_info) task" where
  "get_dev_info K env control_fd dev_id info =
     task_invoke (\<lambda>_. control_get_dev_info K control_fd dev_id info) env"

definition del_dev :: "'w kernel \<Rightarrow> env \<Rightarrow> int \<Rightarrow> u32 \<Rightarrow> ('w, unit) task" where
  "del_dev K env control_fd dev_id =
     task_invoke (\<lambda>env'. control_del_dev K env' control_fd dev_id) env"

definition start_dev :: "'w kernel \<Rightarrow> env \<Rightarrow> int \<Rightarrow> u32 \<Rightarrow> s32 \<Rightarrow> ('w, unit) task" where
  "start_dev K env control_fd dev_id daemon_pid =
     task_invoke (\<lambda>env'. control_start_dev K env' control_fd dev_id daemon_pid) env"

definition stop_dev :: "'w kernel \<Rightarrow> env \<Rightarrow> int \<Rightarrow> u32 \<Rightarrow> ('w, unit) task" where
  "stop_dev K env control_fd dev_id =
     task_invoke (\<lambda>env'. control_stop_dev K env' control_fd dev_id) env"

definition set_params :: "'w kernel \<Rightarrow> env \<Rightarrow> int \<Rightarrow> u32 \<Rightarrow> ublk_params \<Rightarrow> ('w, unit) task" where
  "set_params K env control_fd dev_id params =
     task_invoke (\<lambda>env'. control_set_params K env' control_fd dev_id params) env"

definition get_params :: "'w kernel \<Rightarrow> env \<Rightarrow> int \<Rightarrow> u32 \<Rightarrow> ublk_params \<Rightarrow> ('w, ublk_params) task" where
  "get_params K env control_fd dev_id params =
     task_invoke (\<lambda>env'. control_get_params K env' control_fd dev_id params) env"

definition start_user_recovery :: "'w kernel \<Rightarrow> env \<Rightarrow> int \<Rightarrow> u32 \<Rightarrow> ('w, unit) task" where
  "start_user_recovery K env control_fd dev_id =
     task_invoke (\<lambda>env'. control_start_user_recovery K env' control_fd dev_id) env"

definition end_user_recovery :: "'w kernel \<Rightarrow> env \<Rightarrow> int \<Rightarrow> u32 \<Rightarrow> s32 \<Rightarrow> ('w, unit) task" where
  "end_user_recovery K env control_fd dev_id daemon_pid =
     task_invoke (\<lambda>env'. control_end_user_recovery K env' control_fd dev_id daemon_pid) env"

definition del_dev_async :: "'w kernel \<Rightarrow> env \<Rightarrow> int \<Rightarrow> u32 \<Rightarrow> ('w, unit) task" where
  "del_dev_async K env control_fd dev_id =
     task_invoke (\<lambda>env'. control_del_dev_async K env' control_fd dev_id) env"

definition update_size :: "'w kernel \<Rightarrow> env \<Rightarrow> int \<Rightarrow> u32 \<Rightarrow> u64 \<Rightarrow> ('w, unit) task" where
  "update_size K env control_fd dev_id sectors =
     task_invoke (\<lambda>env'. control_update_size K env' control_fd dev_id sectors) env"

definition quiesce_dev :: "'w kernel \<Rightarrow> env \<Rightarrow> int \<Rightarrow> u32 \<Rightarrow> u64 \<Rightarrow> ('w, unit) task" where
  "quiesce_dev K env control_fd dev_id timeout_ms =
     task_invoke (\<lambda>env'. control_quiesce_dev K env' control_fd dev_id timeout_ms) env"

definition try_stop_dev :: "'w kernel \<Rightarrow> env \<Rightarrow> int \<Rightarrow> u32 \<Rightarrow> ('w, unit) task" where
  "try_stop_dev K env control_fd dev_id =
     task_invoke (\<lambda>env'. control_try_stop_dev K env' control_fd dev_id) env"

definition register_shm_buf :: "'w kernel \<Rightarrow> env \<Rightarrow> int \<Rightarrow> u32 \<Rightarrow> ublk_shmem_buf_reg \<Rightarrow> ('w, s32) task" where
  "register_shm_buf K env control_fd dev_id reg =
     task_invoke (\<lambda>env'. control_register_shm_buf K env' control_fd dev_id reg) env"

definition unregister_shm_buf :: "'w kernel \<Rightarrow> env \<Rightarrow> int \<Rightarrow> u32 \<Rightarrow> u64 \<Rightarrow> ('w, unit) task" where
  "unregister_shm_buf K env control_fd dev_id buf_index =
     task_invoke (\<lambda>env'. control_unregister_shm_buf K env' control_fd dev_id buf_index) env"

text \<open>
  \<^verbatim>\<open>add_dev\<close> and \<^verbatim>\<open>get_features\<close> are plain senders: their error channel carries the error code,
  and the buffer may have been written whatever the channel.
\<close>

definition drop_result :: "('e, 'a) outcome \<Rightarrow> ('e, unit) outcome" where
  "drop_result r = (case r of Value _ \<Rightarrow> Value () | Error e \<Rightarrow> Error e | Stopped \<Rightarrow> Stopped)"

definition add_dev ::
  "'w kernel \<Rightarrow> int \<Rightarrow> ublksrv_ctrl_dev_info \<Rightarrow> 'w \<Rightarrow> ((error_code, unit) outcome \<times> ublksrv_ctrl_dev_info) \<times> 'w" where
  "add_dev K control_fd info = (\<lambda>w. case raw_add_dev K control_fd info w of
     ((r, p), w') \<Rightarrow> ((drop_result r, info_of info p), w'))"

definition get_features ::
  "'w kernel \<Rightarrow> int \<Rightarrow> u64 \<Rightarrow> 'w \<Rightarrow> ((error_code, unit) outcome \<times> u64) \<times> 'w" where
  "get_features K control_fd features = (\<lambda>w. case raw_get_features K control_fd features w of
     ((r, p), w') \<Rightarrow> ((drop_result r, features_of features p), w'))"

section \<open>Facts about the operations\<close>

lemma cached_hit:
  "fetch_dev_info env = Some info \<Longrightarrow> di_dev_id info = dev_id \<Longrightarrow>
   cached_get_dev_info K env fd dev_id d = co_return info"
  by (simp add: cached_get_dev_info_def)

lemma cached_miss:
  "(\<And>info. fetch_dev_info env = Some info \<Longrightarrow> di_dev_id info \<noteq> dev_id) \<Longrightarrow>
   cached_get_dev_info K env fd dev_id d = control_get_dev_info K fd dev_id d"
  by (simp add: cached_get_dev_info_def split: option.splits)

text \<open>
  A task environment whose cached device information belongs to the requested device answers
  without any command to the driver; cached information of another device is never used, the
  driver is asked instead.
\<close>

theorem cached_info_only_for_its_device:
  "cached_get_dev_info K env fd dev_id info =
     (if map_option di_dev_id (fetch_dev_info env) = Some dev_id
      then co_return (the (fetch_dev_info env)) else control_get_dev_info K fd dev_id info)"
  by (auto simp: cached_hit intro: cached_miss)

subsection \<open>Device path commands\<close>

text \<open>
  What a path command has to submit: an unprivileged device is named by its path, in a buffer of
  \<^verbatim>\<open>DEV_PATH_LEN\<close> bytes, a privileged one by a null buffer.
\<close>

definition path_sqe :: "ublksrv_ctrl_dev_info \<Rightarrow> int \<Rightarrow> u32 \<Rightarrow> u64 \<Rightarrow> ctrl_sqe" where
  "path_sqe info fd op data0 =
     (let (ptr, len) = (if bit (di_flags info) 5 then (PathPtr (dev_path (di_dev_id info)), 32) else (Nullptr, 0))
      in \<lparr>sqe_cmd_op = op, sqe_fd = fd,
          sqe_cmd = \<lparr>cc_dev_id = di_dev_id info, cc_queue_id = - 1, cc_len = len, cc_addr = ptr,
            cc_data0 = data0, cc_dev_path_len = len, cc_pad = 0, cc_reserved = 0\<rparr>\<rparr>)"

text \<open>
  What the commands with a struct in their buffer have to submit: the description of a device to
  add, the query for a device's description, behind its path, and the parameters, behind the path
  of an unprivileged device only.
\<close>

definition buf_sqe :: "int \<Rightarrow> u32 \<Rightarrow> u32 \<Rightarrow> ctrl_ptr \<Rightarrow> u16 \<Rightarrow> u16 \<Rightarrow> ctrl_sqe" where
  "buf_sqe fd op dev_id ptr len path_len =
     \<lparr>sqe_cmd_op = op, sqe_fd = fd,
      sqe_cmd = \<lparr>cc_dev_id = dev_id, cc_queue_id = - 1, cc_len = len, cc_addr = ptr,
        cc_data0 = 0, cc_dev_path_len = path_len, cc_pad = 0, cc_reserved = 0\<rparr>\<rparr>"

definition add_dev_sqe :: "int \<Rightarrow> ublksrv_ctrl_dev_info \<Rightarrow> ctrl_sqe" where
  "add_dev_sqe fd info = buf_sqe fd UBLK_U_CMD_ADD_DEV (di_dev_id info) (PayloadPtr (PInfo info)) 64 0"

definition info_sqe :: "int \<Rightarrow> u32 \<Rightarrow> ctrl_sqe" where
  "info_sqe fd dev_id = buf_sqe fd UBLK_U_CMD_GET_DEV_INFO2 dev_id (PathBufPtr (dev_path dev_id) (PInfo zero_info)) 96 32"

definition params_sqe :: "ublksrv_ctrl_dev_info \<Rightarrow> int \<Rightarrow> u32 \<Rightarrow> ublk_params \<Rightarrow> ctrl_sqe" where
  "params_sqe info fd op params =
     (if bit (di_flags info) 5
      then buf_sqe fd op (di_dev_id info) (PathBufPtr (dev_path (di_dev_id info)) (PParams (params\<lparr>pr_len := 152\<rparr>))) 184 32
      else buf_sqe fd op (di_dev_id info) (PayloadPtr (PParams (params\<lparr>pr_len := 152\<rparr>))) 152 0)"

text \<open>The contract of a raw path command and what \<^verbatim>\<open>with_dev_path\<close> makes of it.\<close>

locale path_command =
  fixes cmd :: "'w kernel \<Rightarrow> int \<Rightarrow> u32 \<Rightarrow> ctrl_ptr \<Rightarrow> u16 \<Rightarrow> 'w ctrl_sender"
    and op :: u32 and data0 :: u64
  assumes cmd_eq: "cmd K fd dev_id ptr len = ctrl_cmd K fd op dev_id (- 1) data0 ptr len len"
begin

lemma with_dev_path_cached:
  assumes "fetch_dev_info env = Some info"
  shows "with_dev_path K env fd (di_dev_id info) (cmd K fd (di_dev_id info)) =
    ctrl_await (k_ctrl K (path_sqe info fd op data0)) (\<lambda>_ _. co_return ())"
  using assms
  by (simp add: with_dev_path_def cached_hit cmd_eq ctrl_cmd_def path_sqe_def DEV_PATH_LEN_def
      flag_bits)

lemma with_dev_path_fetched:
  assumes "cached_get_dev_info K env fd dev_id zero_info w = (Value info, w')" and "di_dev_id info = dev_id"
  shows "with_dev_path K env fd dev_id (cmd K fd dev_id) w =
    ctrl_await (k_ctrl K (path_sqe info fd op data0)) (\<lambda>_ _. co_return ()) w'"
  using assms
  by (simp add: with_dev_path_def await_def cmd_eq ctrl_cmd_def path_sqe_def DEV_PATH_LEN_def
      flag_bits)

end

interpretation del_dev: path_command raw_del_dev UBLK_U_CMD_DEL_DEV 0
  by unfold_locales (simp add: raw_simps)

interpretation start_dev: path_command
  "\<lambda>K fd dev_id. raw_start_dev K fd dev_id pid" UBLK_U_CMD_START_DEV "of_int pid" for pid
  by unfold_locales (simp add: raw_simps)

interpretation stop_dev: path_command raw_stop_dev UBLK_U_CMD_STOP_DEV 0
  by unfold_locales (simp add: raw_simps)

interpretation start_user_recovery: path_command
  raw_start_user_recovery UBLK_U_CMD_START_USER_RECOVERY 0
  by unfold_locales (simp add: raw_simps)

interpretation end_user_recovery: path_command
  "\<lambda>K fd dev_id. raw_end_user_recovery K fd dev_id pid" UBLK_U_CMD_END_USER_RECOVERY "of_int pid" for pid
  by unfold_locales (simp add: raw_simps)

interpretation del_dev_async: path_command raw_del_dev_async UBLK_U_CMD_DEL_DEV_ASYNC 0
  by unfold_locales (simp add: raw_simps)

interpretation update_size: path_command
  "\<lambda>K fd dev_id. raw_update_size K fd dev_id sectors" UBLK_U_CMD_UPDATE_SIZE sectors for sectors
  by unfold_locales (simp add: raw_simps)

interpretation quiesce_dev: path_command
  "\<lambda>K fd dev_id. raw_quiesce_dev K fd dev_id timeout_ms" UBLK_U_CMD_QUIESCE_DEV timeout_ms for timeout_ms
  by unfold_locales (simp add: raw_simps)

interpretation try_stop_dev: path_command raw_try_stop_dev UBLK_U_CMD_TRY_STOP_DEV 0
  by unfold_locales (simp add: raw_simps)

interpretation unregister_shm_buf: path_command
  "\<lambda>K fd dev_id. raw_unregister_shm_buf K fd dev_id buf_index" UBLK_U_CMD_UNREG_BUF buf_index for buf_index
  by unfold_locales (simp add: raw_simps)

lemmas path_command_cached =
  del_dev.with_dev_path_cached start_dev.with_dev_path_cached stop_dev.with_dev_path_cached
  start_user_recovery.with_dev_path_cached end_user_recovery.with_dev_path_cached
  del_dev_async.with_dev_path_cached update_size.with_dev_path_cached
  quiesce_dev.with_dev_path_cached try_stop_dev.with_dev_path_cached
  unregister_shm_buf.with_dev_path_cached

lemmas path_operation_defs =
  del_dev_def start_dev_def stop_dev_def start_user_recovery_def end_user_recovery_def
  del_dev_async_def update_size_def quiesce_dev_def try_stop_dev_def unregister_shm_buf_def
  control_del_dev_def control_start_dev_def control_stop_dev_def control_start_user_recovery_def
  control_end_user_recovery_def control_del_dev_async_def control_update_size_def
  control_quiesce_dev_def control_try_stop_dev_def control_unregister_shm_buf_def task_invoke_def

definition send_path :: "'w kernel \<Rightarrow> ublksrv_ctrl_dev_info \<Rightarrow> int \<Rightarrow> u32 \<Rightarrow> u64 \<Rightarrow> ('w, unit) task" where
  "send_path K info fd op data0 = ctrl_await (k_ctrl K (path_sqe info fd op data0)) (\<lambda>_ _. co_return ())"

lemmas path_command_fetched =
  del_dev.with_dev_path_fetched start_dev.with_dev_path_fetched stop_dev.with_dev_path_fetched
  start_user_recovery.with_dev_path_fetched end_user_recovery.with_dev_path_fetched
  del_dev_async.with_dev_path_fetched update_size.with_dev_path_fetched
  quiesce_dev.with_dev_path_fetched try_stop_dev.with_dev_path_fetched
  unregister_shm_buf.with_dev_path_fetched

lemma add_dev_sends:
  "raw_add_dev K fd info = k_ctrl K (add_dev_sqe fd info)"
  by (simp add: raw_simps ctrl_cmd_def add_dev_sqe_def buf_sqe_def consts_simps)

lemma set_params_fetched:
  assumes "cached_get_dev_info K env fd dev_id zero_info w = (Value info, w')" and "di_dev_id info = dev_id"
  shows "control_set_params K env fd dev_id params w =
    ctrl_await (k_ctrl K (params_sqe info fd UBLK_U_CMD_SET_PARAMS params)) (\<lambda>_ _. co_return ()) w'"
  using assms
  by (auto simp: control_set_params_def await_def Let_def flag_bits raw_simps ctrl_cmd_def params_sqe_def buf_sqe_def
      DevPathBuf_def consts_simps)

lemma cached_info_no_command:
  assumes "cached_get_dev_info K env fd dev_id d w = (Value info, w')"
    and "map_option di_dev_id (fetch_dev_info env) = Some dev_id"
  shows "fetch_dev_info env = Some info \<and> w' = w"
  using assms by (auto simp: cached_get_dev_info_def co_return_def)

text \<open>
  C23. Once the description of its device is at hand, from the cache without any command to the
  driver, or else queried first, each of these operations of the public interface is exactly one
  control command: the ten that name a device (delete, start, stop, start and end recovery, delete
  asynchronously, update the size, quiesce, try to stop, unregister a buffer) with their own command
  number and inline data, no queue id, and the device path in a 32-byte buffer if and only if the
  device is unprivileged; setting the parameters with the whole struct, behind the path of an
  unprivileged device. Success discards the result and an error code is thrown as
  \<^verbatim>\<open>std::system_error\<close>. Adding a device needs no description and is one command with the struct.
\<close>

theorem lifecycle_operations_submit_one_command:
  assumes "cached_get_dev_info K (TaskEnv env) fd dev_id zero_info w = (Value info, w')" and "di_dev_id info = dev_id"
  shows
    "(map_option di_dev_id (fetch_dev_info env) = Some dev_id \<longrightarrow> fetch_dev_info env = Some info \<and> w' = w) \<and>
     del_dev K env fd dev_id w = send_path K info fd UBLK_U_CMD_DEL_DEV 0 w' \<and>
     start_dev K env fd dev_id pid w = send_path K info fd UBLK_U_CMD_START_DEV (of_int pid) w' \<and>
     stop_dev K env fd dev_id w = send_path K info fd UBLK_U_CMD_STOP_DEV 0 w' \<and>
     start_user_recovery K env fd dev_id w = send_path K info fd UBLK_U_CMD_START_USER_RECOVERY 0 w' \<and>
     end_user_recovery K env fd dev_id pid w = send_path K info fd UBLK_U_CMD_END_USER_RECOVERY (of_int pid) w' \<and>
     del_dev_async K env fd dev_id w = send_path K info fd UBLK_U_CMD_DEL_DEV_ASYNC 0 w' \<and>
     update_size K env fd dev_id sectors w = send_path K info fd UBLK_U_CMD_UPDATE_SIZE sectors w' \<and>
     quiesce_dev K env fd dev_id timeout_ms w = send_path K info fd UBLK_U_CMD_QUIESCE_DEV timeout_ms w' \<and>
     try_stop_dev K env fd dev_id w = send_path K info fd UBLK_U_CMD_TRY_STOP_DEV 0 w' \<and>
     unregister_shm_buf K env fd dev_id buf_index w = send_path K info fd UBLK_U_CMD_UNREG_BUF buf_index w' \<and>
     set_params K env fd dev_id params w =
       ctrl_await (k_ctrl K (params_sqe info fd UBLK_U_CMD_SET_PARAMS params)) (\<lambda>_ _. co_return ()) w' \<and>
     fst (fst (add_dev K fd info w)) = drop_result (fst (fst (k_ctrl K (add_dev_sqe fd info) w))) \<and>
     snd (add_dev K fd info w) = snd (k_ctrl K (add_dev_sqe fd info) w)"
  using assms cached_info_no_command [OF assms(1)]
  by (simp add: send_path_def path_operation_defs path_command_fetched [OF assms] set_params_def
      set_params_fetched [OF assms] add_dev_def add_dev_sends split: prod.splits del: TaskEnv.simps)

definition idle_kernel :: "unit kernel" where
  "idle_kernel = \<lparr>k_ctrl = (\<lambda>sqe w. ((Value 0, NoPayload), w)), k_timeout = (\<lambda>ts w. (Value 0, w))\<rparr>"

text \<open>Stopping device 7, unprivileged, which is described only after two refusals; the kernel records what it is sent.\<close>

definition recording_kernel :: "ctrl_sqe list kernel" where
  "recording_kernel = \<lparr>k_ctrl = (\<lambda>sqe log.
       (if sqe_cmd_op sqe \<noteq> UBLK_U_CMD_GET_DEV_INFO2 then (Value 0, NoPayload)
        else if length log < 2 then (Error EACCES, NoPayload)
        else (Value 0, PInfo (zero_info\<lparr>di_dev_id := 7, di_flags := 32\<rparr>)), log @ [sqe])),
     k_timeout = (\<lambda>ts log. (Error 62, log))\<rparr>"

theorem lifecycle_operations_submit_one_command_witness:
  "stop_dev recording_kernel NoQuery 3 7 [] =
     (Value (), [info_sqe 3 7, info_sqe 3 7, info_sqe 3 7,
        path_sqe (zero_info\<lparr>di_dev_id := 7, di_flags := 32\<rparr>) 3 UBLK_U_CMD_STOP_DEV 0])"
proof -
  let ?i = "zero_info\<lparr>di_dev_id := 7, di_flags := 32\<rparr>"
  have a: "get_dev_info_attempt recording_kernel 3 7 (zero_info, zero_info) log =
      (Value (if length log < 2 then (False, zero_info, zero_info) else (True, ?i, ?i)), log @ [info_sqe 3 7])" for log
    by (simp add: get_dev_info_attempt_def ctrl_errno_def raw_simps ctrl_cmd_def recording_kernel_def info_sqe_def buf_sqe_def
        DevPathBuf_def Let_def co_return_def consts_simps)
  have t: "k_timeout recording_kernel ts log = (Error 62, log)" for ts log by (simp add: recording_kernel_def)
  have "retry_loop recording_kernel (get_dev_info_attempt recording_kernel 3 7) ts (Suc (Suc n)) (zero_info, zero_info)
      [info_sqe 3 7] = (Value (True, ?i, ?i), [info_sqe 3 7, info_sqe 3 7, info_sqe 3 7])" for ts n
    by (simp add: await_def upon_error_def t a co_return_def)
  from this [of _ 18] have c: "cached_get_dev_info recording_kernel (TaskEnv NoQuery) 3 7 zero_info [] =
      (Value ?i, [info_sqe 3 7, info_sqe 3 7, info_sqe 3 7])"
    by (simp add: cached_get_dev_info_def control_get_dev_info_def retry_def await_def a co_return_def)
  have ne: "UBLK_U_CMD_STOP_DEV \<noteq> UBLK_U_CMD_GET_DEV_INFO2" by (simp add: consts_simps command_numbers)
  have "stop_dev recording_kernel NoQuery 3 7 [] =
      send_path recording_kernel ?i 3 UBLK_U_CMD_STOP_DEV 0 [info_sqe 3 7, info_sqe 3 7, info_sqe 3 7]"
    using lifecycle_operations_submit_one_command [OF c] by simp
  then show ?thesis
    using ne by (simp add: send_path_def ctrl_await_def recording_kernel_def path_sqe_def co_return_def Let_def)
qed

subsection \<open>Parameters\<close>

text \<open>
  Setting the parameters always announces the full size of \<^verbatim>\<open>ublk_params\<close> in its \<open>len\<close> field
  and leaves every other field as the caller gave it; the buffer is the plain struct of 152 bytes
  for a privileged device and the struct behind the device path, 184 bytes, for an unprivileged
  one.
\<close>

theorem set_params_full_length:
  assumes "fetch_dev_info env = Some info"
  shows "set_params K env fd (di_dev_id info) params =
    ctrl_await (ctrl_cmd K fd UBLK_U_CMD_SET_PARAMS (di_dev_id info) (- 1) 0
        (if bit (di_flags info) 5
         then PathBufPtr (dev_path (di_dev_id info)) (PParams (params\<lparr>pr_len := 152\<rparr>))
         else PayloadPtr (PParams (params\<lparr>pr_len := 152\<rparr>)))
        (if bit (di_flags info) 5 then 184 else 152) (if bit (di_flags info) 5 then 32 else 0))
      (\<lambda>_ _. co_return ())"
  using assms
  by (simp add: set_params_def control_set_params_def task_invoke_def cached_hit Let_def flag_bits
      raw_simps DevPathBuf_def consts_simps)

theorem set_params_full_length_witness:
  "set_params idle_kernel (WithInfo (Some (zero_info\<lparr>di_flags := 32\<rparr>))) 3 0 zero_params =
    ctrl_await (ctrl_cmd idle_kernel 3 UBLK_U_CMD_SET_PARAMS 0 (- 1) 0
        (PathBufPtr (dev_path 0) (PParams (zero_params\<lparr>pr_len := 152\<rparr>))) 184 32)
      (\<lambda>_ _. co_return ())"
  using set_params_full_length [of "WithInfo (Some (zero_info\<lparr>di_flags := 32\<rparr>))"
      "zero_info\<lparr>di_flags := 32\<rparr>" idle_kernel 3 zero_params]
  by (simp add: zero_info_def)

subsection \<open>Retrying until the device node is accessible\<close>

text \<open>
  The scenario the retry loop is for: the driver refuses \<^verbatim>\<open>GET_DEV_INFO2\<close> with \<open>EACCES\<close> until the
  permissions of the device node are set up, which happens after \<open>n\<close> attempts, and then answers
  with \<open>i\<close>. \<open>tries\<close> counts the attempts the driver has seen; a sleep does not change the count
  and is not stopped.
\<close>

definition grants_access_after :: "'w kernel \<Rightarrow> ('w \<Rightarrow> nat) \<Rightarrow> nat \<Rightarrow> ublksrv_ctrl_dev_info \<Rightarrow> bool" where
  "grants_access_after K tries n i \<longleftrightarrow>
     (\<forall>sqe w. sqe_cmd_op sqe = UBLK_U_CMD_GET_DEV_INFO2 \<longrightarrow>
        (\<exists>p w'. k_ctrl K sqe w =
            (if tries w < n then (Error EACCES, p) else (Value 0, PInfo i), w') \<and> tries w' = Suc (tries w))) \<and>
     (\<forall>ts w. \<exists>r w'. k_timeout K ts w = (r, w') \<and> r \<noteq> Stopped \<and> tries w' = tries w)"

lemma grants_query:
  assumes "grants_access_after K tries n i"
  shows "\<exists>p w'. raw_get_dev_info2 K fd dev_id buf len plen w =
      (if tries w < n then (Error EACCES, p) else (Value 0, PInfo i), w') \<and> tries w' = Suc (tries w)"
  using assms unfolding grants_access_after_def raw_get_dev_info2_def ctrl_cmd_def by simp

lemma attempt_refused:
  assumes "grants_access_after K tries n i" and "tries w < n"
  shows "\<exists>buf' w'. get_dev_info_attempt K fd dev_id (buf, info) w = (Value (False, buf', info), w') \<and>
    tries w' = Suc (tries w)"
proof -
  obtain p w' where "raw_get_dev_info2 K fd dev_id (DevPathBuf dev_id (PInfo buf))
      (of_nat (sizeof_DevPathBuf sizeof_ublksrv_ctrl_dev_info)) (of_nat DEV_PATH_LEN) w =
      ((Error EACCES, p), w')" and "tries w' = Suc (tries w)"
    using grants_query [OF assms(1), of fd dev_id "DevPathBuf dev_id (PInfo buf)"
        "of_nat (sizeof_DevPathBuf sizeof_ublksrv_ctrl_dev_info)" "of_nat DEV_PATH_LEN" w] assms(2) by auto
  then show ?thesis
    by (simp add: get_dev_info_attempt_def ctrl_errno_def Let_def EACCES_def co_return_def)
qed

lemma attempt_granted:
  assumes "grants_access_after K tries n i" and "n \<le> tries w"
  shows "\<exists>w'. get_dev_info_attempt K fd dev_id (buf, info) w = (Value (True, i, i), w') \<and>
    tries w' = Suc (tries w)"
proof -
  obtain w' where "raw_get_dev_info2 K fd dev_id (DevPathBuf dev_id (PInfo buf))
      (of_nat (sizeof_DevPathBuf sizeof_ublksrv_ctrl_dev_info)) (of_nat DEV_PATH_LEN) w =
      ((Value 0, PInfo i), w')" and "tries w' = Suc (tries w)"
    using grants_query [OF assms(1), of fd dev_id "DevPathBuf dev_id (PInfo buf)"
        "of_nat (sizeof_DevPathBuf sizeof_ublksrv_ctrl_dev_info)" "of_nat DEV_PATH_LEN" w] assms(2) by auto
  then show ?thesis
    by (simp add: get_dev_info_attempt_def ctrl_errno_def Let_def co_return_def)
qed

lemma sleep_keeps_tries:
  assumes "grants_access_after K tries n i"
  shows "\<exists>r w'. upon_error (k_timeout K ts) uminus w = (Value r, w') \<and> tries w' = tries w"
proof -
  obtain r w' where "k_timeout K ts w = (r, w')" "r \<noteq> Stopped" "tries w' = tries w"
    using assms unfolding grants_access_after_def by blast
  then show ?thesis by (cases r) (simp_all add: upon_error_def)
qed

lemma retry_loop_attempts:
  assumes g: "grants_access_after K tries n i"
  shows "tries w \<le> n \<Longrightarrow>
    \<exists>buf' w'. retry_loop K (get_dev_info_attempt K fd dev_id) ts m (buf, info) w =
      (Value (if n < tries w + m then (True, i, i) else (False, buf', info)), w') \<and>
      tries w' = (if n < tries w + m then Suc n else tries w + m)"
proof (induction m arbitrary: buf w)
  case 0
  then show ?case by (simp add: co_return_def)
next
  case (Suc m)
  obtain r w1 where w1: "upon_error (k_timeout K ts) uminus w = (Value r :: (exn, s32) outcome, w1)"
    and t1: "tries w1 = tries w"
    using sleep_keeps_tries [OF g] by blast
  show ?case
  proof (cases "tries w < n")
    case True
    then obtain buf2 w2 where w2: "get_dev_info_attempt K fd dev_id (buf, info) w1 = (Value (False, buf2, info), w2)"
      and t2: "tries w2 = Suc (tries w)"
      using attempt_refused [OF g, of w1] t1 by metis
    show ?thesis
      using Suc.IH [of w2 buf2] True w1 w2 t2 by (auto simp: await_def)
  next
    case False
    then obtain w2 where "get_dev_info_attempt K fd dev_id (buf, info) w1 = (Value (True, i, i), w2)"
      and "tries w2 = Suc (tries w)"
      using attempt_granted [OF g, of w1] t1 by (metis linorder_not_less)
    with False Suc.prems w1 show ?thesis by (simp add: await_def co_return_def)
  qed
qed

text \<open>
  C22. If the driver refuses access \<open>n\<close> times and then answers, the query succeeds with the answer
  after exactly \<open>n + 1\<close> attempts when \<open>n\<close> is at most 20, and otherwise gives up after exactly 21
  attempts with \<open>EACCES\<close>: the loop always ends and never asks again after an answer.
\<close>

theorem get_dev_info_retries:
  assumes g: "grants_access_after K tries n i" and t: "tries w = 0"
  shows "\<exists>w'. control_get_dev_info K fd dev_id info w =
      (if n \<le> 20 then Value i else Error (SystemError EACCES ''get_dev_info2''), w') \<and>
    tries w' = (if n \<le> 20 then Suc n else 21)"
proof (cases "n = 0")
  case True
  then obtain w' where "get_dev_info_attempt K fd dev_id (zero_info, info) w = (Value (True, i, i), w')"
    and "tries w' = Suc 0"
    using attempt_granted [OF g, of w] t by fastforce
  with True show ?thesis
    by (simp add: control_get_dev_info_def retry_def await_def co_return_def)
next
  case False
  then obtain b w1 where w1: "get_dev_info_attempt K fd dev_id (zero_info, info) w = (Value (False, b, info), w1)"
    and t1: "tries w1 = Suc 0"
    using attempt_refused [OF g, of w] t by fastforce
  obtain b2 w2 where "retry_loop K (get_dev_info_attempt K fd dev_id) (0, 100000000) 20 (b, info) w1 =
      (Value (if n < 21 then (True, i, i) else (False, b2, info)), w2)"
    and "tries w2 = (if n < 21 then Suc n else 21)"
    using retry_loop_attempts [OF g, of w1 fd dev_id "(0, 100000000)" 20 b info] t1 False by auto
  with w1 show ?thesis
    by (auto simp: control_get_dev_info_def retry_def await_def co_return_def throw_def)
qed

definition slow_kernel :: "nat kernel" where
  "slow_kernel = \<lparr>k_ctrl = (\<lambda>sqe w. (if w < 3 then (Error EACCES, NoPayload) else (Value 0, PInfo zero_info), Suc w)),
     k_timeout = (\<lambda>ts w. (Error 62, w))\<rparr>"

theorem get_dev_info_retries_witness:
  "\<exists>w'. control_get_dev_info slow_kernel 3 7 zero_info 0 = (Value zero_info, w') \<and> w' = 4"
proof -
  have "grants_access_after slow_kernel id 3 zero_info"
    by (simp add: grants_access_after_def slow_kernel_def)
  from get_dev_info_retries [OF this, of 0 3 7 zero_info] show ?thesis by simp
qed

subsection \<open>Other errors of the query\<close>

lemma attempt_error:
  assumes "raw_get_dev_info2 K fd dev_id (DevPathBuf dev_id (PInfo buf)) 96 32 w = ((Error ec, p), w')"
    and "0 < ec" and "ec \<noteq> EACCES" and "ec \<noteq> EOPNOTSUPP"
  shows "get_dev_info_attempt K fd dev_id (buf, info) w = (Error (SystemError ec ''get_dev_info2''), w')"
  using assms by (simp add: get_dev_info_attempt_def ctrl_errno_def Let_def throw_def consts_simps)

lemma attempt_fallback:
  assumes "raw_get_dev_info2 K fd dev_id (DevPathBuf dev_id (PInfo buf)) 96 32 w = ((Error EOPNOTSUPP, p), w')"
  shows "get_dev_info_attempt K fd dev_id (buf, info) w =
    ctrl_await (raw_get_dev_info0 K fd dev_id info) (\<lambda>_ p'. co_return (True, info_of buf p, info_of info p')) w'"
  using assms by (simp add: get_dev_info_attempt_def ctrl_errno_def Let_def consts_simps)

text \<open>
  An error of \<^verbatim>\<open>GET_DEV_INFO2\<close> other than \<open>EACCES\<close> is never retried: \<open>EOPNOTSUPP\<close> falls back
  to one \<^verbatim>\<open>GET_DEV_INFO\<close> command, whose answer or error is the result, and any other error code
  is thrown at once.
\<close>

theorem get_dev_info_error_paths:
  assumes "raw_get_dev_info2 K fd dev_id (DevPathBuf dev_id (PInfo zero_info)) 96 32 w = ((Error ec, p), w')"
    and "0 < ec" and "ec \<noteq> EACCES"
  shows "control_get_dev_info K fd dev_id info w =
    (if ec = EOPNOTSUPP
     then ctrl_await (raw_get_dev_info0 K fd dev_id info) (\<lambda>_ p'. co_return (info_of info p')) w'
     else (Error (SystemError ec ''get_dev_info2''), w'))"
proof (cases "ec = EOPNOTSUPP")
  case True
  with attempt_fallback [of K fd dev_id zero_info w p w' info] assms(1) show ?thesis
    by (simp add: control_get_dev_info_def retry_def await_def ctrl_await_def co_return_def
        split: prod.splits outcome.splits)
next
  case False
  with attempt_error [OF assms, of info] show ?thesis
    by (simp add: control_get_dev_info_def retry_def await_def)
qed

definition old_kernel :: "unit kernel" where
  "old_kernel = \<lparr>k_ctrl = (\<lambda>sqe w.
       if sqe_cmd_op sqe = UBLK_U_CMD_GET_DEV_INFO2 then ((Error EOPNOTSUPP, NoPayload), w)
       else ((Value 0, PInfo (zero_info\<lparr>di_dev_id := 5\<rparr>)), w)),
     k_timeout = (\<lambda>ts w. (Value 0, w))\<rparr>"

theorem get_dev_info_error_paths_witness:
  "control_get_dev_info old_kernel 3 5 zero_info () = (Value (zero_info\<lparr>di_dev_id := 5\<rparr>), ())"
proof -
  have "raw_get_dev_info2 old_kernel 3 5 (DevPathBuf 5 (PInfo zero_info)) 96 32 () =
      ((Error EOPNOTSUPP, NoPayload), ())"
    by (simp add: raw_simps ctrl_cmd_def old_kernel_def)
  from get_dev_info_error_paths [OF this, of zero_info] show ?thesis
    by (simp add: ctrl_await_def co_return_def raw_simps ctrl_cmd_def old_kernel_def consts_simps
        command_numbers)
qed

end
