(* ===== verification/Ublk_Daemon.thy ===== *)
theory Ublk_Daemon
  imports Ublk_Control
begin

text \<open>
  Bringing a device up: \<^verbatim>\<open>daemon::setup\<close>, \<^verbatim>\<open>daemon::configure\<close> and \<^verbatim>\<open>daemon::start\<close> of
  \<^verbatim>\<open>detail/daemon.hpp\<close> and \<^verbatim>\<open>daemon.hpp\<close>, for new devices and for devices a previous daemon left
  behind.
\<close>

section \<open>Operations\<close>

definition need_recovery :: "ublksrv_ctrl_dev_info \<Rightarrow> bool" where
  "need_recovery info \<longleftrightarrow> di_state info = UBLK_S_DEV_QUIESCED \<or> di_state info = UBLK_S_DEV_FAIL_IO"

text \<open>The part of \<^verbatim>\<open>daemon_setup_t\<close> behind the failed \<^verbatim>\<open>add_dev\<close>: the device already exists.\<close>

definition setup_existing ::
  "'w kernel \<Rightarrow> int \<Rightarrow> ublksrv_ctrl_dev_info \<Rightarrow> ('w, bool \<times> ublksrv_ctrl_dev_info) task" where
  "setup_existing K control_fd info =
     await (control_get_dev_info K control_fd (di_dev_id info) info) (\<lambda>info'.
       if has_flag (di_flags info') UBLK_F_USER_RECOVERY \<and> need_recovery info'
       then await (control_start_user_recovery K (WithInfo (Some info')) control_fd (di_dev_id info'))
              (\<lambda>_. co_return (False, info'))
       else co_return (False, info'))"

definition daemon_setup ::
  "'w kernel \<Rightarrow> int \<Rightarrow> ublksrv_ctrl_dev_info \<Rightarrow> ('w, bool \<times> ublksrv_ctrl_dev_info) task" where
  "daemon_setup K control_fd info =
     (if di_dev_id info = - 1
      then ctrl_await (raw_add_dev K control_fd info) (\<lambda>_ p. co_return (True, info_of info p))
      else (\<lambda>w. case raw_add_dev K control_fd info w of
          ((Value r, p), w') \<Rightarrow>
            if r \<noteq> - EEXIST then (Value (True, info_of info p), w')
            else setup_existing K control_fd (info_of info p) w'
        | ((Error ec, p), w') \<Rightarrow>
            if ec \<noteq> EEXIST then (Error (SystemError ec ''add_dev''), w')
            else setup_existing K control_fd (info_of info p) w'
        | ((Stopped, p), w') \<Rightarrow> (Stopped, w')))"

definition daemon_configure ::
  "'w kernel \<Rightarrow> env \<Rightarrow> int \<Rightarrow> u32 \<Rightarrow> ublk_params \<Rightarrow> ('w, bool \<times> ublk_params) task" where
  "daemon_configure K env control_fd dev_id params =
     await (cached_get_dev_info K env control_fd dev_id zero_info) (\<lambda>info.
       if di_state info = UBLK_S_DEV_DEAD
       then await (control_set_params K (WithInfo (Some info)) control_fd dev_id params)
              (\<lambda>_. co_return (True, params))
       else await (control_get_params K (WithInfo (Some info)) control_fd dev_id params)
              (\<lambda>params'. co_return (False, params')))"

definition daemon_start :: "'w kernel \<Rightarrow> env \<Rightarrow> int \<Rightarrow> u32 \<Rightarrow> s32 \<Rightarrow> ('w, unit) task" where
  "daemon_start K env control_fd dev_id daemon_pid =
     await (cached_get_dev_info K env control_fd dev_id zero_info) (\<lambda>info.
       if \<not> need_recovery info
       then control_start_dev K (WithInfo (Some info)) control_fd dev_id daemon_pid
       else if has_flag (di_flags info) UBLK_F_USER_RECOVERY
       then control_end_user_recovery K (WithInfo (Some info)) control_fd dev_id daemon_pid
       else throw (RuntimeError ''device can neither be started nor recovered''))"

text \<open>The public functions of \<^verbatim>\<open>daemon.hpp\<close>.\<close>

definition setup_device ::
  "'w kernel \<Rightarrow> env \<Rightarrow> int \<Rightarrow> ublksrv_ctrl_dev_info \<Rightarrow> ('w, bool \<times> ublksrv_ctrl_dev_info) task" where
  "setup_device K env control_fd info = task_invoke (\<lambda>_. daemon_setup K control_fd info) env"

definition configure ::
  "'w kernel \<Rightarrow> env \<Rightarrow> int \<Rightarrow> u32 \<Rightarrow> ublk_params \<Rightarrow> ('w, bool \<times> ublk_params) task" where
  "configure K env control_fd dev_id params =
     task_invoke (\<lambda>env'. daemon_configure K env' control_fd dev_id params) env"

definition start :: "'w kernel \<Rightarrow> env \<Rightarrow> int \<Rightarrow> u32 \<Rightarrow> s32 \<Rightarrow> ('w, unit) task" where
  "start K env control_fd dev_id daemon_pid =
     task_invoke (\<lambda>env'. daemon_start K env' control_fd dev_id daemon_pid) env"

section \<open>Each operation on every branch\<close>

lemma control_path_cached:
  "control_start_user_recovery K (WithInfo (Some i)) fd (di_dev_id i) = send_path K i fd UBLK_U_CMD_START_USER_RECOVERY 0"
  "control_end_user_recovery K (WithInfo (Some i)) fd (di_dev_id i) pid =
     send_path K i fd UBLK_U_CMD_END_USER_RECOVERY (of_int pid)"
  "control_start_dev K (WithInfo (Some i)) fd (di_dev_id i) pid = send_path K i fd UBLK_U_CMD_START_DEV (of_int pid)"
  by (simp_all add: send_path_def path_operation_defs path_command_cached)

lemma configure_cached:
  assumes "fetch_dev_info env = Some info"
  shows "configure K env fd (di_dev_id info) params =
    (if di_state info = UBLK_S_DEV_DEAD
     then await (control_set_params K (WithInfo (Some info)) fd (di_dev_id info) params)
            (\<lambda>_. co_return (True, params))
     else await (control_get_params K (WithInfo (Some info)) fd (di_dev_id info) params)
            (\<lambda>params'. co_return (False, params')))"
  using assms by (simp add: configure_def daemon_configure_def task_invoke_def cached_hit)

text \<open>
  Whatever the driver answers, a successful \<^verbatim>\<open>configure\<close> of a device in state \<open>DEAD\<close> reports
  that the parameters were applied and hands the caller's parameters back unchanged: the
  device's effective parameters are not read back on this branch.
\<close>

theorem configure_dead_keeps_params:
  assumes "fetch_dev_info env = Some info" and "di_state info = UBLK_S_DEV_DEAD"
    and "configure K env fd (di_dev_id info) params w = (Value (applied, params'), w')"
  shows "applied \<and> params' = params"
  using assms
  by (auto simp: configure_cached await_def co_return_def split: prod.splits outcome.splits)

theorem configure_dead_keeps_params_witness:
  "configure idle_kernel (WithInfo (Some zero_info)) 3 0 zero_params () = (Value (True, zero_params), ())"
proof -
  have c: "configure idle_kernel (WithInfo (Some zero_info)) 3 0 zero_params () =
      (Value (True, zero_params), ())"
    using configure_cached [of "WithInfo (Some zero_info)" zero_info idle_kernel 3 zero_params]
    by (simp add: zero_info_def consts_simps control_set_params_def cached_hit task_simps Let_def
        raw_simps ctrl_cmd_def ctrl_await_def idle_kernel_def)
  have "True \<and> zero_params = zero_params"
    using configure_dead_keeps_params [of "WithInfo (Some zero_info)" zero_info idle_kernel 3 zero_params
        "()" True zero_params "()"] c
    by (simp add: zero_info_def consts_simps)
  with c show ?thesis by simp
qed

text \<open>
  \<^verbatim>\<open>start\<close> makes one decision from the device information: a device that is neither quiesced nor
  failing I/O is started, a quiesced or failing one with user recovery is recovered, each by one
  command carrying the daemon's process id, and without user recovery no command is sent and the
  caller gets a runtime error.
\<close>

theorem start_decision:
  assumes "fetch_dev_info env = Some info"
  shows "start K env fd (di_dev_id info) pid =
    (if di_state info \<in> {UBLK_S_DEV_QUIESCED, UBLK_S_DEV_FAIL_IO}
     then if bit (di_flags info) 3 then send_path K info fd UBLK_U_CMD_END_USER_RECOVERY (of_int pid)
          else throw (RuntimeError ''device can neither be started nor recovered'')
     else send_path K info fd UBLK_U_CMD_START_DEV (of_int pid))"
  using assms
  by (auto simp: start_def daemon_start_def task_invoke_def cached_hit need_recovery_def flag_bits
      control_path_cached)

theorem start_decision_witness:
  "start idle_kernel (WithInfo (Some (zero_info\<lparr>di_state := 2\<rparr>))) 3 0 42 =
     throw (RuntimeError ''device can neither be started nor recovered'')"
  using start_decision [of "WithInfo (Some (zero_info\<lparr>di_state := 2\<rparr>))" "zero_info\<lparr>di_state := 2\<rparr>" idle_kernel 3 42]
  by (simp add: zero_info_def consts_simps)

section \<open>Bringing a device up\<close>

text \<open>
  The three calls of a daemon, composed as in the programs under \<^verbatim>\<open>examples\<close>: set the device up,
  configure it and start it. \<open>logging drv\<close> is the driver that answers a command \<open>sqe\<close> with
  \<open>drv sqe\<close> and records the commands it is sent, with everything they carry.
\<close>

definition bring_up ::
  "'w kernel \<Rightarrow> int \<Rightarrow> ublksrv_ctrl_dev_info \<Rightarrow> ublk_params \<Rightarrow> s32 \<Rightarrow> ('w, unit) task" where
  "bring_up K fd info params pid =
     await (setup_device K NoQuery fd info) (\<lambda>(_, info').
     await (configure K NoQuery fd (di_dev_id info') params) (\<lambda>_.
     start K NoQuery fd (di_dev_id info') pid))"

definition logging :: "(ctrl_sqe \<Rightarrow> (error_code, s32) outcome \<times> ctrl_payload) \<Rightarrow> ctrl_sqe list kernel" where
  "logging drv = \<lparr>k_ctrl = (\<lambda>sqe log. (drv sqe, log @ [sqe])),
     k_timeout = (\<lambda>ts log. (Error 62, log))\<rparr>"

text \<open>The driver knows the device \<open>i\<close>: it refuses to add it again, describes it and accepts every other command.\<close>

definition knows_device ::
  "ublksrv_ctrl_dev_info \<Rightarrow> (ctrl_sqe \<Rightarrow> (error_code, s32) outcome \<times> ctrl_payload) \<Rightarrow> bool" where
  "knows_device i drv \<longleftrightarrow> (\<forall>sqe.
     if sqe_cmd_op sqe = UBLK_U_CMD_ADD_DEV then drv sqe = (Error EEXIST, NoPayload)
     else if sqe_cmd_op sqe = UBLK_U_CMD_GET_DEV_INFO2 then drv sqe = (Value 0, PInfo i)
     else fst (drv sqe) = Value 0)"

lemma command_ne:
  "UBLK_U_CMD_GET_DEV_INFO2 \<noteq> UBLK_U_CMD_ADD_DEV"
  "UBLK_U_CMD_START_USER_RECOVERY \<noteq> UBLK_U_CMD_ADD_DEV"
  "UBLK_U_CMD_START_USER_RECOVERY \<noteq> UBLK_U_CMD_GET_DEV_INFO2"
  "UBLK_U_CMD_END_USER_RECOVERY \<noteq> UBLK_U_CMD_ADD_DEV"
  "UBLK_U_CMD_END_USER_RECOVERY \<noteq> UBLK_U_CMD_GET_DEV_INFO2"
  "UBLK_U_CMD_START_DEV \<noteq> UBLK_U_CMD_ADD_DEV"
  "UBLK_U_CMD_START_DEV \<noteq> UBLK_U_CMD_GET_DEV_INFO2"
  "UBLK_U_CMD_SET_PARAMS \<noteq> UBLK_U_CMD_ADD_DEV"
  "UBLK_U_CMD_SET_PARAMS \<noteq> UBLK_U_CMD_GET_DEV_INFO2"
  "UBLK_U_CMD_GET_PARAMS \<noteq> UBLK_U_CMD_ADD_DEV"
  "UBLK_U_CMD_GET_PARAMS \<noteq> UBLK_U_CMD_GET_DEV_INFO2"
  by (simp_all add: consts_simps command_numbers)

lemma knows_device_drv:
  assumes "knows_device i drv"
  shows "sqe_cmd_op sqe = UBLK_U_CMD_ADD_DEV \<Longrightarrow> drv sqe = (Error EEXIST, NoPayload)"
    and "sqe_cmd_op sqe = UBLK_U_CMD_GET_DEV_INFO2 \<Longrightarrow> drv sqe = (Value 0, PInfo i)"
    and "sqe_cmd_op sqe \<noteq> UBLK_U_CMD_ADD_DEV \<Longrightarrow> sqe_cmd_op sqe \<noteq> UBLK_U_CMD_GET_DEV_INFO2 \<Longrightarrow>
      \<exists>p. drv sqe = (Value 0, p)"
  using assms [unfolded knows_device_def, rule_format, of sqe] command_ne
  by (auto simp: prod_eq_iff)

lemma knows_device_add_dev:
  "knows_device i drv \<Longrightarrow>
   raw_add_dev (logging drv) fd d log = ((Error EEXIST, NoPayload), log @ [add_dev_sqe fd d])"
  by (simp add: add_dev_sends logging_def knows_device_drv(1) add_dev_sqe_def buf_sqe_def)

lemma knows_device_get_dev_info:
  "knows_device i drv \<Longrightarrow>
   control_get_dev_info (logging drv) fd dev_id d log = (Value i, log @ [info_sqe fd dev_id])"
  by (simp add: control_get_dev_info_def retry_def get_dev_info_attempt_def ctrl_errno_def await_def
      co_return_def raw_get_dev_info2_def ctrl_cmd_def logging_def knows_device_drv(2) info_sqe_def buf_sqe_def DevPathBuf_def
      consts_simps)

lemma knows_device_command:
  assumes "knows_device i drv" and "sqe_cmd_op sqe \<noteq> UBLK_U_CMD_ADD_DEV" and "sqe_cmd_op sqe \<noteq> UBLK_U_CMD_GET_DEV_INFO2"
  shows "\<exists>p. k_ctrl (logging drv) sqe log = ((Value 0, p), log @ [sqe])"
  using knows_device_drv(3) [OF assms] by (auto simp: logging_def)

lemma knows_device_send_path:
  assumes "knows_device i drv" and "op \<noteq> UBLK_U_CMD_ADD_DEV" and "op \<noteq> UBLK_U_CMD_GET_DEV_INFO2"
  shows "send_path (logging drv) info fd op d log = (Value (), log @ [path_sqe info fd op d])"
  using knows_device_command [OF assms(1), of "path_sqe info fd op d" log] assms(2,3)
  by (auto simp: send_path_def ctrl_await_def path_sqe_def co_return_def Let_def split: prod.splits)

lemma params_sqe_op: "sqe_cmd_op (params_sqe info fd op params) = op"
  by (simp add: params_sqe_def buf_sqe_def)

lemma knows_device_params:
  assumes "knows_device i drv"
  shows "control_set_params (logging drv) (WithInfo (Some i)) fd (di_dev_id i) params log =
      (Value (), log @ [params_sqe i fd UBLK_U_CMD_SET_PARAMS params])"
    and "\<exists>v. control_get_params (logging drv) (WithInfo (Some i)) fd (di_dev_id i) params log =
      (Value v, log @ [params_sqe i fd UBLK_U_CMD_GET_PARAMS (if bit (di_flags i) 5 then zero_params else params)])"
proof -
  have c: "cached_get_dev_info (logging drv) (WithInfo (Some i)) fd (di_dev_id i) zero_info log = (Value i, log)"
    by (simp add: cached_hit co_return_def)
  obtain p where "k_ctrl (logging drv) (params_sqe i fd UBLK_U_CMD_SET_PARAMS params) log =
      ((Value 0, p), log @ [params_sqe i fd UBLK_U_CMD_SET_PARAMS params])"
    using knows_device_command [OF assms, of "params_sqe i fd UBLK_U_CMD_SET_PARAMS params"] command_ne
    by (auto simp: params_sqe_op)
  then show "control_set_params (logging drv) (WithInfo (Some i)) fd (di_dev_id i) params log =
      (Value (), log @ [params_sqe i fd UBLK_U_CMD_SET_PARAMS params])"
    by (simp add: set_params_fetched [OF c refl] ctrl_await_def co_return_def)
  let ?get = "params_sqe i fd UBLK_U_CMD_GET_PARAMS (if bit (di_flags i) 5 then zero_params else params)"
  obtain p where g: "k_ctrl (logging drv) ?get log = ((Value 0, p), log @ [?get])"
    using knows_device_command [OF assms, of ?get] command_ne by (auto simp: params_sqe_op)
  show "\<exists>v. control_get_params (logging drv) (WithInfo (Some i)) fd (di_dev_id i) params log = (Value v, log @ [?get])"
    using g
    by (cases "bit (di_flags i) 5")
      (simp_all add: control_get_params_def cached_hit Let_def raw_simps flag_bits await_def co_return_def ctrl_await_def
        ctrl_cmd_def params_sqe_def buf_sqe_def DevPathBuf_def consts_simps)
qed

lemma knows_device_setup:
  assumes "knows_device i drv" and "di_dev_id info \<noteq> - 1"
  shows "setup_device (logging drv) NoQuery fd info log = (Value (False, i),
    log @ [add_dev_sqe fd info, info_sqe fd (di_dev_id info)] @
      (if bit (di_flags i) 3 \<and> need_recovery i then [path_sqe i fd UBLK_U_CMD_START_USER_RECOVERY 0] else []))"
  using assms
  by (simp add: setup_device_def task_invoke_def daemon_setup_def knows_device_add_dev setup_existing_def
      await_def knows_device_get_dev_info co_return_def flag_bits control_path_cached
      knows_device_send_path command_ne)

text \<open>Writing the parameters of a dead device, reading those of any other.\<close>

definition configure_sqe :: "ublksrv_ctrl_dev_info \<Rightarrow> int \<Rightarrow> ublk_params \<Rightarrow> ctrl_sqe" where
  "configure_sqe i fd params =
     (if di_state i = UBLK_S_DEV_DEAD then params_sqe i fd UBLK_U_CMD_SET_PARAMS params
      else params_sqe i fd UBLK_U_CMD_GET_PARAMS (if bit (di_flags i) 5 then zero_params else params))"

lemma knows_device_configure:
  assumes "knows_device i drv"
  shows "\<exists>v. configure (logging drv) NoQuery fd (di_dev_id i) params log = (Value v,
    log @ [info_sqe fd (di_dev_id i), configure_sqe i fd params])"
  using knows_device_params [OF assms, of fd params "log @ [info_sqe fd (di_dev_id i)]"]
    knows_device_get_dev_info [OF assms]
  by (auto simp: configure_def task_invoke_def daemon_configure_def cached_get_dev_info_def await_def co_return_def
      configure_sqe_def)

lemma knows_device_start:
  assumes "knows_device i drv"
  shows "start (logging drv) NoQuery fd (di_dev_id i) pid log =
    (if need_recovery i
     then if bit (di_flags i) 3
          then (Value (), log @ [info_sqe fd (di_dev_id i), path_sqe i fd UBLK_U_CMD_END_USER_RECOVERY (of_int pid)])
          else (Error (RuntimeError ''device can neither be started nor recovered''),
                log @ [info_sqe fd (di_dev_id i)])
     else (Value (), log @ [info_sqe fd (di_dev_id i), path_sqe i fd UBLK_U_CMD_START_DEV (of_int pid)]))"
  using assms
  by (simp add: start_def task_invoke_def daemon_start_def cached_get_dev_info_def await_def
      knows_device_get_dev_info flag_bits control_path_cached throw_def knows_device_send_path command_ne)

text \<open>
  C14. Bringing up a device the driver already has, command by command with all they carry: the
  device is added with the caller's description, found to exist and described; the recovery
  handshake is opened by \<^verbatim>\<open>setup\<close> exactly when it is closed by \<^verbatim>\<open>start\<close> (a quiesced or failing device
  with user recovery), with the process id of the daemon; the parameters are written only to a
  dead device and read otherwise. A quiesced or failing device without user recovery is neither
  started nor recovered: \<^verbatim>\<open>setup\<close> and \<^verbatim>\<open>configure\<close> succeed and the daemon gets a runtime error from
  \<^verbatim>\<open>start\<close> after the last query, although the guide promises that a device \<^verbatim>\<open>setup\<close> has accepted can
  be started.
\<close>

theorem bring_up_existing_device:
  assumes k: "knows_device i drv" and d: "di_dev_id info \<noteq> - 1"
  shows "bring_up (logging drv) fd info params pid [] =
    (let stuck = di_state i \<in> {UBLK_S_DEV_QUIESCED, UBLK_S_DEV_FAIL_IO}; rec = stuck \<and> bit (di_flags i) 3 in
     (if stuck \<and> \<not> rec then Error (RuntimeError ''device can neither be started nor recovered'') else Value (),
      [add_dev_sqe fd info, info_sqe fd (di_dev_id info)] @
      (if rec then [path_sqe i fd UBLK_U_CMD_START_USER_RECOVERY 0] else []) @
      [info_sqe fd (di_dev_id i),
       if di_state i = UBLK_S_DEV_DEAD then params_sqe i fd UBLK_U_CMD_SET_PARAMS params
       else params_sqe i fd UBLK_U_CMD_GET_PARAMS (if bit (di_flags i) 5 then zero_params else params),
       info_sqe fd (di_dev_id i)] @
      (if rec then [path_sqe i fd UBLK_U_CMD_END_USER_RECOVERY (of_int pid)]
       else if stuck then [] else [path_sqe i fd UBLK_U_CMD_START_DEV (of_int pid)]))) \<and>
    fst (setup_device (logging drv) NoQuery fd info []) = Value (False, i)"
proof -
  let ?log = "[add_dev_sqe fd info, info_sqe fd (di_dev_id info)] @
      (if bit (di_flags i) 3 \<and> need_recovery i then [path_sqe i fd UBLK_U_CMD_START_USER_RECOVERY 0] else [])"
  obtain v where "configure (logging drv) NoQuery fd (di_dev_id i) params ?log = (Value v,
    ?log @ [info_sqe fd (di_dev_id i), configure_sqe i fd params])"
    using knows_device_configure [OF k] by blast
  then show ?thesis
    using knows_device_setup [OF k d, of fd "[]"] knows_device_start [OF k]
    by (auto simp: bring_up_def await_def need_recovery_def Let_def configure_sqe_def)
qed

definition quiesced_driver :: "ctrl_sqe \<Rightarrow> (error_code, s32) outcome \<times> ctrl_payload" where
  "quiesced_driver sqe =
     (if sqe_cmd_op sqe = UBLK_U_CMD_ADD_DEV then (Error EEXIST, NoPayload)
      else if sqe_cmd_op sqe = UBLK_U_CMD_GET_DEV_INFO2
      then (Value 0, PInfo (zero_info\<lparr>di_state := 2, di_flags := 8\<rparr>))
      else (Value 0, NoPayload))"

theorem bring_up_existing_device_witness:
  "bring_up (logging quiesced_driver) 3 zero_info zero_params 42 [] =
     (Value (), [add_dev_sqe 3 zero_info, info_sqe 3 0,
        path_sqe (zero_info\<lparr>di_state := 2, di_flags := 8\<rparr>) 3 UBLK_U_CMD_START_USER_RECOVERY 0,
        info_sqe 3 0, params_sqe (zero_info\<lparr>di_state := 2, di_flags := 8\<rparr>) 3 UBLK_U_CMD_GET_PARAMS zero_params, info_sqe 3 0,
        path_sqe (zero_info\<lparr>di_state := 2, di_flags := 8\<rparr>) 3 UBLK_U_CMD_END_USER_RECOVERY 42])"
proof -
  have "knows_device (zero_info\<lparr>di_state := 2, di_flags := 8\<rparr>) quiesced_driver"
    by (simp add: knows_device_def quiesced_driver_def)
  from bring_up_existing_device [OF this, of zero_info 3 zero_params 42] show ?thesis
    by (simp add: zero_info_def consts_simps Let_def bit_numeral_word_iff)
qed

end
