(* ===== verification/Ublk_Queue.thy ===== *)
theory Ublk_Queue
  imports Ublk_Daemon "HOL-Library.Multiset"
begin

text \<open>
  What the two queue classes of \<^verbatim>\<open>detail/queue.hpp\<close> share: the buffer predicates, the place of the
  I/O descriptors in the character device's mapping, the handler result conversions, the memory
  a queue object owns, and the constructor and clean-up of \<^verbatim>\<open>IoQueue\<close>.
\<close>

section \<open>Buffers and descriptors\<close>

definition need_alloc_buf :: "u64 \<Rightarrow> bool" where
  "need_alloc_buf flags \<longleftrightarrow> \<not> has_flag flags (UBLK_F_SUPPORT_ZERO_COPY OR UBLK_F_USER_COPY)"

definition need_io_buf :: "u64 \<Rightarrow> u32 \<Rightarrow> bool" where
  "need_io_buf flags op_flags =
     (let zero_copy = has_flag flags UBLK_F_SUPPORT_ZERO_COPY;
          auto_reg = has_flag flags UBLK_F_AUTO_BUF_REG;
          need_reg_buf = has_flag op_flags UBLK_IO_F_NEED_REG_BUF
      in need_reg_buf \<or> (zero_copy \<and> \<not> auto_reg))"

definition io_desc_offset :: "u64 \<Rightarrow> u64" where
  "io_desc_offset q_id =
     UBLKSRV_CMD_BUF_OFFSET + q_id * of_nat UBLK_MAX_QUEUE_DEPTH * of_nat sizeof_ublksrv_io_desc"

lemma need_alloc_buf_bits: "need_alloc_buf flags \<longleftrightarrow> \<not> bit flags 0 \<and> \<not> bit flags 7"
  by (simp add: need_alloc_buf_def has_flag_or flag_bits)

lemma io_desc_offset_unat: "unat (io_desc_offset (ucast (q_id :: u16))) = unat q_id * 98304"
proof -
  have "unat q_id < 65536" using unsigned_less [of q_id] by simp
  then have "unat (of_nat (unat q_id * 98304) :: u64) = unat q_id * 98304"
    by (subst unsigned_of_nat) (simp add: take_bit_nat_eq_self del: of_nat_mult)
  moreover have "io_desc_offset (ucast q_id) = of_nat (unat q_id * 98304)"
    by (simp add: io_desc_offset_def consts_simps mult.assoc)
  ultimately show ?thesis by simp
qed

text \<open>
  The descriptor areas that two queues of a device map are disjoint, page aligned and below
  the area of the user-copy data, for every queue depth and queue number the driver supports.
\<close>

theorem io_desc_areas_disjoint:
  assumes "unat (q :: u16) < UBLK_MAX_NR_QUEUES" and "q < q'" and "depth \<le> UBLK_MAX_QUEUE_DEPTH"
  shows "unat (io_desc_offset (ucast q)) + depth * sizeof_ublksrv_io_desc \<le> unat (io_desc_offset (ucast q')) \<and>
    4096 dvd unat (io_desc_offset (ucast q)) \<and>
    unat (io_desc_offset (ucast q)) + depth * sizeof_ublksrv_io_desc < unat UBLKSRV_IO_BUF_OFFSET"
proof -
  have "unat q + 1 \<le> unat q'" using assms(2) by (simp add: word_less_nat_alt)
  then have "unat q * 98304 + 98304 \<le> unat q' * 98304" by linarith
  moreover have "depth * 24 \<le> 98304" using assms(3) by (simp add: consts_simps)
  moreover have "unat q * 98304 + 98304 < 2147483648" using assms(1) by (simp add: consts_simps)
  moreover have "4096 dvd unat q * 98304"
    by (rule dvd_mult) (simp add: dvd_eq_mod_eq_0)
  ultimately show ?thesis by (simp add: io_desc_offset_unat consts_simps)
qed

theorem io_desc_areas_disjoint_witness:
  "unat (io_desc_offset (ucast (3 :: u16))) + 128 * sizeof_ublksrv_io_desc \<le> unat (io_desc_offset (ucast (4 :: u16)))"
  using io_desc_areas_disjoint [of 3 4 128] by (simp add: consts_simps)

section \<open>Handler results\<close>

text \<open>
  What a handler's sender may complete with: an integer, a struct with a \<open>res\<close> field and possibly
  a \<open>zone_lba\<close> field, or an error code as a value; its error channel carries an error code, an
  exception or something else.
\<close>

datatype io_result = IntResult int | StructResult int "u64 option"

datatype handler_value = IoResult io_result | CodeValue error_code

datatype handler_error = CodeError error_code | ExceptionPtr exn | OtherError

fun extract_io_result :: "io_result \<Rightarrow> s32 \<times> u64" where
  "extract_io_result (IntResult r) = (to_s32 r, 0)"
| "extract_io_result (StructResult res lba) = (to_s32 res, case lba of Some l \<Rightarrow> l | None \<Rightarrow> 0)"

fun normalize_error :: "handler_error \<Rightarrow> error_code \<Rightarrow> error_code" where
  "normalize_error (CodeError ec) v = ec"
| "normalize_error (ExceptionPtr (SystemError ec _)) v = ec"
| "normalize_error (ExceptionPtr _) v = v"
| "normalize_error OtherError v = v"

fun io_value :: "handler_value \<Rightarrow> s32 \<times> u64" where
  "io_value (CodeValue ec) = (to_s32 (- ec), 0)"
| "io_value (IoResult r) = extract_io_result r"

definition wrap_handle_io :: "('w, handler_error, handler_value) sender \<Rightarrow> ('w, exn, s32 \<times> u64) sender" where
  "wrap_handle_io s =
     then_value
       (upon_error (stopped_as_error s (CodeError ECANCELED)) (\<lambda>err. CodeValue (normalize_error err EIO)))
       io_value"

lemma in_s32_io_value: "io_value v = (res, lba) \<Longrightarrow> in_s32 res"
proof (cases v)
  case (IoResult r)
  then show "io_value v = (res, lba) \<Longrightarrow> in_s32 res" by (cases r) auto
qed auto

text \<open>The result of one completion of the handler, after \<open>wrap_handle_io\<close>.\<close>

definition io_outcome :: "(handler_error, handler_value) outcome \<Rightarrow> s32 \<times> u64" where
  "io_outcome c = (case c of
      Value r \<Rightarrow> io_value r
    | Error e \<Rightarrow> (to_s32 (- normalize_error e EIO), 0)
    | Stopped \<Rightarrow> (- ECANCELED, 0))"

lemma in_s32_io_outcome: "io_outcome c = (res, lba) \<Longrightarrow> in_s32 res"
  by (cases c) (auto simp: io_outcome_def consts_simps in_s32_def [of "- 125"] intro: in_s32_io_value)

lemma wrap_handle_io_total:
  "wrap_handle_io s w = (Value (io_outcome (fst (s w))), snd (s w))"
  by (auto simp: wrap_handle_io_def then_value_def upon_error_def stopped_as_error_def io_outcome_def
      consts_simps to_s32_def split: prod.splits outcome.splits)

text \<open>
  C30. Whatever a handler's sender completes with, the wrapped sender completes with a value, so a
  failing or cancelled handler never takes its worker down: a system error becomes its negated
  code, any other exception \<open>-EIO\<close> and a stopped handler \<open>-ECANCELED\<close>, each with no zone address,
  and the result always fits the 32-bit field it is committed in.
\<close>

theorem handler_failures_are_results:
  "\<exists>res lba. wrap_handle_io s w = (Value (res, lba), snd (s w)) \<and> in_s32 res \<and>
     (\<forall>r. fst (s w) = Value (IoResult (IntResult r)) \<longrightarrow> res = to_s32 r \<and> lba = 0) \<and>
     (\<forall>r l. fst (s w) = Value (IoResult (StructResult r (Some l))) \<longrightarrow> res = to_s32 r \<and> lba = l) \<and>
     (\<forall>ec msg. fst (s w) = Error (ExceptionPtr (SystemError ec msg)) \<longrightarrow> res = to_s32 (- ec) \<and> lba = 0) \<and>
     (\<forall>msg. fst (s w) = Error (ExceptionPtr (RuntimeError msg)) \<longrightarrow> res = - 5 \<and> lba = 0) \<and>
     (fst (s w) = Stopped \<longrightarrow> res = - 125 \<and> lba = 0)"
proof -
  obtain res lba where r: "io_outcome (fst (s w)) = (res, lba)" by fastforce
  have "in_s32 res" using r by (rule in_s32_io_outcome)
  moreover have "wrap_handle_io s w = (Value (res, lba), snd (s w))"
    by (simp add: wrap_handle_io_total r)
  ultimately show ?thesis
    using r by (auto simp: io_outcome_def consts_simps to_s32_def)
qed

theorem handler_failures_are_results_witness:
  "fst (wrap_handle_io (\<lambda>w. (Stopped, w)) ()) = Value (- 125, 0)"
proof -
  obtain res lba where "wrap_handle_io (\<lambda>w. (Stopped, w)) () = (Value (res, lba), ())"
    and "res = - 125 \<and> lba = 0"
    using handler_failures_are_results [of "\<lambda>w. (Stopped, w)" "()"] by auto
  then show ?thesis by simp
qed

section \<open>Memory\<close>

text \<open>
  The memory system is a parameter: what \<^verbatim>\<open>mmap\<close>, \<^verbatim>\<open>mlock\<close>, \<^verbatim>\<open>alloc_aligned\<close> and the growth of a
  vector answer may depend on everything that happened before, which the log of memory events
  records. \<open>Inl\<close> is an errno, \<open>None\<close> a \<^verbatim>\<open>std::bad_alloc\<close>. The releasing calls do not fail.
\<close>

datatype mem_event =
    Mmap u64 nat u64
  | Munmap u64 nat
  | AllocAligned u64 nat nat
  | FreeAligned u64 nat nat
  | Mlock u64 nat
  | Munlock u64 nat

record os =
  os_mmap :: "mem_event list \<Rightarrow> nat \<Rightarrow> int \<Rightarrow> u64 \<Rightarrow> int + u64"
  os_alloc :: "mem_event list \<Rightarrow> nat \<Rightarrow> nat \<Rightarrow> u64 option"
  os_mlock :: "mem_event list \<Rightarrow> u64 \<Rightarrow> nat \<Rightarrow> int option"
  os_reserve :: "mem_event list \<Rightarrow> nat \<Rightarrow> bool"
  os_page :: nat

text \<open>
  The meaning of a log: the mappings, blocks and locks held at its end, \<open>None\<close> when a mapping or
  block is released that is not held. Unlocking memory that is not locked has no effect.
\<close>

datatype resource = Mapping u64 nat | Block u64 nat nat | Locked u64 nat

fun mem_apply :: "mem_event \<Rightarrow> resource multiset \<Rightarrow> resource multiset option" where
  "mem_apply (Mmap a n off) M = Some (add_mset (Mapping a n) M)"
| "mem_apply (AllocAligned a n al) M = Some (add_mset (Block a n al) M)"
| "mem_apply (Mlock a n) M = Some (add_mset (Locked a n) M)"
| "mem_apply (Munmap a n) M = (if Mapping a n \<in># M then Some (M - {#Mapping a n#}) else None)"
| "mem_apply (FreeAligned a n al) M = (if Block a n al \<in># M then Some (M - {#Block a n al#}) else None)"
| "mem_apply (Munlock a n) M = Some (M - {#Locked a n#})"

fun mem_run :: "mem_event list \<Rightarrow> resource multiset \<Rightarrow> resource multiset option" where
  "mem_run [] M = Some M"
| "mem_run (e # es) M = (case mem_apply e M of Some M' \<Rightarrow> mem_run es M' | None \<Rightarrow> None)"

abbreviation held :: "mem_event list \<Rightarrow> resource multiset option" where
  "held log \<equiv> mem_run log {#}"

lemma mem_run_append:
  "mem_run (xs @ ys) M = (case mem_run xs M of Some M' \<Rightarrow> mem_run ys M' | None \<Rightarrow> None)"
  by (induction xs arbitrary: M) (auto split: option.splits)

text \<open>
  An object with a constructor that may throw and a clean-up that cannot: the contract every
  owner of memory has to meet, and what a scope that constructs, uses and destroys the object
  then guarantees.
\<close>

locale owner =
  fixes sane :: bool
    and ctor :: "mem_event list \<Rightarrow> (exn + 'q) \<times> mem_event list"
    and dtor :: "'q \<Rightarrow> mem_event list \<Rightarrow> mem_event list"
  assumes ctor_throws: "sane \<Longrightarrow> held log = Some M \<Longrightarrow> ctor log = (Inl e, log') \<Longrightarrow> held log' = Some M"
    and ctor_dtor: "sane \<Longrightarrow> held log = Some M \<Longrightarrow> ctor log = (Inr q, log') \<Longrightarrow>
      \<exists>N. held log' = Some (N + M) \<and> (\<forall>log2. held log2 = Some (N + M) \<longrightarrow> held (dtor q log2) = Some M)"
begin

lemma scope_balanced:
  assumes sane and "held log = Some M"
    and "\<And>q log'. ctor log = (Inr q, log') \<Longrightarrow> held (body q log') = held log'"
  shows "held (case ctor log of (Inl e, log') \<Rightarrow> log' | (Inr q, log') \<Rightarrow> dtor q (body q log')) = Some M"
proof (cases "ctor log")
  case (Pair r log')
  show ?thesis
  proof (cases r)
    case (Inl e)
    with Pair ctor_throws [OF assms(1,2), of e log'] show ?thesis by simp
  next
    case (Inr q)
    with Pair have c: "ctor log = (Inr q, log')" by simp
    from ctor_dtor [OF assms(1,2) c] obtain N where "held log' = Some (N + M)"
      and d: "\<And>log2. held log2 = Some (N + M) \<Longrightarrow> held (dtor q log2) = Some M" by blast
    with assms(3) [OF c] have "held (dtor q (body q log')) = Some M" by simp
    with c show ?thesis by simp
  qed
qed

end

section \<open>Constructor and clean-up of \<^verbatim>\<open>IoQueue\<close>\<close>

record io_queue =
  q_ublkc_fd :: uring_fd
  q_q_id :: u16
  q_flags :: u64
  q_queue_depth :: u16
  q_max_io_buf_bytes :: u32
  q_iod_base :: u64
  q_buf_bases :: "u64 list"

text \<open>
  \<^verbatim>\<open>alloc_aligned\<close> and \<^verbatim>\<open>free_aligned\<close> of \<^verbatim>\<open>detail/utils.hpp\<close>: the allocator's memory resource or the aligned
  \<^verbatim>\<open>operator new\<close> answers, and a block is given back with the size and alignment it was requested with.
\<close>

definition alloc_aligned :: "os \<Rightarrow> nat \<Rightarrow> nat \<Rightarrow> mem_event list \<Rightarrow> (u64 \<times> mem_event list) option" where
  "alloc_aligned os bytes alignment log =
     map_option (\<lambda>a. (a, log @ [AllocAligned a bytes alignment])) (os_alloc os log bytes alignment)"

definition free_aligned :: "u64 \<Rightarrow> nat \<Rightarrow> nat \<Rightarrow> mem_event list" where
  "free_aligned ptr bytes alignment = [FreeAligned ptr bytes alignment]"

declare alloc_aligned_def [simp] free_aligned_def [simp]

text \<open>The loop that fills \<^verbatim>\<open>buf_bases_\<close>; the flag says whether it ended without an exception.\<close>

fun alloc_bufs :: "os \<Rightarrow> nat \<Rightarrow> nat \<Rightarrow> u64 list \<Rightarrow> mem_event list \<Rightarrow> bool \<times> u64 list \<times> mem_event list" where
  "alloc_bufs os bytes 0 bufs log = (True, bufs, log)"
| "alloc_bufs os bytes (Suc n) bufs log =
     (case alloc_aligned os bytes (os_page os) log of
        None \<Rightarrow> (False, bufs, log)
      | Some (a, log') \<Rightarrow> alloc_bufs os bytes n (bufs @ [a]) log')"

lemma alloc_bufs_numeral [simp]:
  "alloc_bufs os bytes (numeral k) bufs log =
     (case alloc_aligned os bytes (os_page os) log of
        None \<Rightarrow> (False, bufs, log)
      | Some (a, log') \<Rightarrow> alloc_bufs os bytes (pred_numeral k) (bufs @ [a]) log')"
  by (simp add: numeral_eq_Suc)

definition iod_size :: "u16 \<Rightarrow> nat" where
  "iod_size queue_depth = unat queue_depth * sizeof_ublksrv_io_desc"

definition IoQueue_body :: "os \<Rightarrow> int \<Rightarrow> io_queue \<Rightarrow> mem_event list \<Rightarrow> exn option \<times> io_queue \<times> mem_event list" where
  "IoQueue_body os ublkc_fd_raw q log =
     (let size = iod_size (q_queue_depth q); off = io_desc_offset (ucast (q_q_id q)) in
      case os_mmap os log size ublkc_fd_raw off of
        Inl errno \<Rightarrow> (Some (SystemError errno ''mmap io_desc''), q, log)
      | Inr addr \<Rightarrow>
          let q1 = q\<lparr>q_iod_base := addr\<rparr>; log1 = log @ [Mmap addr size off] in
          if need_alloc_buf (q_flags q)
          then if os_reserve os log1 (unat (q_queue_depth q))
               then case alloc_bufs os (unat (q_max_io_buf_bytes q)) (unat (q_queue_depth q)) [] log1 of
                   (ok, bufs, log2) \<Rightarrow> (if ok then None else Some BadAlloc, q1\<lparr>q_buf_bases := bufs\<rparr>, log2)
               else (Some BadAlloc, q1, log1)
          else (None, q1, log1))"

definition free_bufs :: "os \<Rightarrow> nat \<Rightarrow> u64 list \<Rightarrow> mem_event list" where
  "free_bufs os bytes bufs = concat (map (\<lambda>a. free_aligned a bytes (os_page os)) bufs)"

definition IoQueue_cleanup :: "os \<Rightarrow> io_queue \<Rightarrow> mem_event list \<Rightarrow> mem_event list" where
  "IoQueue_cleanup os q log =
     log @ free_bufs os (unat (q_max_io_buf_bytes q)) (q_buf_bases q) @
     (if q_iod_base q \<noteq> 0 then [Munmap (q_iod_base q) (iod_size (q_queue_depth q))] else [])"

definition IoQueue ::
  "os \<Rightarrow> uring_fd \<Rightarrow> int \<Rightarrow> u16 \<Rightarrow> u64 \<Rightarrow> u16 \<Rightarrow> u32 \<Rightarrow> mem_event list \<Rightarrow> (exn + io_queue) \<times> mem_event list" where
  "IoQueue os ublkc_fd ublkc_fd_raw q_id flags queue_depth max_io_buf_bytes log =
     (case IoQueue_body os ublkc_fd_raw \<lparr>q_ublkc_fd = ublkc_fd, q_q_id = q_id, q_flags = flags,
          q_queue_depth = queue_depth, q_max_io_buf_bytes = max_io_buf_bytes, q_iod_base = 0,
          q_buf_bases = []\<rparr> log of
        (None, q, log') \<Rightarrow> (Inr q, log')
      | (Some e, q, log') \<Rightarrow> (Inl e, IoQueue_cleanup os q log'))"

definition get_buf :: "u64 list \<Rightarrow> u16 \<Rightarrow> u64" where
  "get_buf buf_bases tag = (if buf_bases = [] then 0 else buf_bases ! unat tag)"

text \<open>
  The documented behaviour of the memory system: a mapping or block never has the null address,
  and a new block is not locked yet.
\<close>

definition sane_os :: "os \<Rightarrow> bool" where
  "sane_os os \<longleftrightarrow>
     (\<forall>log n fd off a. os_mmap os log n fd off = Inr a \<longrightarrow> a \<noteq> 0) \<and>
     (\<forall>log n al a. os_alloc os log n al = Some a \<longrightarrow> a \<noteq> 0 \<and>
        (\<forall>M k. held log = Some M \<longrightarrow> Locked a k \<notin># M))"

definition bufs_of :: "os \<Rightarrow> nat \<Rightarrow> u64 list \<Rightarrow> resource multiset" where
  "bufs_of os bytes bufs = mset (map (\<lambda>a. Block a bytes (os_page os)) bufs)"

lemma alloc_bufs_held:
  "alloc_bufs os bytes n bufs log = (ok, bufs', log') \<Longrightarrow> mem_run log M0 = Some (bufs_of os bytes bufs + M) \<Longrightarrow>
   mem_run log' M0 = Some (bufs_of os bytes bufs' + M) \<and> (ok \<longrightarrow> length bufs' = length bufs + n) \<and>
   (\<forall>a\<in>set bufs'. a \<in> set bufs \<or> (\<exists>log. os_alloc os log bytes (os_page os) = Some a))"
proof (induction n arbitrary: bufs log)
  case (Suc n)
  show ?case
  proof (cases "os_alloc os log bytes (os_page os)")
    case (Some a)
    with Suc.prems Suc.IH [of "bufs @ [a]" "log @ [AllocAligned a bytes (os_page os)]"] show ?thesis
      by (fastforce simp: mem_run_append bufs_of_def)
  qed (use Suc.prems in auto)
qed simp

lemma free_bufs_held: "mem_run (free_bufs os bytes bufs) (bufs_of os bytes bufs + M) = Some M"
  by (induction bufs) (auto simp: free_bufs_def bufs_of_def)

lemma free_bufs_held_add [simp]:
  "mem_run (free_bufs os bytes bufs) (add_mset r (bufs_of os bytes bufs + M)) = Some (add_mset r M)"
  using free_bufs_held [of os bytes bufs "add_mset r M"] by simp

lemma IoQueue_body_held:
  assumes "sane_os os" and "mem_run log M0 = Some M" and "q_iod_base q = 0" and "q_buf_bases q = []"
    and "IoQueue_body os fd q log = (e, q', log')"
  shows "\<exists>N. mem_run log' M0 = Some (N + M) \<and>
    (\<forall>log2 M2. mem_run log2 M2 = Some (N + M) \<longrightarrow> mem_run (IoQueue_cleanup os q' log2) M2 = Some M)"
proof (cases "os_mmap os log (iod_size (q_queue_depth q)) fd (io_desc_offset (ucast (q_q_id q)))")
  case (Inl errno)
  with assms show ?thesis
    by (auto simp: IoQueue_body_def Let_def IoQueue_cleanup_def free_bufs_def intro!: exI [of _ "{#}"])
next
  case (Inr addr)
  let ?size = "iod_size (q_queue_depth q)" and ?bytes = "unat (q_max_io_buf_bytes q)"
  let ?log1 = "log @ [Mmap addr ?size (io_desc_offset (ucast (q_q_id q)))]"
  have nz: "addr \<noteq> 0" using assms(1) Inr by (auto simp: sane_os_def)
  have log1: "mem_run ?log1 M0 = Some (add_mset (Mapping addr ?size) M)"
    using assms(2) by (simp add: mem_run_append)
  obtain bufs where q': "q' = q\<lparr>q_iod_base := addr, q_buf_bases := bufs\<rparr>"
    and log': "mem_run log' M0 = Some (bufs_of os ?bytes bufs + add_mset (Mapping addr ?size) M)"
  proof (cases "need_alloc_buf (q_flags q) \<and> os_reserve os ?log1 (unat (q_queue_depth q))")
    case True
    obtain ok bufs log2 where a: "alloc_bufs os ?bytes (unat (q_queue_depth q)) [] ?log1 = (ok, bufs, log2)"
      by (metis prod_cases3)
    with True Inr assms(5) have "q' = q\<lparr>q_iod_base := addr, q_buf_bases := bufs\<rparr>" "log' = log2"
      by (auto simp: IoQueue_body_def Let_def split: if_splits)
    then show ?thesis
      using that alloc_bufs_held [OF a, of M0 "add_mset (Mapping addr ?size) M"] log1
      by (simp add: bufs_of_def)
  next
    case False
    with Inr assms(4,5) have "q' = q\<lparr>q_iod_base := addr, q_buf_bases := []\<rparr>" "log' = ?log1"
      by (auto simp: IoQueue_body_def Let_def split: if_splits)
    then show ?thesis using that [of "[]"] log1 by (simp add: bufs_of_def)
  qed
  have "mem_run (IoQueue_cleanup os q' log2) M2 = Some M"
    if "mem_run log2 M2 = Some (bufs_of os ?bytes bufs + add_mset (Mapping addr ?size) M)" for log2 M2
    using that nz
    by (simp add: q' IoQueue_cleanup_def mem_run_append)
  with log' show ?thesis
    by (intro exI [of _ "add_mset (Mapping addr ?size) (bufs_of os ?bytes bufs)"]) simp
qed

interpretation io_queue: owner "sane_os os"
  "IoQueue os ublkc_fd ublkc_fd_raw q_id flags queue_depth max_io_buf_bytes" "IoQueue_cleanup os"
  for os ublkc_fd ublkc_fd_raw q_id flags queue_depth max_io_buf_bytes
proof unfold_locales
  let ?ctor = "IoQueue os ublkc_fd ublkc_fd_raw q_id flags queue_depth max_io_buf_bytes"
  let ?q0 = "\<lparr>q_ublkc_fd = ublkc_fd, q_q_id = q_id, q_flags = flags, q_queue_depth = queue_depth,
     q_max_io_buf_bytes = max_io_buf_bytes, q_iod_base = 0, q_buf_bases = []\<rparr>"
  fix log M e log' q assume sane: "sane_os os" and h: "held log = Some M"
  obtain r q1 log1 where b: "IoQueue_body os ublkc_fd_raw ?q0 log = (r, q1, log1)" by (metis prod_cases3)
  from IoQueue_body_held [OF sane h _ _ b] obtain N where N: "held log1 = Some (N + M)"
    and c: "\<And>log2. held log2 = Some (N + M) \<Longrightarrow> held (IoQueue_cleanup os q1 log2) = Some M" by auto
  show "held log' = Some M" if "?ctor log = (Inl e, log')"
    using that b N c by (auto simp: IoQueue_def split: option.splits)
  show "\<exists>N. held log' = Some (N + M) \<and>
      (\<forall>log2. held log2 = Some (N + M) \<longrightarrow> held (IoQueue_cleanup os q log2) = Some M)"
    if "?ctor log = (Inr q, log')"
    using that b N c by (auto simp: IoQueue_def split: option.splits)
qed

text \<open>
  C40. A queue object never leaks and never frees twice: if its constructor throws, whichever step
  failed, the memory held is what was held before; if it succeeds, destroying the object after
  any use that keeps the memory held gives back everything the constructor acquired.
\<close>

theorem io_queue_memory_balanced:
  assumes "sane_os os" and "held log = Some M"
    and "\<And>q log'. IoQueue os fd raw q_id flags depth bytes log = (Inr q, log') \<Longrightarrow> held (body q log') = held log'"
  shows "held (case IoQueue os fd raw q_id flags depth bytes log of
      (Inl e, log') \<Rightarrow> log' | (Inr q, log') \<Rightarrow> IoQueue_cleanup os q (body q log')) = Some M"
  using assms by (rule io_queue.scope_balanced)

text \<open>A memory system that hands out three blocks and then throws, and locks nothing.\<close>

definition small_os :: os where
  "small_os = \<lparr>os_mmap = (\<lambda>log n fd off. Inr 4096),
     os_alloc = (\<lambda>log n al. if length log < 4 \<and> (\<forall>a k. Mlock a k \<notin> set log)
       then Some (if log = [] then 8192 else 16384) else None),
     os_mlock = (\<lambda>log a n. Some 12), os_reserve = (\<lambda>log n. True), os_page = 4096\<rparr>"

lemma no_mlock_no_lock:
  "(\<forall>a k. Mlock a k \<notin> set log) \<Longrightarrow> mem_run log M = Some N \<Longrightarrow> Locked a k \<in># N \<Longrightarrow> Locked a k \<in># M"
proof (induction log arbitrary: M)
  case (Cons e log)
  then obtain M' where "mem_apply e M = Some M'" and "Locked a k \<in># M'"
    by (auto split: option.splits)
  with Cons.prems(1) show ?case
    by (cases e) (auto split: if_splits dest!: in_diffD)
qed simp

lemma sane_small_os: "sane_os small_os"
  using no_mlock_no_lock [of _ "{#}"] by (auto simp: sane_os_def small_os_def split: if_splits)

theorem io_queue_memory_balanced_witness:
  "IoQueue small_os (RawFd 5) 5 0 0 8 512 [] = (Inl BadAlloc,
     [Mmap 4096 192 0, AllocAligned 16384 512 4096, AllocAligned 16384 512 4096, AllocAligned 16384 512 4096,
      FreeAligned 16384 512 4096, FreeAligned 16384 512 4096, FreeAligned 16384 512 4096, Munmap 4096 192]) \<and>
   held [Mmap 4096 192 0, AllocAligned 16384 512 4096, AllocAligned 16384 512 4096, AllocAligned 16384 512 4096,
      FreeAligned 16384 512 4096, FreeAligned 16384 512 4096, FreeAligned 16384 512 4096, Munmap 4096 192] = Some {#}"
proof -
  have c: "IoQueue small_os (RawFd 5) 5 0 0 8 512 [] = (Inl BadAlloc,
     [Mmap 4096 192 0, AllocAligned 16384 512 4096, AllocAligned 16384 512 4096, AllocAligned 16384 512 4096,
      FreeAligned 16384 512 4096, FreeAligned 16384 512 4096, FreeAligned 16384 512 4096, Munmap 4096 192])"
    by (simp add: IoQueue_def IoQueue_body_def small_os_def Let_def need_alloc_buf_def iod_size_def
        io_desc_offset_def consts_simps IoQueue_cleanup_def free_bufs_def)
  with io_queue_memory_balanced [OF sane_small_os, of "[]" "{#}" "RawFd 5" 5 0 0 8 512 "\<lambda>q l. l"] show ?thesis by simp
qed

end
