(* ===== verification/Ublk_Batch_Layout.thy ===== *)
theory Ublk_Batch_Layout
  imports Ublk_Queue
begin

text \<open>
  The memory of \<^verbatim>\<open>BatchIoQueue\<close> in \<^verbatim>\<open>detail/queue.hpp\<close>: its constructor and clean-up, and the
  byte layout of the two commit buffers, against the element format that \<^verbatim>\<open>ublk_cmd.h\<close> documents
  for batch commands.
\<close>

section \<open>Bytes\<close>

text \<open>
  Integers are stored in little-endian order, the order of the supported machines. A store
  outside the memory is \<open>None\<close>.
\<close>

definition le_bytes :: "nat \<Rightarrow> 'a::len word \<Rightarrow> u8 list" where
  "le_bytes n w = map (\<lambda>i. ucast (drop_bit (8 * i) w)) [0..<n]"

fun of_bytes :: "u8 list \<Rightarrow> 'a::len word" where
  "of_bytes [] = 0"
| "of_bytes (b # bs) = ucast b OR push_bit 8 (of_bytes bs)"

definition store :: "nat \<Rightarrow> u8 list \<Rightarrow> u8 list \<Rightarrow> u8 list option" where
  "store off bs m =
     (if off + length bs \<le> length m then Some (take off m @ bs @ drop (off + length bs) m) else None)"

definition load :: "nat \<Rightarrow> nat \<Rightarrow> u8 list \<Rightarrow> u8 list" where
  "load off n m = take n (drop off m)"

lemma length_le_bytes [simp]: "length (le_bytes n w) = n"
  by (simp add: le_bytes_def)

lemma bit_of_bytes:
  "bit (of_bytes bs :: 'a::len word) n \<longleftrightarrow> n < LENGTH('a) \<and> n < 8 * length bs \<and> bit (bs ! (n div 8)) (n mod 8)"
proof (induction bs arbitrary: n)
  case (Cons b bs)
  show ?case
  proof (cases "n < 8")
    case True
    then show ?thesis by (auto simp: bit_simps dest: bit_imp_le_length)
  next
    case False
    then have "n div 8 = Suc ((n - 8) div 8)" "n mod 8 = (n - 8) mod 8" by (simp_all add: le_div_geq le_mod_geq)
    with False Cons.IH [of "n - 8"] show ?thesis
      by (auto simp: bit_simps dest: bit_imp_le_length)
  qed
qed simp

lemma of_le_bytes: "LENGTH('a) \<le> 8 * n \<Longrightarrow> of_bytes (le_bytes n w) = (w :: 'a::len word)"
proof (rule bit_word_eqI)
  fix k assume n: "LENGTH('a) \<le> 8 * n" and k: "k < LENGTH('a)"
  then have "k div 8 < n" by (simp add: div_less_iff_less_mult mult.commute)
  with n k show "bit (of_bytes (le_bytes n w) :: 'a word) k = bit w k"
    by (simp add: bit_of_bytes le_bytes_def bit_simps)
qed

interpretation le16: codec "le_bytes 2" "of_bytes :: u8 list \<Rightarrow> u16" "\<lambda>_. True"
  by unfold_locales (simp add: of_le_bytes)

lemma sint_of_s32: "in_s32 i \<Longrightarrow> sint (of_int i :: u32) = i"
  by (simp add: in_s32_def signed_of_int signed_take_bit_int_eq_self)

interpretation le32: codec "\<lambda>i. le_bytes 4 (of_int i :: u32)" "\<lambda>bs. sint (of_bytes bs :: u32)" in_s32
  by unfold_locales (simp add: of_le_bytes sint_of_s32)

interpretation le64: codec "le_bytes 8" "of_bytes :: u8 list \<Rightarrow> u64" "\<lambda>_. True"
  by unfold_locales (simp add: of_le_bytes)

lemma store_length: "store off bs m = Some m' \<Longrightarrow> length m' = length m"
  by (auto simp: store_def split: if_splits)

lemma load_store_same: "store off bs m = Some m' \<Longrightarrow> load off (length bs) m' = bs"
  by (auto simp: store_def load_def split: if_splits)

lemma load_store_other:
  assumes "store off bs m = Some m'" and "off' + n \<le> off \<or> off + length bs \<le> off'"
  shows "load off' n m' = load off' n m"
proof -
  have m': "m' = take off m @ bs @ drop (off + length bs) m" and len: "off + length bs \<le> length m"
    using assms(1) by (auto simp: store_def split: if_splits)
  show ?thesis
  proof (cases "off' + n \<le> off")
    case True
    then show ?thesis using len by (auto simp: m' load_def drop_take min_def)
  next
    case False
    then have "off + length bs \<le> off'" using assms(2) by simp
    then show ?thesis using len by (simp add: m' load_def)
  qed
qed

lemma load_load: "i + k \<le> n \<Longrightarrow> take k (drop i (load off n m)) = load (off + i) k m"
  by (simp add: load_def drop_take add.commute min_def)

section \<open>The queue object\<close>

record batch_queue =
  bq_ublkc_fd :: uring_fd
  bq_q_id :: u16
  bq_flags :: u64
  bq_queue_depth :: u16
  bq_max_io_buf_bytes :: u32
  bq_iod_base :: u64
  bq_commit_buf_size :: nat
  bq_commit_buf :: u64
  bq_fetch_buf_size :: nat
  bq_fetch_buf :: u64
  bq_buf_bases :: "u64 list"

definition need_f_buf_addr :: "u64 \<Rightarrow> bool" where
  "need_f_buf_addr flags \<longleftrightarrow> \<not> has_flag flags UBLK_F_AUTO_BUF_REG \<and> need_alloc_buf flags"

definition need_f_zone_lba :: "u64 \<Rightarrow> bool" where
  "need_f_zone_lba flags \<longleftrightarrow> has_flag flags UBLK_F_ZONED"

definition get_batch_flags :: "u64 \<Rightarrow> u16" where
  "get_batch_flags flags =
     (let f = (if has_flag flags UBLK_F_AUTO_BUF_REG then UBLK_BATCH_F_AUTO_BUF_REG_FALLBACK
               else if need_f_buf_addr flags then UBLK_BATCH_F_HAS_BUF_ADDR else 0)
      in if need_f_zone_lba flags then f OR UBLK_BATCH_F_HAS_ZONE_LBA else f)"

definition commit_element_size :: "u64 \<Rightarrow> nat" where
  "commit_element_size flags =
     sizeof_ublk_elem_header + (if need_f_buf_addr flags then 8 else 0) + (if need_f_zone_lba flags then 8 else 0)"

text \<open>
  The commit memory is one block holding both buffers, buffer 1 behind buffer 0; a reference into
  it is an offset. \<open>None\<close> is a failed assertion, an index outside \<^verbatim>\<open>buf_bases_\<close> or a store outside
  the block.
\<close>

definition commit_f_hdr :: "batch_queue \<Rightarrow> nat \<Rightarrow> nat \<Rightarrow> nat" where
  "commit_f_hdr q index pos = index * bq_commit_buf_size q + pos * commit_element_size (bq_flags q)"

definition commit_f_buf_addr :: "batch_queue \<Rightarrow> nat \<Rightarrow> nat \<Rightarrow> nat option" where
  "commit_f_buf_addr q index pos =
     (if need_f_buf_addr (bq_flags q) then Some (commit_f_hdr q index pos + sizeof_ublk_elem_header) else None)"

definition commit_f_zone_lba :: "batch_queue \<Rightarrow> nat \<Rightarrow> nat \<Rightarrow> nat option" where
  "commit_f_zone_lba q index pos =
     (if need_f_zone_lba (bq_flags q)
      then Some (commit_f_hdr q index pos + sizeof_ublk_elem_header + (if need_f_buf_addr (bq_flags q) then 8 else 0))
      else None)"

definition set_result :: "batch_queue \<Rightarrow> nat \<Rightarrow> nat \<Rightarrow> u16 \<Rightarrow> s32 \<Rightarrow> u8 list \<Rightarrow> u8 list option" where
  "set_result q index pos tag res m =
     (let hdr = commit_f_hdr q index pos in
      Option.bind (store hdr (le_bytes 2 tag) m) (\<lambda>m1.
      Option.bind (store (hdr + 4) (le_bytes 4 (of_int res :: u32)) m1) (\<lambda>m2.
      if has_flag (bq_flags q) UBLK_F_AUTO_BUF_REG then store (hdr + 2) (le_bytes 2 tag) m2
      else if need_f_buf_addr (bq_flags q)
      then if unat tag < length (bq_buf_bases q)
           then Option.bind (commit_f_buf_addr q index pos) (\<lambda>off.
             store off (le_bytes 8 (bq_buf_bases q ! unat tag)) m2)
           else None
      else Some m2)))"

definition set_zone_lba :: "batch_queue \<Rightarrow> nat \<Rightarrow> nat \<Rightarrow> u64 \<Rightarrow> u8 list \<Rightarrow> u8 list option" where
  "set_zone_lba q index pos lba m =
     (if need_f_zone_lba (bq_flags q)
      then Option.bind (commit_f_zone_lba q index pos) (\<lambda>off. store off (le_bytes 8 lba) m)
      else None)"

section \<open>What the driver reads\<close>

text \<open>The element format of \<^verbatim>\<open>ublk_cmd.h\<close>: the header, then the fields the batch flags announce.\<close>

record batch_elem =
  el_tag :: u16
  el_buf_index :: u16
  el_result :: s32
  el_buf_addr :: "u64 option"
  el_zone_lba :: "u64 option"

definition decode_elem :: "u16 \<Rightarrow> u8 list \<Rightarrow> batch_elem" where
  "decode_elem bflags bs =
     (let lba_off = (if has_flag bflags UBLK_BATCH_F_HAS_BUF_ADDR then 16 else 8) in
      \<lparr>el_tag = of_bytes (load 0 2 bs), el_buf_index = of_bytes (load 2 2 bs),
       el_result = sint (of_bytes (load 4 4 bs) :: u32),
       el_buf_addr = (if has_flag bflags UBLK_BATCH_F_HAS_BUF_ADDR then Some (of_bytes (load 8 8 bs)) else None),
       el_zone_lba = (if has_flag bflags UBLK_BATCH_F_HAS_ZONE_LBA then Some (of_bytes (load lba_off 8 bs)) else None)\<rparr>)"

definition elem_at :: "batch_queue \<Rightarrow> nat \<Rightarrow> nat \<Rightarrow> u8 list \<Rightarrow> batch_elem" where
  "elem_at q index pos m =
     decode_elem (get_batch_flags (bq_flags q)) (load (commit_f_hdr q index pos) (commit_element_size (bq_flags q)) m)"

lemma batch_flag_bits:
  "has_flag (get_batch_flags flags) UBLK_BATCH_F_HAS_BUF_ADDR \<longleftrightarrow> need_f_buf_addr flags"
  "has_flag (get_batch_flags flags) UBLK_BATCH_F_HAS_ZONE_LBA \<longleftrightarrow> need_f_zone_lba flags"
  "has_flag (get_batch_flags flags) UBLK_BATCH_F_AUTO_BUF_REG_FALLBACK \<longleftrightarrow> has_flag flags UBLK_F_AUTO_BUF_REG"
  by (auto simp: get_batch_flags_def Let_def UBLK_BATCH_F_HAS_BUF_ADDR_def UBLK_BATCH_F_HAS_ZONE_LBA_def
      UBLK_BATCH_F_AUTO_BUF_REG_FALLBACK_def has_flag_def need_f_buf_addr_def)

text \<open>A result waiting in a commit buffer: its tag, result and, for a zone append, the zone address.\<close>

record batch_entry =
  en_tag :: u16
  en_res :: s32
  en_lba :: "u64 option"

definition put_entry :: "batch_queue \<Rightarrow> nat \<Rightarrow> nat \<Rightarrow> batch_entry \<Rightarrow> u8 list \<Rightarrow> u8 list option" where
  "put_entry q index pos e m =
     Option.bind (set_result q index pos (en_tag e) (en_res e) m) (\<lambda>m1.
       case en_lba e of Some lba \<Rightarrow> set_zone_lba q index pos lba m1 | None \<Rightarrow> Some m1)"

definition holds_entry :: "batch_queue \<Rightarrow> nat \<Rightarrow> nat \<Rightarrow> batch_entry \<Rightarrow> u8 list \<Rightarrow> bool" where
  "holds_entry q index pos e m \<longleftrightarrow>
     (let el = elem_at q index pos m in
      el_tag el = en_tag e \<and> el_result el = en_res e \<and>
      (has_flag (bq_flags q) UBLK_F_AUTO_BUF_REG \<longrightarrow> el_buf_index el = en_tag e) \<and>
      el_buf_addr el = (if need_f_buf_addr (bq_flags q) then Some (bq_buf_bases q ! unat (en_tag e)) else None) \<and>
      (en_lba e \<noteq> None \<longrightarrow> el_zone_lba el = en_lba e))"

definition valid_entry :: "batch_queue \<Rightarrow> batch_entry \<Rightarrow> bool" where
  "valid_entry q e \<longleftrightarrow> en_tag e < bq_queue_depth q \<and> in_s32 (en_res e) \<and>
     (en_lba e \<noteq> None \<longrightarrow> need_f_zone_lba (bq_flags q))"

text \<open>What the constructor establishes about the commit buffers.\<close>

definition batch_wf :: "batch_queue \<Rightarrow> bool" where
  "batch_wf q \<longleftrightarrow>
     unat (bq_queue_depth q) * commit_element_size (bq_flags q) \<le> bq_commit_buf_size q \<and>
     (need_alloc_buf (bq_flags q) \<longrightarrow> length (bq_buf_bases q) = unat (bq_queue_depth q))"

definition commit_mem :: "batch_queue \<Rightarrow> u8 list \<Rightarrow> bool" where
  "commit_mem q m \<longleftrightarrow> length m = 2 * bq_commit_buf_size q"

lemma store_ok: "off + length bs \<le> length m \<Longrightarrow> \<exists>m'. store off bs m = Some m' \<and> length m' = length m"
  by (simp add: store_def)

lemma element_size_cases:
  "commit_element_size flags =
     8 + (if need_f_buf_addr flags then 8 else 0) + (if need_f_zone_lba flags then 8 else 0)"
  by (simp add: commit_element_size_def consts_simps)

lemma slot_bound:
  assumes "batch_wf q" and "index < 2" and "pos < unat (bq_queue_depth q)"
  shows "commit_f_hdr q index pos + commit_element_size (bq_flags q) \<le> Suc index * bq_commit_buf_size q"
proof -
  have "(pos + 1) * commit_element_size (bq_flags q) \<le> unat (bq_queue_depth q) * commit_element_size (bq_flags q)"
    using assms(3) by (intro mult_right_mono) simp_all
  also have "\<dots> \<le> bq_commit_buf_size q" using assms(1) by (simp add: batch_wf_def)
  finally show ?thesis by (simp add: commit_f_hdr_def)
qed

lemma slot_in_mem:
  assumes "batch_wf q" and "index < 2" and "pos < unat (bq_queue_depth q)"
  shows "commit_f_hdr q index pos + commit_element_size (bq_flags q) \<le> 2 * bq_commit_buf_size q"
  using slot_bound [OF assms] assms(2) mult_le_mono1 [of "Suc index" 2 "bq_commit_buf_size q"] by linarith

lemma slots_disjoint_less:
  assumes "batch_wf q" and "i' < 2" and "p < unat (bq_queue_depth q)" and "i < i' \<or> i = i' \<and> p < p'"
  shows "commit_f_hdr q i p + commit_element_size (bq_flags q) \<le> commit_f_hdr q i' p'"
  using assms(4)
proof
  assume "i < i'"
  then have "Suc i * bq_commit_buf_size q \<le> i' * bq_commit_buf_size q" by (intro mult_right_mono) simp_all
  with slot_bound [OF assms(1) _ assms(3), of i] \<open>i < i'\<close> assms(2) show ?thesis
    by (simp add: commit_f_hdr_def)
next
  assume "i = i' \<and> p < p'"
  then have "i = i'" and "p + 1 \<le> p'" by simp_all
  moreover from this have "(p + 1) * commit_element_size (bq_flags q) \<le> p' * commit_element_size (bq_flags q)"
    by (intro mult_right_mono) simp_all
  ultimately show ?thesis by (simp add: commit_f_hdr_def)
qed

lemma slots_disjoint:
  assumes "batch_wf q" and "i < 2" and "i' < 2"
    and "p < unat (bq_queue_depth q)" and "p' < unat (bq_queue_depth q)" and "(i, p) \<noteq> (i', p')"
  shows "commit_f_hdr q i p + commit_element_size (bq_flags q) \<le> commit_f_hdr q i' p' \<or>
    commit_f_hdr q i' p' + commit_element_size (bq_flags q) \<le> commit_f_hdr q i p"
  using slots_disjoint_less [OF assms(1,3,4)] slots_disjoint_less [OF assms(1,2,5)] assms(6)
  by (metis linorder_neqE_nat)

lemma elem_at_fields:
  "el_tag (elem_at q i p m) = of_bytes (load (commit_f_hdr q i p) 2 m)"
  "el_buf_index (elem_at q i p m) = of_bytes (load (commit_f_hdr q i p + 2) 2 m)"
  "el_result (elem_at q i p m) = sint (of_bytes (load (commit_f_hdr q i p + 4) 4 m) :: u32)"
  "el_buf_addr (elem_at q i p m) =
     (if need_f_buf_addr (bq_flags q) then Some (of_bytes (load (commit_f_hdr q i p + 8) 8 m)) else None)"
  "el_zone_lba (elem_at q i p m) =
     (if need_f_zone_lba (bq_flags q)
      then Some (of_bytes (load (commit_f_hdr q i p + (if need_f_buf_addr (bq_flags q) then 16 else 8)) 8 m)) else None)"
  by (simp_all add: elem_at_def decode_elem_def Let_def batch_flag_bits load_def [of 0] load_def [of 2]
      load_def [of 4] load_def [of 8] load_def [of 16] load_load element_size_cases)
    (simp_all add: load_def min_def)

text \<open>The store sequence of \<^verbatim>\<open>set_result_\<close> stays inside its element and leaves the fields as written.\<close>

lemma set_result_fields:
  assumes "hdr = commit_f_hdr q i p" and "hdr + commit_element_size (bq_flags q) \<le> length m"
    and "need_f_buf_addr (bq_flags q) \<Longrightarrow> unat tag < length (bq_buf_bases q)"
  shows "\<exists>m'. set_result q i p tag res m = Some m' \<and> length m' = length m \<and>
    load hdr 2 m' = le_bytes 2 tag \<and> load (hdr + 4) 4 m' = le_bytes 4 (of_int res :: u32) \<and>
    (has_flag (bq_flags q) UBLK_F_AUTO_BUF_REG \<longrightarrow> load (hdr + 2) 2 m' = le_bytes 2 tag) \<and>
    (need_f_buf_addr (bq_flags q) \<longrightarrow> load (hdr + 8) 8 m' = le_bytes 8 (bq_buf_bases q ! unat tag)) \<and>
    (\<forall>off n. off + n \<le> hdr \<or> hdr + commit_element_size (bq_flags q) \<le> off \<longrightarrow> load off n m' = load off n m)"
proof -
  let ?f = "bq_flags q"
  have e: "hdr + 8 \<le> length m" and e2: "need_f_buf_addr ?f \<Longrightarrow> hdr + 16 \<le> length m"
    using assms(2) by (auto simp: element_size_cases split: if_splits)
  obtain m1 where m1: "store hdr (le_bytes 2 tag) m = Some m1" "length m1 = length m"
    using store_ok [of hdr "le_bytes 2 tag" m] e by auto
  obtain m2 where m2: "store (hdr + 4) (le_bytes 4 (of_int res :: u32)) m1 = Some m2" "length m2 = length m"
    using store_ok [of "hdr + 4" "le_bytes 4 (of_int res :: u32)" m1] e m1 by auto
  note same = load_store_same [OF m1(1)] load_store_same [OF m2(1)]
  note other = load_store_other [OF m1(1)] load_store_other [OF m2(1)]
  consider "has_flag ?f UBLK_F_AUTO_BUF_REG" | "need_f_buf_addr ?f"
    | "\<not> has_flag ?f UBLK_F_AUTO_BUF_REG" "\<not> need_f_buf_addr ?f" by blast
  then show ?thesis
  proof cases
    case 1
    obtain m3 where m3: "store (hdr + 2) (le_bytes 2 tag) m2 = Some m3" "length m3 = length m"
      using store_ok [of "hdr + 2" "le_bytes 2 tag" m2] e m2 by auto
    with 1 m1 m2 assms(1) show ?thesis
      using same other load_store_same [OF m3(1)] load_store_other [OF m3(1)]
      by (intro exI [of _ m3]) (auto simp: set_result_def Let_def need_f_buf_addr_def element_size_cases)
  next
    case 2
    obtain m3 where m3: "store (hdr + 8) (le_bytes 8 (bq_buf_bases q ! unat tag)) m2 = Some m3" "length m3 = length m"
      using store_ok [of "hdr + 8" "le_bytes 8 (bq_buf_bases q ! unat tag)" m2] e2 2 m2 by auto
    moreover have "\<not> has_flag ?f UBLK_F_AUTO_BUF_REG" using 2 by (simp add: need_f_buf_addr_def)
    ultimately show ?thesis
      using 2 m1 m2 assms(1,3) same other load_store_same [OF m3(1)] load_store_other [OF m3(1)]
      by (intro exI [of _ m3]) (auto simp: set_result_def Let_def commit_f_buf_addr_def consts_simps element_size_cases)
  next
    case 3
    with m1 m2 assms(1) same other show ?thesis
      by (intro exI [of _ m2]) (auto simp: set_result_def Let_def element_size_cases)
  qed
qed

lemma put_entry_fields:
  assumes "batch_wf q" and "commit_mem q m" and "i < 2" and "p < unat (bq_queue_depth q)" and "valid_entry q e"
  shows "\<exists>m'. put_entry q i p e m = Some m' \<and> commit_mem q m' \<and> holds_entry q i p e m' \<and>
    (\<forall>off n. off + n \<le> commit_f_hdr q i p \<or> commit_f_hdr q i p + commit_element_size (bq_flags q) \<le> off \<longrightarrow>
       load off n m' = load off n m)"
proof -
  let ?hdr = "commit_f_hdr q i p" and ?f = "bq_flags q"
  have bound: "?hdr + commit_element_size ?f \<le> length m"
    using slot_in_mem [OF assms(1,3,4)] assms(2) by (simp add: commit_mem_def)
  have tag: "need_f_buf_addr ?f \<Longrightarrow> unat (en_tag e) < length (bq_buf_bases q)"
    using assms(1,5) by (simp add: batch_wf_def need_f_buf_addr_def valid_entry_def word_less_nat_alt)
  obtain m1 where m1: "set_result q i p (en_tag e) (en_res e) m = Some m1" "length m1 = length m"
    and l1: "load ?hdr 2 m1 = le_bytes 2 (en_tag e)" "load (?hdr + 4) 4 m1 = le_bytes 4 (of_int (en_res e) :: u32)"
      "has_flag ?f UBLK_F_AUTO_BUF_REG \<Longrightarrow> load (?hdr + 2) 2 m1 = le_bytes 2 (en_tag e)"
      "need_f_buf_addr ?f \<Longrightarrow> load (?hdr + 8) 8 m1 = le_bytes 8 (bq_buf_bases q ! unat (en_tag e))"
    and o1: "\<And>off n. off + n \<le> ?hdr \<or> ?hdr + commit_element_size ?f \<le> off \<Longrightarrow> load off n m1 = load off n m"
    using set_result_fields [OF refl bound tag, of "en_res e"] by auto
  have res: "in_s32 (en_res e)" using assms(5) by (simp add: valid_entry_def)
  note dec = l1 elem_at_fields of_le_bytes sint_of_s32 [OF res]
  show ?thesis
  proof (cases "en_lba e")
    case None
    with m1 assms(2) o1 show ?thesis
      by (intro exI [of _ m1]) (auto simp: put_entry_def commit_mem_def holds_entry_def Let_def dec simp del: add_2_eq_Suc')
  next
    case (Some lba)
    let ?off = "?hdr + (if need_f_buf_addr ?f then 16 else 8)"
    have z: "need_f_zone_lba ?f" using Some assms(5) by (simp add: valid_entry_def)
    obtain m2 where m2: "store ?off (le_bytes 8 lba) m1 = Some m2" "length m2 = length m"
      using store_ok [of ?off "le_bytes 8 lba" m1] bound m1(2) z by (auto simp: element_size_cases split: if_splits)
    have put: "put_entry q i p e m = Some m2"
      using Some m1 m2 z
      by (auto simp: put_entry_def set_zone_lba_def commit_f_zone_lba_def consts_simps add.assoc)
    have keep: "load off n m2 = load off n m1" if "off + n \<le> ?off \<or> ?off + 8 \<le> off" for off n
      using load_store_other [OF m2(1)] that by simp
    have lba: "load ?off 8 m2 = le_bytes 8 lba" using load_store_same [OF m2(1)] by simp
    have "holds_entry q i p e m2"
      using Some z lba by (auto simp: holds_entry_def Let_def keep dec simp del: add_2_eq_Suc')
    moreover have "load off n m2 = load off n m"
      if "off + n \<le> ?hdr \<or> ?hdr + commit_element_size ?f \<le> off" for off n
      using that keep [of off n] o1 [of off n] z by (auto simp: element_size_cases split: if_splits)
    ultimately show ?thesis using put m2 assms(2) by (auto simp: commit_mem_def)
  qed
qed

section \<open>The commit buffers as an array of slots\<close>

text \<open>
  What the workers and the flusher rely on: two buffers of a fixed number of slots, where a write
  succeeds, is read back, and changes no other slot.
\<close>

locale slot_store =
  fixes wf :: bool
    and put :: "nat \<Rightarrow> nat \<Rightarrow> 'e \<Rightarrow> 'm \<Rightarrow> 'm option"
    and holds :: "nat \<Rightarrow> nat \<Rightarrow> 'e \<Rightarrow> 'm \<Rightarrow> bool"
    and mem_ok :: "'m \<Rightarrow> bool"
    and valid :: "'e \<Rightarrow> bool"
    and slots :: nat
  assumes put_ok: "wf \<Longrightarrow> mem_ok m \<Longrightarrow> i < 2 \<Longrightarrow> p < slots \<Longrightarrow> valid e \<Longrightarrow>
      \<exists>m'. put i p e m = Some m' \<and> mem_ok m' \<and> holds i p e m'"
    and put_other: "wf \<Longrightarrow> mem_ok m \<Longrightarrow> i < 2 \<Longrightarrow> p < slots \<Longrightarrow> valid e \<Longrightarrow> put i p e m = Some m' \<Longrightarrow>
      i' < 2 \<Longrightarrow> p' < slots \<Longrightarrow> (i', p') \<noteq> (i, p) \<Longrightarrow> holds i' p' e' m' = holds i' p' e' m"
begin

definition contents :: "nat \<Rightarrow> 'e list \<Rightarrow> 'm \<Rightarrow> bool" where
  "contents i es m \<longleftrightarrow> length es \<le> slots \<and> (\<forall>p < length es. holds i p (es ! p) m)"

lemma contents_Nil [simp]: "contents i [] m"
  by (simp add: contents_def)

lemma put_appends:
  assumes "wf" "mem_ok m" "i < 2" "valid e" "contents i es m" "length es < slots"
  shows "\<exists>m'. put i (length es) e m = Some m' \<and> mem_ok m' \<and> contents i (es @ [e]) m'"
proof -
  obtain m' where m': "put i (length es) e m = Some m'" "mem_ok m'" "holds i (length es) e m'"
    using put_ok assms by blast
  moreover have "holds i p (es ! p) m'" if "p < length es" for p
    using put_other [OF assms(1-3) assms(6) assms(4) m'(1), of i p] that assms by (auto simp: contents_def)
  ultimately show ?thesis using assms by (auto simp: contents_def nth_append less_Suc_eq)
qed

lemma put_keeps_other_buffer:
  assumes "wf" "mem_ok m" "i < 2" "valid e" "p < slots" "put i p e m = Some m'"
    and "i' < 2" "i' \<noteq> i" "contents i' es m"
  shows "contents i' es m'"
  using put_other [OF assms(1-3) assms(5,4,6,7)] assms(8,9) by (auto simp: contents_def)

end

interpretation commit_buf: slot_store "batch_wf q" "put_entry q" "holds_entry q" "commit_mem q" "valid_entry q"
  "unat (bq_queue_depth q)" for q
proof
  fix m e and i p :: nat assume a: "batch_wf q" "commit_mem q m" "i < 2" "p < unat (bq_queue_depth q)" "valid_entry q e"
  show "\<exists>m'. put_entry q i p e m = Some m' \<and> commit_mem q m' \<and> holds_entry q i p e m'"
    using put_entry_fields [OF a] by blast
  fix m' e' and i' p' :: nat assume p: "put_entry q i p e m = Some m'"
    and b: "i' < 2" "p' < unat (bq_queue_depth q)" "(i', p') \<noteq> (i, p)"
  have "load (commit_f_hdr q i' p') (commit_element_size (bq_flags q)) m' =
      load (commit_f_hdr q i' p') (commit_element_size (bq_flags q)) m"
    using put_entry_fields [OF a] p slots_disjoint [OF a(1) b(1) a(3) b(2) a(4) b(3)] by auto
  then show "holds_entry q i' p' e' m' = holds_entry q i' p' e' m"
    by (simp add: holds_entry_def elem_at_def)
qed

text \<open>The initial contents of the first buffer, as \<^verbatim>\<open>run\<close> fills it for the prepare command.\<close>

fun put_entries :: "batch_queue \<Rightarrow> nat \<Rightarrow> nat \<Rightarrow> batch_entry list \<Rightarrow> u8 list \<Rightarrow> u8 list option" where
  "put_entries q index pos [] m = Some m"
| "put_entries q index pos (e # es) m =
     Option.bind (put_entry q index pos e m) (put_entries q index (Suc pos) es)"

definition prep_entries :: "batch_queue \<Rightarrow> batch_entry list" where
  "prep_entries q = map (\<lambda>tag. \<lparr>en_tag = of_nat tag, en_res = 0, en_lba = None\<rparr>) [0..<unat (bq_queue_depth q)]"

definition prep_fill :: "batch_queue \<Rightarrow> u8 list \<Rightarrow> u8 list option" where
  "prep_fill q m = put_entries q 0 0 (prep_entries q) m"

lemma put_entries_contents:
  assumes "batch_wf q" and "i < 2" and "commit_mem q m" and "list_all (valid_entry q) es"
    and "commit_buf.contents q i ds m" and "length ds + length es \<le> unat (bq_queue_depth q)"
  shows "\<exists>m'. put_entries q i (length ds) es m = Some m' \<and> commit_mem q m' \<and>
    commit_buf.contents q i (ds @ es) m' \<and>
    (\<forall>off n. off + n \<le> i * bq_commit_buf_size q \<or> Suc i * bq_commit_buf_size q \<le> off \<longrightarrow>
       load off n m' = load off n m)"
  using assms(3-)
proof (induction es arbitrary: ds m)
  case (Cons e es)
  have p: "length ds < unat (bq_queue_depth q)" and v: "valid_entry q e" using Cons.prems by simp_all
  obtain m1 where m1: "put_entry q i (length ds) e m = Some m1" "commit_mem q m1"
      "commit_buf.contents q i (ds @ [e]) m1"
    using commit_buf.put_appends [OF assms(1) Cons.prems(1) assms(2) v Cons.prems(3) p] by blast
  have "commit_f_hdr q i (length ds) + commit_element_size (bq_flags q) \<le> Suc i * bq_commit_buf_size q"
    and "i * bq_commit_buf_size q \<le> commit_f_hdr q i (length ds)"
    using slot_bound [OF assms(1,2) p] by (simp_all add: commit_f_hdr_def)
  then have k: "load off n m1 = load off n m"
    if "off + n \<le> i * bq_commit_buf_size q \<or> Suc i * bq_commit_buf_size q \<le> off" for off n
    using put_entry_fields [OF assms(1) Cons.prems(1) assms(2) p v] m1(1) that by auto
  have "list_all (valid_entry q) es" "length (ds @ [e]) + length es \<le> unat (bq_queue_depth q)"
    using Cons.prems by simp_all
  from Cons.IH [OF m1(2) this(1) m1(3) this(2)] m1(1) k show ?case by (auto simp del: mult_Suc)
qed simp

text \<open>
  C9. Results written to consecutive slots of one commit buffer are read back by the driver exactly
  as written, in order: tag, result, buffer index or address and zone address of every element,
  for every combination of device flags, with the element size and batch flags the commands
  announce; no store leaves the block and no byte of the other buffer changes.
\<close>

theorem committed_elements_roundtrip:
  assumes "batch_wf q" and "length m = 2 * bq_commit_buf_size q" and "i < 2"
    and "list_all (valid_entry q) es" and "length es \<le> unat (bq_queue_depth q)"
  shows "\<exists>m'. put_entries q i 0 es m = Some m' \<and> length m' = length m \<and>
    (\<forall>p < length es. let el = elem_at q i p m' in
       el_tag el = en_tag (es ! p) \<and> el_result el = en_res (es ! p) \<and>
       (has_flag (bq_flags q) UBLK_F_AUTO_BUF_REG \<longrightarrow> el_buf_index el = en_tag (es ! p)) \<and>
       el_buf_addr el = (if need_f_buf_addr (bq_flags q) then Some (bq_buf_bases q ! unat (en_tag (es ! p))) else None) \<and>
       (en_lba (es ! p) \<noteq> None \<longrightarrow> el_zone_lba el = en_lba (es ! p))) \<and>
    load ((1 - i) * bq_commit_buf_size q) (bq_commit_buf_size q) m' =
      load ((1 - i) * bq_commit_buf_size q) (bq_commit_buf_size q) m"
proof -
  have "commit_mem q m" using assms(2) by (simp add: commit_mem_def)
  from put_entries_contents [OF assms(1,3) this assms(4), of "[]"] assms(5)
  obtain m' where m': "put_entries q i 0 es m = Some m'" "commit_mem q m'" "commit_buf.contents q i es m'"
    and k: "\<And>off n. off + n \<le> i * bq_commit_buf_size q \<or> Suc i * bq_commit_buf_size q \<le> off \<Longrightarrow>
       load off n m' = load off n m"
    by auto
  have "i = 0 \<or> i = 1" using assms(3) by auto
  then have "load ((1 - i) * bq_commit_buf_size q) (bq_commit_buf_size q) m' =
      load ((1 - i) * bq_commit_buf_size q) (bq_commit_buf_size q) m"
    by (intro k) auto
  with m' assms(2) show ?thesis
    unfolding commit_buf.contents_def holds_entry_def commit_mem_def by auto
qed

definition sample_batch :: batch_queue where
  "sample_batch = \<lparr>bq_ublkc_fd = RawFd 5, bq_q_id = 0, bq_flags = push_bit 8 1, bq_queue_depth = 2,
     bq_max_io_buf_bytes = 4096, bq_iod_base = 4096, bq_commit_buf_size = 64, bq_commit_buf = 8192,
     bq_fetch_buf_size = 64, bq_fetch_buf = 16384, bq_buf_bases = [32768, 65536]\<rparr>"

lemma sample_batch_wf: "batch_wf sample_batch"
  by (simp add: batch_wf_def sample_batch_def element_size_cases)

theorem committed_elements_roundtrip_witness:
  "\<exists>m'. put_entries sample_batch 1 0 [\<lparr>en_tag = 1, en_res = - 5, en_lba = Some 77\<rparr>] (replicate 128 0) = Some m' \<and>
     el_tag (elem_at sample_batch 1 0 m') = 1 \<and> el_result (elem_at sample_batch 1 0 m') = - 5 \<and>
     el_zone_lba (elem_at sample_batch 1 0 m') = Some 77"
proof -
  let ?es = "[\<lparr>en_tag = 1, en_res = - 5, en_lba = Some 77\<rparr>]"
  have "list_all (valid_entry sample_batch) ?es"
    by (simp add: valid_entry_def sample_batch_def in_s32_def need_f_zone_lba_def flag_bits bit_push_bit_iff)
  from committed_elements_roundtrip [OF sample_batch_wf _ _ this, of "replicate 128 0" 1]
  show ?thesis by (auto simp: sample_batch_def Let_def)
qed

section \<open>Constructor and clean-up of \<^verbatim>\<open>BatchIoQueue\<close>\<close>

text \<open>
  A page-aligned block that is locked into memory, as both the commit and the fetch buffers are.
  The result is the exception, if any, and the address stored in the member.
\<close>

definition alloc_locked :: "os \<Rightarrow> nat \<Rightarrow> string \<Rightarrow> mem_event list \<Rightarrow> exn option \<times> u64 \<times> mem_event list" where
  "alloc_locked os n what log =
     (case alloc_aligned os n (os_page os) log of
        None \<Rightarrow> (Some BadAlloc, 0, log)
      | Some (a, log1) \<Rightarrow>
          case os_mlock os log1 a n of
            Some errno \<Rightarrow> (Some (SystemError errno what), a, log1)
          | None \<Rightarrow> (None, a, log1 @ [Mlock a n]))"

definition release_locked :: "os \<Rightarrow> u64 \<Rightarrow> nat \<Rightarrow> mem_event list" where
  "release_locked os a n = (if a \<noteq> 0 then Munlock a n # free_aligned a n (os_page os) else [])"

text \<open>\<^verbatim>\<open>align_up\<close> fails only for a page size that is not a power of two.\<close>

definition page_align :: "os \<Rightarrow> nat \<Rightarrow> nat" where
  "page_align os n = (case align_up (of_nat n) (of_nat (os_page os)) of Some r \<Rightarrow> unat r | None \<Rightarrow> 0)"

definition BatchIoQueue_body ::
  "os \<Rightarrow> int \<Rightarrow> batch_queue \<Rightarrow> mem_event list \<Rightarrow> exn option \<times> batch_queue \<times> mem_event list" where
  "BatchIoQueue_body os ublkc_fd_raw q log =
     (let depth = unat (bq_queue_depth q); size = iod_size (bq_queue_depth q);
          off = io_desc_offset (ucast (bq_q_id q)) in
      case os_mmap os log size ublkc_fd_raw off of
        Inl errno \<Rightarrow> (Some (SystemError errno ''mmap io_desc''), q, log)
      | Inr addr \<Rightarrow>
          let log1 = log @ [Mmap addr size off];
              commit_size = page_align os (depth * commit_element_size (bq_flags q));
              q1 = q\<lparr>bq_iod_base := addr, bq_commit_buf_size := commit_size\<rparr> in
          case alloc_locked os (commit_size * 2) ''mlock commit_buf'' log1 of
            (Some e, a, log2) \<Rightarrow> (Some e, q1\<lparr>bq_commit_buf := a\<rparr>, log2)
          | (None, a, log2) \<Rightarrow>
              let fetch_size = page_align os (depth * 2);
                  q2 = q1\<lparr>bq_commit_buf := a, bq_fetch_buf_size := fetch_size\<rparr> in
              case alloc_locked os (fetch_size * 2) ''mlock fetch_buf'' log2 of
                (Some e, b, log3) \<Rightarrow> (Some e, q2\<lparr>bq_fetch_buf := b\<rparr>, log3)
              | (None, b, log3) \<Rightarrow>
                  let q3 = q2\<lparr>bq_fetch_buf := b\<rparr> in
                  if need_alloc_buf (bq_flags q)
                  then if os_reserve os log3 depth
                       then case alloc_bufs os (unat (bq_max_io_buf_bytes q)) depth [] log3 of
                           (ok, bufs, log4) \<Rightarrow>
                             (if ok then None else Some BadAlloc, q3\<lparr>bq_buf_bases := bufs\<rparr>, log4)
                       else (Some BadAlloc, q3, log3)
                  else (None, q3, log3))"

definition BatchIoQueue_cleanup :: "os \<Rightarrow> batch_queue \<Rightarrow> mem_event list \<Rightarrow> mem_event list" where
  "BatchIoQueue_cleanup os q log =
     log @ free_bufs os (unat (bq_max_io_buf_bytes q)) (bq_buf_bases q) @
     release_locked os (bq_fetch_buf q) (bq_fetch_buf_size q * 2) @
     release_locked os (bq_commit_buf q) (bq_commit_buf_size q * 2) @
     (if bq_iod_base q \<noteq> 0 then [Munmap (bq_iod_base q) (iod_size (bq_queue_depth q))] else [])"

definition BatchIoQueue ::
  "os \<Rightarrow> uring_fd \<Rightarrow> int \<Rightarrow> u16 \<Rightarrow> u64 \<Rightarrow> u16 \<Rightarrow> u32 \<Rightarrow> mem_event list \<Rightarrow> (exn + batch_queue) \<times> mem_event list" where
  "BatchIoQueue os ublkc_fd ublkc_fd_raw q_id flags queue_depth max_io_buf_bytes log =
     (case BatchIoQueue_body os ublkc_fd_raw \<lparr>bq_ublkc_fd = ublkc_fd, bq_q_id = q_id, bq_flags = flags,
          bq_queue_depth = queue_depth, bq_max_io_buf_bytes = max_io_buf_bytes, bq_iod_base = 0,
          bq_commit_buf_size = 0, bq_commit_buf = 0, bq_fetch_buf_size = 0, bq_fetch_buf = 0,
          bq_buf_bases = []\<rparr> log of
        (None, q, log') \<Rightarrow> (Inr q, log')
      | (Some e, q, log') \<Rightarrow> (Inl e, BatchIoQueue_cleanup os q log'))"

text \<open>What a locked block, complete or with the lock missing, contributes to the memory held.\<close>

definition locked_res :: "os \<Rightarrow> u64 \<Rightarrow> nat \<Rightarrow> bool \<Rightarrow> resource multiset" where
  "locked_res os a n locked =
     (if a = 0 then {#} else if locked then {#Block a n (os_page os), Locked a n#} else {#Block a n (os_page os)#})"

lemma alloc_locked_held:
  assumes "sane_os os" and "held log = Some M" and "alloc_locked os n what log = (e, a, log')"
  shows "\<exists>locked. held log' = Some (locked_res os a n locked + M) \<and> (a \<noteq> 0 \<longrightarrow> Locked a n \<notin># M)"
proof (cases "os_alloc os log n (os_page os)")
  case None
  with assms show ?thesis by (auto simp: alloc_locked_def locked_res_def)
next
  case (Some b)
  with assms(1,2) have b: "b \<noteq> 0" "Locked b n \<notin># M" by (auto simp: sane_os_def)
  let ?log1 = "log @ [AllocAligned b n (os_page os)]"
  have "a = b" and "log' = (if os_mlock os ?log1 b n = None then ?log1 @ [Mlock b n] else ?log1)"
    using Some assms(3) by (auto simp: alloc_locked_def Let_def split: option.splits)
  with b assms(2) show ?thesis
    by (intro exI [of _ "os_mlock os ?log1 b n = None"])
      (auto simp: mem_run_append locked_res_def add_mset_commute)
qed

lemma release_locked_held:
  assumes "a \<noteq> 0 \<longrightarrow> Locked a n \<notin># M"
  shows "mem_run (release_locked os a n) (locked_res os a n locked + M) = Some M"
  using assms by (auto simp: release_locked_def locked_res_def)

definition batch_res :: "os \<Rightarrow> batch_queue \<Rightarrow> bool \<Rightarrow> bool \<Rightarrow> resource multiset" where
  "batch_res os q lc lf =
     bufs_of os (unat (bq_max_io_buf_bytes q)) (bq_buf_bases q) +
     (locked_res os (bq_fetch_buf q) (bq_fetch_buf_size q * 2) lf +
      (locked_res os (bq_commit_buf q) (bq_commit_buf_size q * 2) lc +
       (if bq_iod_base q \<noteq> 0 then {#Mapping (bq_iod_base q) (iod_size (bq_queue_depth q))#} else {#})))"

lemma batch_cleanup_held:
  assumes "mem_run log M0 = Some (batch_res os q lc lf + M)"
    and "bq_commit_buf q \<noteq> 0 \<longrightarrow> Locked (bq_commit_buf q) (bq_commit_buf_size q * 2) \<notin># M"
    and "bq_fetch_buf q \<noteq> 0 \<longrightarrow> Locked (bq_fetch_buf q) (bq_fetch_buf_size q * 2) \<notin>#
      locked_res os (bq_commit_buf q) (bq_commit_buf_size q * 2) lc + M"
  shows "mem_run (BatchIoQueue_cleanup os q log) M0 = Some M"
proof -
  let ?m = "(if bq_iod_base q \<noteq> 0 then {#Mapping (bq_iod_base q) (iod_size (bq_queue_depth q))#} else {#}) + M"
  let ?c = "locked_res os (bq_commit_buf q) (bq_commit_buf_size q * 2) lc"
  have "mem_run (release_locked os (bq_commit_buf q) (bq_commit_buf_size q * 2)) (?c + ?m) = Some ?m"
    using assms(2) by (intro release_locked_held) auto
  moreover have "mem_run (release_locked os (bq_fetch_buf q) (bq_fetch_buf_size q * 2))
      (locked_res os (bq_fetch_buf q) (bq_fetch_buf_size q * 2) lf + (?c + ?m)) = Some (?c + ?m)"
    using assms(3) by (intro release_locked_held) auto
  ultimately show ?thesis
    using assms(1)
    by (simp add: BatchIoQueue_cleanup_def mem_run_append batch_res_def free_bufs_held add.assoc)
qed

text \<open>The last part of the constructor, which allocates the buffers of the tags where the server has them.\<close>

lemma batch_bufs_held:
  assumes h: "held log3 = Some N" and q: "bq_buf_bases q3 = []"
    and b: "(case eb of Some x \<Rightarrow> (Some x, q3, log3)
      | None \<Rightarrow> if need
          then if os_reserve os log3 depth
               then case alloc_bufs os bytes depth [] log3 of
                 (ok, bufs, log4) \<Rightarrow> (if ok then None else Some BadAlloc, q3\<lparr>bq_buf_bases := bufs\<rparr>, log4)
               else (Some BadAlloc, q3, log3)
          else (None, q3, log3)) = (e, q', log')"
  shows "\<exists>bufs. q' = q3\<lparr>bq_buf_bases := bufs\<rparr> \<and> held log' = Some (bufs_of os bytes bufs + N)"
proof (cases "eb = None \<and> need \<and> os_reserve os log3 depth")
  case True
  obtain ok bufs log4 where bufs: "alloc_bufs os bytes depth [] log3 = (ok, bufs, log4)" by (metis prod_cases3)
  with True b have "q' = q3\<lparr>bq_buf_bases := bufs\<rparr>" "log' = log4" by simp_all
  with alloc_bufs_held [OF bufs, of "{#}"] h show ?thesis by (auto simp: bufs_of_def [of _ _ "[]"])
next
  case False
  with b have "q' = q3" "log' = log3" by (auto split: option.splits if_splits)
  with h q show ?thesis by (intro exI [of _ "[]"]) (simp add: bufs_of_def)
qed

lemma batch_body_held:
  assumes sane: "sane_os os" and h: "held log = Some M"
    and q: "bq_iod_base q = 0" "bq_commit_buf q = 0" "bq_fetch_buf q = 0" "bq_buf_bases q = []"
    and b: "BatchIoQueue_body os fd q log = (e, q', log')"
  shows "\<exists>lc lf. held log' = Some (batch_res os q' lc lf + M) \<and>
    (bq_commit_buf q' \<noteq> 0 \<longrightarrow> Locked (bq_commit_buf q') (bq_commit_buf_size q' * 2) \<notin># M) \<and>
    (bq_fetch_buf q' \<noteq> 0 \<longrightarrow> Locked (bq_fetch_buf q') (bq_fetch_buf_size q' * 2) \<notin>#
      locked_res os (bq_commit_buf q') (bq_commit_buf_size q' * 2) lc + M)"
proof (cases "os_mmap os log (iod_size (bq_queue_depth q)) fd (io_desc_offset (ucast (bq_q_id q)))")
  case (Inl errno)
  with q b h show ?thesis
    by (auto simp: BatchIoQueue_body_def Let_def batch_res_def bufs_of_def locked_res_def)
next
  case (Inr addr)
  let ?depth = "unat (bq_queue_depth q)" and ?size = "iod_size (bq_queue_depth q)"
  let ?log1 = "log @ [Mmap addr ?size (io_desc_offset (ucast (bq_q_id q)))]"
  let ?cs = "page_align os (?depth * commit_element_size (bq_flags q))" and ?fs = "page_align os (?depth * 2)"
  let ?map = "{#Mapping addr ?size#}"
  have nz: "addr \<noteq> 0" using sane Inr by (auto simp: sane_os_def)
  have log1: "held ?log1 = Some (?map + M)" using h by (simp add: mem_run_append)
  obtain ea a log2 where a: "alloc_locked os (?cs * 2) ''mlock commit_buf'' ?log1 = (ea, a, log2)"
    by (metis prod_cases3)
  from alloc_locked_held [OF sane log1 a] obtain lc
    where log2: "held log2 = Some (locked_res os a (?cs * 2) lc + (?map + M))"
      and fa: "a \<noteq> 0 \<longrightarrow> Locked a (?cs * 2) \<notin># M" by auto
  show ?thesis
  proof (cases ea)
    case (Some x)
    with Inr a q b nz log2 fa show ?thesis
      by (intro exI [of _ lc])
        (auto simp: BatchIoQueue_body_def Let_def batch_res_def bufs_of_def locked_res_def [of _ 0] add.assoc)
  next
    case None
    obtain eb b' log3 where f: "alloc_locked os (?fs * 2) ''mlock fetch_buf'' log2 = (eb, b', log3)"
      by (metis prod_cases3)
    from alloc_locked_held [OF sane log2 f] obtain lf
      where log3: "held log3 = Some (locked_res os b' (?fs * 2) lf + (locked_res os a (?cs * 2) lc + (?map + M)))"
        and fb: "b' \<noteq> 0 \<longrightarrow> Locked b' (?fs * 2) \<notin># locked_res os a (?cs * 2) lc + M" by auto
    let ?q3 = "q\<lparr>bq_iod_base := addr, bq_commit_buf_size := ?cs, bq_commit_buf := a,
      bq_fetch_buf_size := ?fs, bq_fetch_buf := b'\<rparr>"
    have body: "(case eb of Some x \<Rightarrow> (Some x, ?q3, log3)
      | None \<Rightarrow> if need_alloc_buf (bq_flags q)
          then if os_reserve os log3 ?depth
               then case alloc_bufs os (unat (bq_max_io_buf_bytes q)) ?depth [] log3 of
                 (ok, bufs, log4) \<Rightarrow> (if ok then None else Some BadAlloc, ?q3\<lparr>bq_buf_bases := bufs\<rparr>, log4)
               else (Some BadAlloc, ?q3, log3)
          else (None, ?q3, log3)) = (e, q', log')"
      using b unfolding BatchIoQueue_body_def Let_def Inr sum.case a None by (cases eb) (auto simp: f split del: if_split)
    from batch_bufs_held [OF log3 _ body] q(4) obtain bufs where "q' = ?q3\<lparr>bq_buf_bases := bufs\<rparr>"
      and "held log' = Some (bufs_of os (unat (bq_max_io_buf_bytes q)) bufs +
        (locked_res os b' (?fs * 2) lf + (locked_res os a (?cs * 2) lc + (?map + M))))" by auto
    with nz fa fb show ?thesis by (intro exI [of _ lc] exI [of _ lf]) (auto simp: batch_res_def add.assoc)
  qed
qed

interpretation batch_queue: owner "sane_os os"
  "BatchIoQueue os ublkc_fd ublkc_fd_raw q_id flags queue_depth max_io_buf_bytes" "BatchIoQueue_cleanup os"
  for os ublkc_fd ublkc_fd_raw q_id flags queue_depth max_io_buf_bytes
proof unfold_locales
  let ?ctor = "BatchIoQueue os ublkc_fd ublkc_fd_raw q_id flags queue_depth max_io_buf_bytes"
  let ?q0 = "\<lparr>bq_ublkc_fd = ublkc_fd, bq_q_id = q_id, bq_flags = flags, bq_queue_depth = queue_depth,
     bq_max_io_buf_bytes = max_io_buf_bytes, bq_iod_base = 0, bq_commit_buf_size = 0, bq_commit_buf = 0,
     bq_fetch_buf_size = 0, bq_fetch_buf = 0, bq_buf_bases = []\<rparr>"
  fix log M e log' q assume sane: "sane_os os" and h: "held log = Some M"
  obtain r q1 log1 where b: "BatchIoQueue_body os ublkc_fd_raw ?q0 log = (r, q1, log1)" by (metis prod_cases3)
  from batch_body_held [OF sane h _ _ _ _ b] batch_cleanup_held obtain N where N: "held log1 = Some (N + M)"
    and c: "\<And>log2. held log2 = Some (N + M) \<Longrightarrow> held (BatchIoQueue_cleanup os q1 log2) = Some M"
    by (metis batch_queue.select_convs(6,8,10,11))
  show "held log' = Some M" if "?ctor log = (Inl e, log')"
    using that b N c by (auto simp: BatchIoQueue_def split: option.splits)
  show "\<exists>N. held log' = Some (N + M) \<and>
      (\<forall>log2. held log2 = Some (N + M) \<longrightarrow> held (BatchIoQueue_cleanup os q log2) = Some M)"
    if "?ctor log = (Inr q, log')"
    using that b N c by (auto simp: BatchIoQueue_def split: option.splits)
qed

lemma page_align_round_up:
  assumes "os_page os = 2 ^ k" and "k < 32" and "n < 2 ^ 32"
  shows "page_align os n = round_up n (2 ^ k)"
proof -
  have v: "unat (of_nat n :: u64) = n" using assms(3) by (simp add: unsigned_of_nat take_bit_nat_eq_self)
  have p: "of_nat (os_page os) = (push_bit k 1 :: u64)" by (simp add: assms(1) push_bit_eq_mult)
  have "(2::nat) ^ k < 2 ^ 32" using assms(2) by (intro power_strict_increasing) simp_all
  then have "unat (of_nat n :: u64) + 2 ^ k \<le> 2 ^ 64" using assms(3) by (simp add: v)
  with assms(2) align_up_round [of k "of_nat n"] show ?thesis by (auto simp: page_align_def p v)
qed

lemma element_size_bound: "commit_element_size flags \<le> 24"
  by (simp add: element_size_cases)

lemma BatchIoQueue_members:
  assumes "BatchIoQueue os fd raw q_id flags depth bytes log = (Inr q, log')"
  shows "bq_flags q = flags \<and> bq_queue_depth q = depth \<and> bq_q_id q = q_id \<and> bq_ublkc_fd q = fd \<and>
    bq_commit_buf_size q = page_align os (unat depth * commit_element_size flags) \<and>
    bq_fetch_buf_size q = page_align os (unat depth * 2) \<and>
    length (bq_buf_bases q) = (if need_alloc_buf flags then unat depth else 0)"
proof -
  have len: "alloc_bufs os n k bufs l = (True, bufs', l') \<Longrightarrow> length bufs' = length bufs + k" for n k bufs l bufs' l'
    by (induction k arbitrary: bufs l) (auto split: option.splits)
  show ?thesis
    using assms
    by (auto simp: BatchIoQueue_def BatchIoQueue_body_def Let_def dest!: len
        split: sum.splits if_splits prod.splits option.splits)
qed

lemma BatchIoQueue_fits:
  assumes "BatchIoQueue os fd raw q_id flags depth bytes log = (Inr q, log')"
    and "os_page os = 2 ^ k" and "k < 32"
  shows "batch_wf q \<and> unat depth * 2 \<le> bq_fetch_buf_size q \<and>
    os_page os dvd bq_commit_buf_size q \<and> os_page os dvd bq_fetch_buf_size q"
proof -
  have d: "unat depth < 65536" using unsigned_less [of depth] by simp
  then have "unat depth * commit_element_size flags \<le> 65535 * 24"
    using element_size_bound [of flags] by (intro mult_mono) simp_all
  then have sizes: "bq_commit_buf_size q = round_up (unat depth * commit_element_size flags) (2 ^ k)"
    and fsize: "bq_fetch_buf_size q = round_up (unat depth * 2) (2 ^ k)"
    using BatchIoQueue_members [OF assms(1)] d page_align_round_up [OF assms(2,3)] by simp_all
  have "bq_flags q = flags" "bq_queue_depth q = depth"
    "need_alloc_buf flags \<Longrightarrow> length (bq_buf_bases q) = unat depth"
    using BatchIoQueue_members [OF assms(1)] by simp_all
  then show ?thesis by (simp add: batch_wf_def sizes fsize assms(2) round_up_bounds)
qed

text \<open>
  C27. A constructed batch queue has room for a full queue in each of its four buffers: a commit
  buffer holds one element per tag and a fetch buffer one tag number per tag, both sizes being
  whole pages, so that the second buffer behind the first is page aligned as well.
\<close>

theorem batch_buffers_fit:
  assumes "BatchIoQueue os fd raw q_id flags depth bytes log = (Inr q, log')"
    and "os_page os = 2 ^ k" and "k < 32"
  shows "batch_wf q \<and> unat depth * 2 \<le> bq_fetch_buf_size q \<and>
    os_page os dvd bq_commit_buf_size q \<and> os_page os dvd bq_fetch_buf_size q"
  using assms by (rule BatchIoQueue_fits)

definition batch_os :: os where
  "batch_os = \<lparr>os_mmap = (\<lambda>log n fd off. Inr 4096), os_alloc = (\<lambda>log n al. Some 8192),
     os_mlock = (\<lambda>log a n. None), os_reserve = (\<lambda>log n. True), os_page = 4096\<rparr>"

theorem batch_buffers_fit_witness:
  "\<exists>q log'. BatchIoQueue batch_os (RawFd 5) 5 0 128 4 512 [] = (Inr q, log') \<and> batch_wf q"
proof -
  have "\<exists>q log'. BatchIoQueue batch_os (RawFd 5) 5 0 128 4 512 [] = (Inr q, log')"
    by (simp add: BatchIoQueue_def BatchIoQueue_body_def batch_os_def alloc_locked_def Let_def
        need_alloc_buf_bits bit_numeral_word_iff)
  then obtain q log' where q: "BatchIoQueue batch_os (RawFd 5) 5 0 128 4 512 [] = (Inr q, log')" by blast
  show ?thesis using batch_buffers_fit [OF q, of 12] q by (auto simp: batch_os_def)
qed

text \<open>
  The same balance holds for a batch queue, whose constructor can fail at seven places: blocks,
  locks and the mapping are given back exactly once, on every path.
\<close>

theorem batch_queue_memory_balanced:
  assumes "sane_os os" and "held log = Some M"
    and "\<And>q log'. BatchIoQueue os fd raw q_id flags depth bytes log = (Inr q, log') \<Longrightarrow> held (body q log') = held log'"
  shows "held (case BatchIoQueue os fd raw q_id flags depth bytes log of
      (Inl e, log') \<Rightarrow> log' | (Inr q, log') \<Rightarrow> BatchIoQueue_cleanup os q (body q log')) = Some M"
  using assms by (rule batch_queue.scope_balanced)

theorem batch_queue_memory_balanced_witness:
  "\<exists>log'. BatchIoQueue small_os (RawFd 5) 5 0 0 2 512 [] =
     (Inl (SystemError 12 ''mlock commit_buf''), log') \<and> held log' = Some {#}"
proof -
  have c: "fst (BatchIoQueue small_os (RawFd 5) 5 0 0 2 512 []) = Inl (SystemError 12 ''mlock commit_buf'')"
    by (simp add: BatchIoQueue_def BatchIoQueue_body_def small_os_def alloc_locked_def Let_def)
  obtain r log' where "BatchIoQueue small_os (RawFd 5) 5 0 0 2 512 [] = (r, log')" by fastforce
  with c batch_queue_memory_balanced [OF sane_small_os, of "[]" "{#}" "RawFd 5" 5 0 0 2 512 "\<lambda>q l. l"]
  show ?thesis by simp
qed

end
