(* ===== verification/Ublk_Worker.thy ===== *)
theory Ublk_Worker
  imports Ublk_Queue
begin

text \<open>
  The per-tag coroutine \<^verbatim>\<open>IoQueue::worker_\<close> and \<^verbatim>\<open>IoQueue::run\<close> of \<^verbatim>\<open>detail/queue.hpp\<close>, as
  state machines: a program counter names the suspension point of a coroutine, and resuming it
  with a completion yields the next program counter and the operation it starts.
\<close>

section \<open>The worker coroutine\<close>

record IoData =
  io_q_id :: u16
  io_tag :: u16
  io_iod :: ublksrv_io_desc
  io_buf :: u64

datatype action = Uring io_sqe | HandleIo IoData

datatype completion = CqeDone "(error_code, s32) outcome" | HandlerDone "(handler_error, handler_value) outcome"

datatype worker_pc =
    WorkerStart
  | AwaitFetch
  | AwaitFetchData
  | AwaitRegister
  | AwaitHandler bool
  | AwaitUnregister s32 u64
  | AwaitCommit
  | AwaitCommitData
  | WorkerDone "(exn, unit) outcome"
  | WorkerAssert

text \<open>
  One step of the coroutine: the new program counter and the operation started, if any. The
  descriptor is shared memory: a step reads the contents it has at that moment.
\<close>

definition worker_sqe_addr :: "u64 \<Rightarrow> u16 \<Rightarrow> u64" where
  "worker_sqe_addr flags tag =
     (if has_flag flags UBLK_F_AUTO_BUF_REG
      then ublk_auto_buf_reg_to_sqe_addr
        \<lparr>abr_index = tag, abr_flags = UBLK_AUTO_BUF_REG_FALLBACK, abr_reserved0 = 0, abr_reserved1 = 0\<rparr>
      else 0)"

definition worker_start :: "io_queue \<Rightarrow> u16 \<Rightarrow> u64 \<Rightarrow> worker_pc \<times> action option" where
  "worker_start q tag buf =
     (AwaitFetch, Some (Uring (raw_fetch_req (q_ublkc_fd q) (q_q_id q) tag buf (worker_sqe_addr (q_flags q) tag))))"

definition worker_handle :: "io_queue \<Rightarrow> u16 \<Rightarrow> u64 \<Rightarrow> ublksrv_io_desc \<Rightarrow> bool \<Rightarrow> worker_pc \<times> action option" where
  "worker_handle q tag buf iod registered =
     (AwaitHandler registered,
      Some (HandleIo \<lparr>io_q_id = q_q_id q, io_tag = tag, io_iod = iod, io_buf = buf\<rparr>))"

definition worker_loop :: "io_queue \<Rightarrow> u16 \<Rightarrow> u64 \<Rightarrow> ublksrv_io_desc \<Rightarrow> worker_pc \<times> action option" where
  "worker_loop q tag buf iod =
     (if need_io_buf (q_flags q) (iod_op_flags iod)
      then (AwaitRegister, Some (Uring (raw_register_io_buf (q_ublkc_fd q) (q_q_id q) tag (ucast tag))))
      else worker_handle q tag buf iod False)"

definition worker_fetched ::
  "io_queue \<Rightarrow> u16 \<Rightarrow> u64 \<Rightarrow> ublksrv_io_desc \<Rightarrow> string \<Rightarrow> s32 \<Rightarrow> worker_pc \<times> action option" where
  "worker_fetched q tag buf iod what r =
     (if r = UBLK_IO_RES_ABORT then (WorkerDone (Value ()), None)
      else if r < 0 then (WorkerDone (Error (SystemError (- r) what)), None)
      else worker_loop q tag buf iod)"

definition worker_get_data :: "io_queue \<Rightarrow> u16 \<Rightarrow> u64 \<Rightarrow> worker_pc \<Rightarrow> worker_pc \<times> action option" where
  "worker_get_data q tag buf pc =
     (pc, Some (Uring (raw_need_get_data (q_ublkc_fd q) (q_q_id q) tag buf)))"

definition worker_commit ::
  "io_queue \<Rightarrow> u16 \<Rightarrow> u64 \<Rightarrow> ublksrv_io_desc \<Rightarrow> s32 \<Rightarrow> u64 \<Rightarrow> worker_pc \<times> action option" where
  "worker_commit q tag buf iod res zone_lba =
     (let zone_append = ublksrv_get_op iod = UBLK_IO_OP_ZONE_APPEND in
      if zone_append \<and> buf \<noteq> 0 then (WorkerAssert, None)
      else (AwaitCommit, Some (Uring (raw_commit_and_fetch_req (q_ublkc_fd q) (q_q_id q) tag res
              (if zone_append then zone_lba else buf) (worker_sqe_addr (q_flags q) tag)))))"

text \<open>The \<open>upon_error\<close> of a fetching command: an error code becomes a negative result.\<close>

definition errno_result :: "(error_code, s32) outcome \<Rightarrow> s32 option" where
  "errno_result c = (case c of Value r \<Rightarrow> Some r | Error ec \<Rightarrow> Some (- ec) | Stopped \<Rightarrow> None)"

definition on_errno_result ::
  "(error_code, s32) outcome \<Rightarrow> (s32 \<Rightarrow> worker_pc \<times> action option) \<Rightarrow> worker_pc \<times> action option" where
  "on_errno_result c k = (case errno_result c of Some r \<Rightarrow> k r | None \<Rightarrow> (WorkerDone Stopped, None))"

text \<open>A plain \<^verbatim>\<open>co_await\<close> of a command.\<close>

definition on_value ::
  "(error_code, s32) outcome \<Rightarrow> worker_pc \<times> action option \<Rightarrow> worker_pc \<times> action option" where
  "on_value c k = (case c of Value _ \<Rightarrow> k
     | Error ec \<Rightarrow> (WorkerDone (Error (SystemError ec '''')), None)
     | Stopped \<Rightarrow> (WorkerDone Stopped, None))"

fun worker_resume ::
  "io_queue \<Rightarrow> u16 \<Rightarrow> u64 \<Rightarrow> ublksrv_io_desc \<Rightarrow> worker_pc \<Rightarrow> completion \<Rightarrow> (worker_pc \<times> action option) option" where
  "worker_resume q tag buf iod AwaitFetch (CqeDone c) =
     Some (on_errno_result c (\<lambda>r. if r = UBLK_IO_RES_NEED_GET_DATA then worker_get_data q tag buf AwaitFetchData
       else worker_fetched q tag buf iod ''fetch_req'' r))"
| "worker_resume q tag buf iod AwaitFetchData (CqeDone c) =
     Some (on_errno_result c (worker_fetched q tag buf iod ''fetch_req''))"
| "worker_resume q tag buf iod AwaitRegister (CqeDone c) = Some (on_value c (worker_handle q tag buf iod True))"
| "worker_resume q tag buf iod (AwaitHandler registered) (HandlerDone c) =
     Some (let (res, zone_lba) = io_outcome c in
       if registered
       then (AwaitUnregister res zone_lba,
             Some (Uring (raw_unregister_io_buf (q_ublkc_fd q) (q_q_id q) tag (ucast tag))))
       else worker_commit q tag buf iod res zone_lba)"
| "worker_resume q tag buf iod (AwaitUnregister res zone_lba) (CqeDone c) =
     Some (on_value c (worker_commit q tag buf iod res zone_lba))"
| "worker_resume q tag buf iod AwaitCommit (CqeDone c) =
     Some (on_errno_result c (\<lambda>r. if r = UBLK_IO_RES_NEED_GET_DATA then worker_get_data q tag buf AwaitCommitData
       else worker_fetched q tag buf iod ''commit_and_fetch_req'' r))"
| "worker_resume q tag buf iod AwaitCommitData (CqeDone c) =
     Some (on_errno_result c (worker_fetched q tag buf iod ''commit_and_fetch_req''))"
| "worker_resume q tag buf iod _ _ = None"

section \<open>The worker and the driver\<close>

text \<open>
  The history of a tag: the operations the worker started and the completions it saw. The driver
  writes the descriptor before it completes a fetching command and leaves it alone while the
  server owns the request, so only such a completion changes the descriptor.
\<close>

datatype event = Start action | Complete completion

record worker =
  w_pc :: worker_pc
  w_iod :: ublksrv_io_desc
  w_trace :: "event list"

definition fetching :: "worker_pc \<Rightarrow> bool" where
  "fetching pc \<longleftrightarrow> pc \<in> {AwaitFetch, AwaitFetchData, AwaitCommit, AwaitCommitData}"

definition started :: "action option \<Rightarrow> event list" where
  "started a = (case a of Some x \<Rightarrow> [Start x] | None \<Rightarrow> [])"

inductive worker_step :: "io_queue \<Rightarrow> u16 \<Rightarrow> u64 \<Rightarrow> worker \<Rightarrow> worker \<Rightarrow> bool" for q tag buf where
  start: "w_pc w = WorkerStart \<Longrightarrow> worker_start q tag buf = (pc, a) \<Longrightarrow>
    worker_step q tag buf w (w\<lparr>w_pc := pc, w_trace := w_trace w @ started a\<rparr>)"
| resume: "iod = w_iod w \<or> fetching (w_pc w) \<Longrightarrow>
    worker_resume q tag buf iod (w_pc w) c = Some (pc, a) \<Longrightarrow>
    worker_step q tag buf w
      (w\<lparr>w_pc := pc, w_iod := iod, w_trace := w_trace w @ Complete c # started a\<rparr>)"

definition new_worker :: "worker \<Rightarrow> bool" where
  "new_worker w \<longleftrightarrow> w_pc w = WorkerStart \<and> w_trace w = []"

section \<open>The command protocol of a tag\<close>

text \<open>
  What the driver expects of the commands for one tag, independent of the worker: a fetch comes
  first; one command or handler call is in flight at a time; a request owned by the server has
  its buffer registered exactly when the flags ask for it while the handler runs, is handled once,
  has the buffer unregistered again and is then committed with the handler's result, which
  fetches the next request; nothing is sent after the driver has given up the tag.
\<close>

datatype tag_state =
    Idle
  | Fetching
  | DataWanted
  | DataFetching
  | Owned bool
  | Registering
  | Handling bool ublksrv_io_desc
  | Handled bool ublksrv_io_desc "s32 \<times> u64"
  | Unregistering ublksrv_io_desc "s32 \<times> u64"
  | Closed

definition for_tag :: "io_queue \<Rightarrow> u16 \<Rightarrow> io_sqe \<Rightarrow> u32 \<Rightarrow> u64 \<Rightarrow> bool" where
  "for_tag q tag sqe op addr \<longleftrightarrow> io_op sqe = op \<and> io_fd sqe = q_ublkc_fd q \<and>
     ic_q_id (io_command sqe) = q_q_id q \<and> ic_tag (io_command sqe) = tag \<and> ic_addr (io_command sqe) = addr"

definition fetch_done :: "s32 option \<Rightarrow> tag_state" where
  "fetch_done r = (case r of None \<Rightarrow> Closed | Some r \<Rightarrow> if r < 0 then Closed else Owned False)"

fun tag_step :: "io_queue \<Rightarrow> u16 \<Rightarrow> u64 \<Rightarrow> tag_state \<Rightarrow> event \<Rightarrow> tag_state option" where
  "tag_step q tag buf Idle (Start (Uring s)) =
     (if for_tag q tag s UBLK_U_IO_FETCH_REQ buf then Some Fetching else None)"
| "tag_step q tag buf Fetching (Complete (CqeDone c)) =
     Some (if errno_result c = Some 1 then DataWanted else fetch_done (errno_result c))"
| "tag_step q tag buf DataWanted (Start (Uring s)) =
     (if for_tag q tag s UBLK_U_IO_NEED_GET_DATA buf then Some DataFetching else None)"
| "tag_step q tag buf DataFetching (Complete (CqeDone c)) = Some (fetch_done (errno_result c))"
| "tag_step q tag buf (Owned reg) (Start (Uring s)) =
     (if \<not> reg \<and> for_tag q tag s UBLK_U_IO_REGISTER_IO_BUF (ucast tag) then Some Registering else None)"
| "tag_step q tag buf Registering (Complete (CqeDone c)) =
     Some (case c of Value _ \<Rightarrow> Owned True | _ \<Rightarrow> Closed)"
| "tag_step q tag buf (Owned reg) (Start (HandleIo d)) =
     (if reg = need_io_buf (q_flags q) (iod_op_flags (io_iod d)) \<and>
         io_q_id d = q_q_id q \<and> io_tag d = tag \<and> io_buf d = buf
      then Some (Handling reg (io_iod d)) else None)"
| "tag_step q tag buf (Handling reg iod) (Complete (HandlerDone c)) = Some (Handled reg iod (io_outcome c))"
| "tag_step q tag buf (Handled reg iod (res, lba)) (Start (Uring s)) =
     (if reg then if for_tag q tag s UBLK_U_IO_UNREGISTER_IO_BUF (ucast tag)
                  then Some (Unregistering iod (res, lba)) else None
      else if for_tag q tag s UBLK_U_IO_COMMIT_AND_FETCH_REQ
             (if ublksrv_get_op iod = UBLK_IO_OP_ZONE_APPEND then lba else buf) \<and>
           ic_result (io_command s) = res
      then Some Fetching else None)"
| "tag_step q tag buf (Unregistering iod r) (Complete (CqeDone c)) =
     Some (case c of Value _ \<Rightarrow> Handled False iod r | _ \<Rightarrow> Closed)"
| "tag_step q tag buf _ _ = None"

fun tag_run :: "io_queue \<Rightarrow> u16 \<Rightarrow> u64 \<Rightarrow> tag_state \<Rightarrow> event list \<Rightarrow> tag_state option" where
  "tag_run q tag buf d [] = Some d"
| "tag_run q tag buf d (e # es) =
     (case tag_step q tag buf d e of Some d' \<Rightarrow> tag_run q tag buf d' es | None \<Rightarrow> None)"

lemma tag_run_append:
  "tag_run q tag buf d (xs @ ys) =
     (case tag_run q tag buf d xs of Some d' \<Rightarrow> tag_run q tag buf d' ys | None \<Rightarrow> None)"
  by (induction xs arbitrary: d) (auto split: option.splits)

text \<open>The state the protocol is in at each suspension point of the worker.\<close>

fun tag_at :: "io_queue \<Rightarrow> u64 \<Rightarrow> worker_pc \<Rightarrow> ublksrv_io_desc \<Rightarrow> tag_state \<Rightarrow> bool" where
  "tag_at q buf WorkerStart iod d \<longleftrightarrow> d = Idle"
| "tag_at q buf AwaitFetch iod d \<longleftrightarrow> d = Fetching"
| "tag_at q buf AwaitFetchData iod d \<longleftrightarrow> d = DataFetching"
| "tag_at q buf AwaitRegister iod d \<longleftrightarrow> d = Registering \<and> need_io_buf (q_flags q) (iod_op_flags iod)"
| "tag_at q buf (AwaitHandler reg) iod d \<longleftrightarrow> d = Handling reg iod"
| "tag_at q buf (AwaitUnregister res lba) iod d \<longleftrightarrow> d = Unregistering iod (res, lba)"
| "tag_at q buf AwaitCommit iod d \<longleftrightarrow> d = Fetching"
| "tag_at q buf AwaitCommitData iod d \<longleftrightarrow> d = DataFetching"
| "tag_at q buf (WorkerDone c) iod d \<longleftrightarrow> d = Closed"
| "tag_at q buf WorkerAssert iod d \<longleftrightarrow> (\<exists>r. d = Handled False iod r) \<and> buf \<noteq> 0 \<and>
     ublksrv_get_op iod = UBLK_IO_OP_ZONE_APPEND"

definition conforms :: "io_queue \<Rightarrow> u16 \<Rightarrow> u64 \<Rightarrow> worker \<Rightarrow> bool" where
  "conforms q tag buf w \<longleftrightarrow>
     (\<exists>d. tag_run q tag buf Idle (w_trace w) = Some d \<and> tag_at q buf (w_pc w) (w_iod w) d)"

text \<open>
  Each fragment of the coroutine keeps worker and protocol together: from protocol state \<open>d\<close> the
  operation it starts is allowed and leads to a state that fits the new program counter.
\<close>

definition continues ::
  "io_queue \<Rightarrow> u16 \<Rightarrow> u64 \<Rightarrow> ublksrv_io_desc \<Rightarrow> tag_state \<Rightarrow> worker_pc \<times> action option \<Rightarrow> bool" where
  "continues q tag buf iod d r \<longleftrightarrow>
     (\<exists>d'. tag_run q tag buf d (started (snd r)) = Some d' \<and> tag_at q buf (fst r) iod d')"

lemma continues_done [simp]: "continues q tag buf iod Closed (WorkerDone c, None)"
  by (simp add: continues_def started_def)

lemma continues_start: "continues q tag buf iod Idle (worker_start q tag buf)"
  by (simp add: continues_def worker_start_def started_def for_tag_def raw_simps)

lemma continues_handle:
  "reg = need_io_buf (q_flags q) (iod_op_flags iod) \<Longrightarrow>
   continues q tag buf iod (Owned reg) (worker_handle q tag buf iod reg)"
  by (simp add: continues_def worker_handle_def started_def)

lemma continues_loop: "continues q tag buf iod (Owned False) (worker_loop q tag buf iod)"
  by (simp add: worker_loop_def continues_handle)
    (simp add: continues_def started_def for_tag_def raw_simps)

lemma continues_fetched:
  "continues q tag buf iod (fetch_done (Some r)) (worker_fetched q tag buf iod what r)"
  by (simp add: worker_fetched_def fetch_done_def continues_loop consts_simps)

lemma continues_get_data:
  "pc = AwaitFetchData \<or> pc = AwaitCommitData \<Longrightarrow>
   continues q tag buf iod DataWanted (worker_get_data q tag buf pc)"
  by (auto simp: continues_def worker_get_data_def started_def for_tag_def raw_simps)

lemma continues_commit:
  "continues q tag buf iod (Handled False iod (res, lba)) (worker_commit q tag buf iod res lba)"
  by (simp add: continues_def worker_commit_def Let_def started_def for_tag_def raw_simps)

lemmas continues_intros =
  continues_handle continues_loop continues_fetched continues_get_data continues_commit

lemma continues_on_errno_result:
  assumes "\<And>r. errno_result c = Some r \<Longrightarrow> continues q tag buf iod (d (Some r)) (k r)" and "d None = Closed"
  shows "continues q tag buf iod (d (errno_result c)) (on_errno_result c k)"
  using assms by (simp add: on_errno_result_def split: option.splits)

lemma continues_on_value:
  assumes "continues q tag buf iod d k"
  shows "continues q tag buf iod (case c of Value _ \<Rightarrow> d | _ \<Rightarrow> Closed) (on_value c k)"
  using assms by (simp add: on_value_def split: outcome.splits)

lemma continues_first:
  assumes "pc = AwaitFetchData \<or> pc = AwaitCommitData"
  shows "continues q tag buf iod (if errno_result c = Some 1 then DataWanted else fetch_done (errno_result c))
    (on_errno_result c (\<lambda>r. if r = UBLK_IO_RES_NEED_GET_DATA then worker_get_data q tag buf pc
       else worker_fetched q tag buf iod what r))"
  using continues_on_errno_result [of c q tag buf iod "\<lambda>r. if r = Some 1 then DataWanted else fetch_done r"]
  by (simp add: continues_get_data [OF assms] continues_fetched fetch_done_def [of None] consts_simps)

lemma resume_continues:
  assumes "worker_resume q tag buf iod' pc c = Some r" and "tag_at q buf pc iod d"
    and "iod' = iod \<or> fetching pc"
  shows "\<exists>d'. tag_step q tag buf d (Complete c) = Some d' \<and> continues q tag buf iod' d' r"
proof (cases pc)
  case AwaitFetch
  with assms show ?thesis by (cases c) (auto intro: continues_first split del: if_split)
next
  case AwaitFetchData
  with assms show ?thesis
    by (cases c) (auto intro!: continues_on_errno_result continues_fetched simp: fetch_done_def [of None])
next
  case AwaitRegister
  with assms show ?thesis
    by (cases c) (auto simp: fetching_def intro!: continues_on_value continues_handle)
next
  case (AwaitHandler reg)
  with assms show ?thesis
    by (cases c) (auto simp: fetching_def continues_commit split: prod.splits,
        auto simp: continues_def started_def for_tag_def raw_simps)
next
  case (AwaitUnregister res lba)
  with assms show ?thesis
    by (cases c) (auto simp: fetching_def intro!: continues_on_value continues_commit)
next
  case AwaitCommit
  with assms show ?thesis by (cases c) (auto intro: continues_first split del: if_split)
next
  case AwaitCommitData
  with assms show ?thesis
    by (cases c) (auto intro!: continues_on_errno_result continues_fetched simp: fetch_done_def [of None])
qed (use assms in \<open>cases c; simp\<close>)+

lemma conforms_step: "worker_step q tag buf w w' \<Longrightarrow> conforms q tag buf w \<Longrightarrow> conforms q tag buf w'"
proof (induction rule: worker_step.induct)
  case (start w pc a)
  with continues_start [of q tag buf "w_iod w"] show ?case
    by (auto simp: conforms_def continues_def tag_run_append)
next
  case (resume iod w c pc a)
  then obtain d where d: "tag_run q tag buf Idle (w_trace w) = Some d" "tag_at q buf (w_pc w) (w_iod w) d"
    by (auto simp: conforms_def)
  from resume_continues [OF resume(2) d(2) resume(1)] d(1) show ?case
    by (auto simp: conforms_def continues_def tag_run_append)
qed

interpretation worker: transition_system new_worker "worker_step q tag buf" "conforms q tag buf"
  for q tag buf
  by unfold_locales (simp add: new_worker_def conforms_def, rule conforms_step)

text \<open>
  C3. Every history of every worker follows the protocol of its tag, whatever the driver and the
  handler complete with, and whether or not handlers fail: no command is sent before the first
  fetch, none while another is in flight and none after an abort or error, the buffer is
  registered around the handler exactly when needed, and each request is committed once, with
  its handler's result, by the command that fetches the next one.
\<close>

theorem worker_follows_protocol:
  assumes "new_worker w" and "(worker_step q tag buf)\<^sup>*\<^sup>* w w'"
  shows "\<exists>d. tag_run q tag buf Idle (w_trace w') = Some d"
  using worker.inv_reachable [OF assms] by (auto simp: conforms_def)

text \<open>Running a worker on a list of descriptor contents and completions.\<close>

fun worker_exec :: "io_queue \<Rightarrow> u16 \<Rightarrow> u64 \<Rightarrow> worker \<Rightarrow> (ublksrv_io_desc \<times> completion) list \<Rightarrow> worker option" where
  "worker_exec q tag buf w [] = Some w"
| "worker_exec q tag buf w ((iod, c) # xs) =
     (if iod = w_iod w \<or> fetching (w_pc w)
      then case worker_resume q tag buf iod (w_pc w) c of
          Some (pc, a) \<Rightarrow> worker_exec q tag buf
            (w\<lparr>w_pc := pc, w_iod := iod, w_trace := w_trace w @ Complete c # started a\<rparr>) xs
        | None \<Rightarrow> None
      else None)"

lemma worker_exec_reachable:
  "worker_exec q tag buf w xs = Some w' \<Longrightarrow> (worker_step q tag buf)\<^sup>*\<^sup>* w w'"
proof (induction q tag buf w xs rule: worker_exec.induct)
  case (2 q tag buf w iod c xs)
  then obtain pc a where e: "iod = w_iod w \<or> fetching (w_pc w)"
      "worker_resume q tag buf iod (w_pc w) c = Some (pc, a)"
    and "(worker_step q tag buf)\<^sup>*\<^sup>*
      (w\<lparr>w_pc := pc, w_iod := iod, w_trace := w_trace w @ Complete c # started a\<rparr>) w'"
    by (auto split: if_splits option.splits prod.splits)
  with worker_step.resume [OF e] show ?case by (blast intro: converse_rtranclp_into_rtranclp)
qed simp

definition idle_iod :: ublksrv_io_desc where
  "idle_iod = \<lparr>iod_op_flags = 0, iod_nr_sectors = 8, iod_start_sector = 0, iod_addr = 0\<rparr>"

definition sample_queue :: io_queue where
  "sample_queue = \<lparr>q_ublkc_fd = FixedFd 0, q_q_id = 1, q_flags = 1, q_queue_depth = 4,
     q_max_io_buf_bytes = 4096, q_iod_base = 4096, q_buf_bases = []\<rparr>"

definition sample_worker :: worker where
  "sample_worker = \<lparr>w_pc = WorkerStart, w_iod = idle_iod, w_trace = []\<rparr>"

definition sample_running :: worker where
  "sample_running = \<lparr>w_pc = AwaitFetch, w_iod = idle_iod,
     w_trace = started (snd (worker_start sample_queue 2 0))\<rparr>"

lemma sample_step: "worker_step sample_queue 2 0 sample_worker sample_running"
  using worker_step.start [of sample_worker sample_queue 2 0]
  by (simp add: sample_worker_def sample_running_def worker_start_def)

lemmas worker_eval =
  sample_running_def sample_queue_def worker_handle_def worker_loop_def worker_fetched_def
  worker_commit_def on_errno_result_def on_value_def errno_result_def io_outcome_def consts_simps
  need_io_buf_def flag_bits op_flag_bits idle_iod_def ublksrv_get_op_def fetching_def

theorem worker_follows_protocol_witness:
  "\<exists>w d. worker_exec sample_queue 2 0 sample_running
       [(idle_iod, CqeDone (Value 0)), (idle_iod, CqeDone (Value 0)), (idle_iod, HandlerDone (Error OtherError)),
        (idle_iod, CqeDone (Value 0)), (idle_iod, CqeDone (Value (- 19)))] = Some w \<and>
     w_pc w = WorkerDone (Value ()) \<and> tag_run sample_queue 2 0 Idle (w_trace w) = Some d"
proof -
  let ?xs = "[(idle_iod, CqeDone (Value 0)), (idle_iod, CqeDone (Value 0)), (idle_iod, HandlerDone (Error OtherError)),
        (idle_iod, CqeDone (Value 0)), (idle_iod, CqeDone (Value (- 19)))]"
  have "\<exists>w. worker_exec sample_queue 2 0 sample_running ?xs = Some w \<and> w_pc w = WorkerDone (Value ())"
    by (simp add: worker_eval Let_def)
  then obtain w where w: "worker_exec sample_queue 2 0 sample_running ?xs = Some w"
    and pc: "w_pc w = WorkerDone (Value ())" by blast
  have "(worker_step sample_queue 2 0)\<^sup>*\<^sup>* sample_worker w"
    using sample_step worker_exec_reachable [OF w] by (rule converse_rtranclp_into_rtranclp)
  from worker_follows_protocol [OF _ this] w pc show ?thesis
    by (auto simp: new_worker_def sample_worker_def)
qed

text \<open>
  A worker leaves its loop for one of three reasons only, and starts nothing when it does: the
  driver answered a fetching command with the abort result, the operation it was waiting for was
  stopped, or a command failed, in which case the exception carries the command's error code and
  names the command for a fetching one.
\<close>

theorem worker_exit_reasons:
  assumes "worker_resume q tag buf iod pc (CqeDone c) = Some (WorkerDone r, a)"
  shows "a = None \<and>
    (case r of
       Value _ \<Rightarrow> fetching pc \<and> errno_result c = Some UBLK_IO_RES_ABORT
     | Stopped \<Rightarrow> c = Stopped
     | Error e \<Rightarrow> \<exists>ec what. e = SystemError ec what \<and>
         (if fetching pc
          then errno_result c = Some (- ec) \<and> 0 < ec \<and> ec \<noteq> ENODEV \<and>
            what = (if pc \<in> {AwaitFetch, AwaitFetchData} then ''fetch_req'' else ''commit_and_fetch_req'')
          else c = Error ec \<and> what = ''''))"
  using assms
  by (cases pc)
    (auto simp: fetching_def on_errno_result_def on_value_def errno_result_def worker_fetched_def
      worker_loop_def worker_handle_def worker_get_data_def worker_commit_def Let_def consts_simps
      split: outcome.splits if_splits)

theorem worker_exit_reasons_witness:
  "worker_resume sample_queue 2 0 idle_iod AwaitCommit (CqeDone (Error 5)) =
     Some (WorkerDone (Error (SystemError 5 ''commit_and_fetch_req'')), None) \<and>
   (\<exists>ec what. SystemError 5 ''commit_and_fetch_req'' = SystemError ec what \<and> 0 < ec \<and> ec \<noteq> ENODEV)"
proof -
  have r: "worker_resume sample_queue 2 0 idle_iod AwaitCommit (CqeDone (Error 5)) =
     Some (WorkerDone (Error (SystemError 5 ''commit_and_fetch_req'')), None)"
    by (simp add: on_errno_result_def errno_result_def worker_fetched_def consts_simps)
  show ?thesis using worker_exit_reasons [OF r] r by (simp add: fetching_def)
qed

lemma IoQueue_buf_bases:
  assumes "IoQueue os fd raw q_id flags depth bytes log = (Inr q, log')"
  shows "length (q_buf_bases q) = (if need_alloc_buf flags then unat depth else 0) \<and>
    q_flags q = flags \<and> q_queue_depth q = depth \<and> q_q_id q = q_id"
proof -
  have len: "alloc_bufs os n k bufs l = (True, bufs', l') \<Longrightarrow> length bufs' = length bufs + k" for n k bufs l bufs' l'
    by (induction k arbitrary: bufs l) (auto split: option.splits)
  show ?thesis
    using assms
    by (auto simp: IoQueue_def IoQueue_body_def Let_def dest!: len
        split: sum.splits if_splits prod.splits option.splits)
qed

text \<open>
  C29. A worker of a constructed queue always has its buffer slot: with server-side buffers there
  is one per tag, and without them the buffer address is null, so that the assertion on a zone
  append, which reuses the address field for the zone address, never fails.
\<close>

theorem zone_append_assertion_holds:
  assumes "IoQueue os fd raw q_id flags depth bytes log = (Inr q, log')"
    and "tag < depth" and "buf = get_buf (q_buf_bases q) tag"
    and "new_worker w" and "(worker_step q tag buf)\<^sup>*\<^sup>* w w'"
  shows "if need_alloc_buf flags then unat tag < length (q_buf_bases q) \<and> buf = q_buf_bases q ! unat tag
    else buf = 0 \<and> w_pc w' \<noteq> WorkerAssert"
  using worker.inv_reachable [OF assms(4,5)] IoQueue_buf_bases [OF assms(1)] assms(2,3)
  by (auto simp: get_buf_def conforms_def word_less_nat_alt split: if_splits)

definition sample_os :: os where
  "sample_os = \<lparr>os_mmap = (\<lambda>log n fd off. Inr 4096), os_alloc = (\<lambda>log n al. None),
     os_mlock = (\<lambda>log a n. None), os_reserve = (\<lambda>log n. True), os_page = 4096\<rparr>"

lemma sample_constructed:
  "IoQueue sample_os (FixedFd 0) 5 1 1 4 4096 [] = (Inr sample_queue, [Mmap 4096 96 98304])"
  by (simp add: IoQueue_def IoQueue_body_def sample_os_def Let_def need_alloc_buf_bits iod_size_def
      io_desc_offset_def consts_simps sample_queue_def)

theorem zone_append_assertion_holds_witness:
  "get_buf (q_buf_bases sample_queue) 2 = 0 \<and> w_pc sample_running \<noteq> WorkerAssert"
proof -
  have b: "0 = get_buf (q_buf_bases sample_queue) 2" by (simp add: get_buf_def sample_queue_def)
  from zone_append_assertion_holds [OF sample_constructed _ b, of sample_worker sample_running] b
  show ?thesis
    using sample_step by (simp add: need_alloc_buf_bits new_worker_def sample_worker_def r_into_rtranclp)
qed

section \<open>Running a queue\<close>

text \<open>
  \<^verbatim>\<open>IoQueue::run\<close> initialises the queue when the handler has queue callbacks, spawns one worker per
  tag, waits until all have ended, destroys the queue and rethrows the first error by tag. The
  workers share the scheduler: any of them may take the next step.
\<close>

datatype run_phase = Initializing | Running | Finished "(exn, unit) outcome"

record io_run =
  r_phase :: run_phase
  r_workers :: "worker list"
  r_destroyed :: nat

definition worker_error :: "worker \<Rightarrow> exn option" where
  "worker_error w = (case w_pc w of WorkerDone (Error e) \<Rightarrow> Some e | _ \<Rightarrow> None)"

definition worker_ended :: "worker \<Rightarrow> bool" where
  "worker_ended w \<longleftrightarrow> (case w_pc w of WorkerDone _ \<Rightarrow> True | _ \<Rightarrow> False)"

fun rethrow_first :: "exn option list \<Rightarrow> (exn, unit) outcome" where
  "rethrow_first [] = Value ()"
| "rethrow_first (Some e # errs) = Error e"
| "rethrow_first (None # errs) = rethrow_first errs"

inductive run_step :: "bool \<Rightarrow> io_queue \<Rightarrow> io_run \<Rightarrow> io_run \<Rightarrow> bool" for queue_handler q where
  initialized: "r_phase r = Initializing \<Longrightarrow> run_step queue_handler q r (r\<lparr>r_phase := Running\<rparr>)"
| init_failed: "r_phase r = Initializing \<Longrightarrow> queue_handler \<Longrightarrow>
    run_step queue_handler q r (r\<lparr>r_phase := Finished (Error e)\<rparr>)"
| init_stopped: "r_phase r = Initializing \<Longrightarrow> queue_handler \<Longrightarrow>
    run_step queue_handler q r (r\<lparr>r_phase := Finished Stopped\<rparr>)"
| work: "r_phase r = Running \<Longrightarrow> tag < q_queue_depth q \<Longrightarrow>
    worker_step q tag (get_buf (q_buf_bases q) tag) (r_workers r ! unat tag) w' \<Longrightarrow>
    run_step queue_handler q r (r\<lparr>r_workers := (r_workers r)[unat tag := w']\<rparr>)"
| join: "r_phase r = Running \<Longrightarrow> list_all worker_ended (r_workers r) \<Longrightarrow>
    run_step queue_handler q r
      (r\<lparr>r_phase := Finished (rethrow_first (map worker_error (r_workers r))),
         r_destroyed := r_destroyed r + (if queue_handler then 1 else 0)\<rparr>)"

definition new_run :: "io_queue \<Rightarrow> io_run \<Rightarrow> bool" where
  "new_run q r \<longleftrightarrow> r_phase r = Initializing \<and> length (r_workers r) = unat (q_queue_depth q) \<and>
     list_all new_worker (r_workers r) \<and> r_destroyed r = 0"

definition workers_conform :: "io_queue \<Rightarrow> worker list \<Rightarrow> bool" where
  "workers_conform q ws \<longleftrightarrow> length ws = unat (q_queue_depth q) \<and>
     (\<forall>tag. tag < q_queue_depth q \<longrightarrow> conforms q tag (get_buf (q_buf_bases q) tag) (ws ! unat tag))"

definition run_inv :: "bool \<Rightarrow> io_queue \<Rightarrow> io_run \<Rightarrow> bool" where
  "run_inv queue_handler q r \<longleftrightarrow> workers_conform q (r_workers r) \<and>
     (case r_phase r of
        Initializing \<Rightarrow> list_all new_worker (r_workers r) \<and> r_destroyed r = 0
      | Running \<Rightarrow> r_destroyed r = 0
      | Finished c \<Rightarrow>
          (queue_handler \<and> list_all new_worker (r_workers r) \<and> r_destroyed r = 0 \<and> c \<noteq> Value ()) \<or>
          (list_all worker_ended (r_workers r) \<and> c = rethrow_first (map worker_error (r_workers r)) \<and>
           r_destroyed r = (if queue_handler then 1 else 0)))"

lemma workers_conform_update:
  assumes "workers_conform q ws" and "tag < q_queue_depth q"
    and "worker_step q tag (get_buf (q_buf_bases q) tag) (ws ! unat tag) w'"
  shows "workers_conform q (ws[unat tag := w'])"
  using assms conforms_step [OF assms(3)]
  by (auto simp: workers_conform_def word_less_nat_alt nth_list_update word_unat_eq_iff [symmetric])

lemma run_inv_step: "run_step qh q r r' \<Longrightarrow> run_inv qh q r \<Longrightarrow> run_inv qh q r'"
  by (induction rule: run_step.induct) (auto simp: run_inv_def intro: workers_conform_update)

lemma run_inv_new: "new_run q r \<Longrightarrow> run_inv qh q r"
  by (auto simp: new_run_def run_inv_def workers_conform_def list_all_length word_less_nat_alt
      new_worker_def conforms_def)

interpretation io_run: transition_system "new_run q" "run_step qh q" "run_inv qh q" for qh q
  by unfold_locales (erule run_inv_new, rule run_inv_step)

lemma rethrow_first_spec:
  "case rethrow_first errs of
     Value _ \<Rightarrow> \<forall>i < length errs. errs ! i = None
   | Error e \<Rightarrow> \<exists>i < length errs. errs ! i = Some e \<and> (\<forall>j < i. errs ! j = None)
   | Stopped \<Rightarrow> False"
proof (induction errs rule: rethrow_first.induct)
  case (2 e errs)
  then show ?case by (auto intro: exI [of _ 0])
next
  case (3 errs)
  show ?case
  proof (cases "rethrow_first errs")
    case (Error e)
    with 3 obtain i where "i < length errs" "errs ! i = Some e" "\<forall>j < i. errs ! j = None" by auto
    then have "\<exists>k < length (None # errs). (None # errs) ! k = Some e \<and> (\<forall>j < k. (None # errs) ! j = None)"
      by (intro exI [of _ "Suc i"]) (auto simp: nth_Cons split: nat.splits)
    with Error show ?thesis by simp
  qed (use 3 in \<open>auto simp: less_Suc_eq_0_disj\<close>)
qed simp

lemma finished_run:
  assumes "new_run q r" and "(run_step queue_handler q)\<^sup>*\<^sup>* r r'" and "r_phase r' = Finished c"
  shows "(queue_handler \<and> list_all new_worker (r_workers r') \<and> r_destroyed r' = 0 \<and> c \<noteq> Value ()) \<or>
    (list_all worker_ended (r_workers r') \<and> r_destroyed r' = (if queue_handler then 1 else 0) \<and>
     (case c of
        Value _ \<Rightarrow> \<forall>w \<in> set (r_workers r'). worker_error w = None
      | Error e \<Rightarrow> \<exists>i < length (r_workers r'). worker_error (r_workers r' ! i) = Some e \<and>
          (\<forall>j < i. worker_error (r_workers r' ! j) = None)
      | Stopped \<Rightarrow> False))"
proof -
  have "run_inv queue_handler q r'" using assms(1,2) by (rule io_run.inv_reachable)
  with assms(3) rethrow_first_spec [of "map worker_error (r_workers r')"] show ?thesis
    by (auto simp: run_inv_def all_set_conv_all_nth split: outcome.splits)
qed

text \<open>
  C16. How a queue's run ends: either the handler's queue initialisation failed, no worker was ever
  started and the queue is not destroyed; or every worker has ended, only then the queue is
  destroyed, exactly once, and the run succeeds if no worker failed and otherwise rethrows the
  exception of the failed worker with the lowest tag.
\<close>

theorem run_outcome:
  assumes "new_run q r" and "(run_step queue_handler q)\<^sup>*\<^sup>* r r'" and "r_phase r' = Finished c"
  shows "(queue_handler \<and> list_all new_worker (r_workers r') \<and> r_destroyed r' = 0 \<and> c \<noteq> Value ()) \<or>
    (list_all worker_ended (r_workers r') \<and> r_destroyed r' = (if queue_handler then 1 else 0) \<and>
     (case c of
        Value _ \<Rightarrow> \<forall>w \<in> set (r_workers r'). worker_error w = None
      | Error e \<Rightarrow> \<exists>i < length (r_workers r'). worker_error (r_workers r' ! i) = Some e \<and>
          (\<forall>j < i. worker_error (r_workers r' ! j) = None)
      | Stopped \<Rightarrow> False))"
  using assms by (rule finished_run)

definition sample_run :: io_run where
  "sample_run = \<lparr>r_phase = Initializing, r_workers = replicate 4 sample_worker, r_destroyed = 0\<rparr>"

theorem run_outcome_witness:
  "r_phase (sample_run\<lparr>r_phase := Finished (Error OtherException)\<rparr>) = Finished (Error OtherException) \<and>
   r_destroyed (sample_run\<lparr>r_phase := Finished (Error OtherException)\<rparr>) = 0"
proof -
  have n: "new_run sample_queue sample_run"
    by (simp add: new_run_def sample_run_def sample_queue_def sample_worker_def new_worker_def
        list_all_length)
  have "run_step True sample_queue sample_run (sample_run\<lparr>r_phase := Finished (Error OtherException)\<rparr>)"
    by (rule run_step.init_failed) (simp_all add: sample_run_def)
  then have "(run_step True sample_queue)\<^sup>*\<^sup>* sample_run (sample_run\<lparr>r_phase := Finished (Error OtherException)\<rparr>)"
    by blast
  from run_outcome [OF n this] show ?thesis
    by (auto simp: sample_run_def sample_worker_def worker_ended_def)
qed

subsection \<open>Commands in flight\<close>

fun in_flight :: "event list \<Rightarrow> int" where
  "in_flight [] = 0"
| "in_flight (Start (Uring s) # es) = 1 + in_flight es"
| "in_flight (Complete (CqeDone c) # es) = in_flight es - 1"
| "in_flight (_ # es) = in_flight es"

definition busy :: "tag_state \<Rightarrow> int" where
  "busy d = (case d of Fetching \<Rightarrow> 1 | DataFetching \<Rightarrow> 1 | Registering \<Rightarrow> 1 | Unregistering _ _ \<Rightarrow> 1 | _ \<Rightarrow> 0)"

lemma busy_fetch_done [simp]: "busy (fetch_done r) = 0"
  by (simp add: busy_def fetch_done_def split: option.splits)

lemma tag_step_in_flight:
  "tag_step q tag buf d e = Some d' \<Longrightarrow> busy d' = busy d + in_flight [e]"
  by (induction q tag buf d e rule: tag_step.induct)
    (auto simp: busy_def [of "Owned _"] busy_def [of Idle] busy_def [of Fetching] busy_def [of DataWanted]
      busy_def [of DataFetching] busy_def [of Registering] busy_def [of "Handling _ _"]
      busy_def [of "Handled _ _ _"] busy_def [of "Unregistering _ _"] busy_def [of Closed]
      split: if_splits outcome.splits)

lemma in_flight_Cons: "in_flight (e # es) = in_flight [e] + in_flight es"
  by (cases "e # es" rule: in_flight.cases) auto

lemma tag_run_in_flight:
  "tag_run q tag buf d es = Some d' \<Longrightarrow> busy d' = busy d + in_flight es"
proof (induction es arbitrary: d)
  case (Cons e es)
  then obtain d1 where "tag_step q tag buf d e = Some d1" "tag_run q tag buf d1 es = Some d'"
    by (auto split: option.splits)
  with Cons.IH tag_step_in_flight show ?case by (fastforce simp: in_flight_Cons [of e es])
qed simp

lemma conforms_in_flight:
  assumes "conforms q tag buf w"
  shows "0 \<le> in_flight (w_trace w) \<and> in_flight (w_trace w) \<le> 1"
proof -
  obtain d where "busy d = busy Idle + in_flight (w_trace w)"
    using assms tag_run_in_flight unfolding conforms_def by blast
  moreover have "0 \<le> busy d" "busy d \<le> 1" "busy Idle = 0" by (auto simp: busy_def split: tag_state.splits)
  ultimately show ?thesis by simp
qed

text \<open>
  C28. The ring that \<^verbatim>\<open>RuntimeOptions::build\<close> asks for is large enough for its queue: at any moment of
  a run each tag has at most one command in flight, so that all of them together fit into the
  submission queue, and into half of the completion queue, whatever sizes the caller requested.
\<close>

theorem commands_fit_ring:
  assumes "new_run q r" and "(run_step queue_handler q)\<^sup>*\<^sup>* r r'"
    and "build_options opts (ucast (q_queue_depth q)) = (sq, cq)"
  shows "(\<forall>w \<in> set (r_workers r'). 0 \<le> in_flight (w_trace w) \<and> in_flight (w_trace w) \<le> 1) \<and>
    (\<Sum>w\<leftarrow>r_workers r'. in_flight (w_trace w)) \<le> int (unat sq) \<and>
    2 * (\<Sum>w\<leftarrow>r_workers r'. in_flight (w_trace w)) \<le> int (unat cq)"
proof -
  let ?ws = "r_workers r'" and ?n = "unat (q_queue_depth q)"
  have "run_inv queue_handler q r'" using assms(1,2) by (rule io_run.inv_reachable)
  then have len: "length ?ws = ?n"
    and c: "\<And>tag. tag < q_queue_depth q \<Longrightarrow> conforms q tag (get_buf (q_buf_bases q) tag) (?ws ! unat tag)"
    by (auto simp: run_inv_def workers_conform_def)
  have n: "?n < 65536" using unsigned_less [of "q_queue_depth q"] by simp
  have each: "0 \<le> in_flight (w_trace w) \<and> in_flight (w_trace w) \<le> 1" if w: "w \<in> set ?ws" for w
  proof -
    obtain i where i: "i < ?n" "w = ?ws ! i" using w len by (auto simp: in_set_conv_nth)
    then have "unat (of_nat i :: u16) = i"
      using n by (simp add: unsigned_of_nat take_bit_nat_eq_self)
    with i c [of "of_nat i"] conforms_in_flight show ?thesis by (auto simp: word_less_nat_alt)
  qed
  have "(\<Sum>w\<leftarrow>?ws. in_flight (w_trace w)) \<le> (\<Sum>w\<leftarrow>?ws. 1)"
    using each by (intro sum_list_mono) auto
  then have sum: "(\<Sum>w\<leftarrow>?ws. in_flight (w_trace w)) \<le> int ?n"
    by (simp add: sum_list_triv len)
  from n have u: "unat (ucast (q_queue_depth q) :: u64) = ?n"
    by (simp add: unsigned_ucast_eq take_bit_nat_eq_self)
  then have u2: "unat (ucast (q_queue_depth q) * 2 :: u64) = ?n * 2"
    using n by (simp add: unat_word_ariths)
  have "?n \<le> unat sq"
    using assms(3) unfolding u [symmetric] by (auto simp: build_options_def word_le_nat_alt [symmetric])
  moreover have "?n * 2 \<le> unat cq"
    using assms(3) unfolding u2 [symmetric] by (auto simp: build_options_def word_le_nat_alt [symmetric])
  ultimately have "(\<Sum>w\<leftarrow>?ws. in_flight (w_trace w)) \<le> int (unat sq)"
    and "2 * (\<Sum>w\<leftarrow>?ws. in_flight (w_trace w)) \<le> int (unat cq)"
    using sum by linarith+
  with each show ?thesis by blast
qed

theorem commands_fit_ring_witness:
  "(\<Sum>w\<leftarrow>r_workers sample_run. in_flight (w_trace w)) \<le> int (unat (4 :: u64))"
proof -
  have n: "new_run sample_queue sample_run"
    by (simp add: new_run_def sample_run_def sample_queue_def sample_worker_def new_worker_def
        list_all_length)
  have "build_options default_options (ucast (q_queue_depth sample_queue)) = (4, 8)"
    by (simp add: build_options_def default_options_def sample_queue_def)
  from commands_fit_ring [OF n rtranclp.rtrancl_refl this] show ?thesis by simp
qed

end
