(* ===== verification/Ublk_Batch.thy ===== *)
theory Ublk_Batch
  imports Ublk_Batch_Layout Ublk_Worker
begin

text \<open>
  \<^verbatim>\<open>BatchIoQueue::run\<close> of \<^verbatim>\<open>detail/queue.hpp\<close> with its coroutines: one worker per tag, the flusher
  that commits their results in batches from two alternating buffers, and the callback of the
  multishot fetch that hands out requests. All run on one thread, so that a step is what happens
  between two suspension points.
\<close>

section \<open>State\<close>

text \<open>
  A futex is the queue of the single coroutine that waits for it: \<^verbatim>\<open>wait(v)\<close> suspends while the value
  is \<open>v\<close> and \<^verbatim>\<open>notify_one\<close> makes the suspended coroutine ready, whatever the value is then, and has
  no effect when nothing waits.
\<close>

datatype flusher_pc =
    FlReady
  | FlCommit nat nat
  | FlSchedule
  | FlWait
  | FlDone "(exn, unit) outcome"

datatype bworker_pc =
    BwReady
  | BwWait
  | BwWoken
  | BwRegister
  | BwHandle bool
  | BwUnregister s32 u64
  | BwDone "(exn, unit) outcome"
  | BwAssert

record bworker =
  bw_pc :: bworker_pc
  bw_flag :: bool
  bw_iod :: ublksrv_io_desc

datatype batch_action = BUring io_sqe | BHandleIo IoData | BCommit "nat batch_sqe"

text \<open>
  The fields up to \<open>b_off\<close> are variables of the program. The others describe its surroundings: the
  started operations, the place where the driver writes the next tags (\<open>b_kbid\<close>, \<open>b_koff\<close>), the tags
  the driver holds, how many elements of the batch in flight it has taken and what it read, and,
  to state what is correct, the results in the order the workers delivered them, split into those
  in the write buffer and those of the last batch.
\<close>

record batch_state =
  b_index :: nat
  b_pending :: u16
  b_mem :: "u8 list"
  b_flusher :: flusher_pc
  b_running :: nat
  b_stopped :: bool
  b_workers :: "bworker list"
  b_res :: "s32 option"
  b_fetching :: bool
  b_fetch_mem :: "u16 list list"
  b_off :: nat
  b_trace :: "batch_action list"
  b_kbid :: nat
  b_koff :: nat
  b_idle :: "nat set"
  b_taken :: nat
  b_committed :: "batch_elem list"
  b_results :: "batch_entry list"
  b_pend :: "batch_entry list"
  b_batch :: "batch_entry list"

section \<open>Operations\<close>

definition notify_flusher :: "batch_state \<Rightarrow> batch_state" where
  "notify_flusher s = (if b_flusher s = FlWait then s\<lparr>b_flusher := FlReady\<rparr> else s)"

definition notify_worker :: "bworker \<Rightarrow> bworker" where
  "notify_worker w = (if bw_pc w = BwWait then w\<lparr>bw_pc := BwWoken\<rparr> else w)"

definition set_pc :: "nat \<Rightarrow> bworker_pc \<Rightarrow> batch_state \<Rightarrow> batch_state" where
  "set_pc t pc s = s\<lparr>b_workers := (b_workers s)[t := (b_workers s ! t)\<lparr>bw_pc := pc\<rparr>]\<rparr>"

definition set_flag :: "nat \<Rightarrow> bool \<Rightarrow> batch_state \<Rightarrow> batch_state" where
  "set_flag t f s = s\<lparr>b_workers := (b_workers s)[t := (b_workers s ! t)\<lparr>bw_flag := f\<rparr>]\<rparr>"

definition act :: "batch_action \<Rightarrow> batch_state \<Rightarrow> batch_state" where
  "act a s = s\<lparr>b_trace := b_trace s @ [a]\<rparr>"

subsection \<open>Workers\<close>

text \<open>
  The end of a worker's task and the continuation that counts it: an error is recorded as a value
  first, but a stopped task skips the continuation.
\<close>

definition worker_exit :: "nat \<Rightarrow> (exn, unit) outcome \<Rightarrow> batch_state \<Rightarrow> batch_state" where
  "worker_exit t c s =
     (let s1 = set_pc t (BwDone c) s in
      if c = Stopped then s1
      else let s2 = s1\<lparr>b_running := b_running s1 - 1\<rparr> in
           if b_running s2 = 0 then notify_flusher s2 else s2)"

definition batch_handle :: "batch_queue \<Rightarrow> nat \<Rightarrow> bool \<Rightarrow> batch_state \<Rightarrow> batch_state" where
  "batch_handle q t registered s =
     act (BHandleIo \<lparr>io_q_id = bq_q_id q, io_tag = of_nat t, io_iod = bw_iod (b_workers s ! t),
            io_buf = get_buf (bq_buf_bases q) (of_nat t)\<rparr>)
       (set_pc t (BwHandle registered) s)"

text \<open>From \<^verbatim>\<open>if (stopped)\<close> to the first suspension of the loop body.\<close>

definition batch_work :: "batch_queue \<Rightarrow> nat \<Rightarrow> batch_state \<Rightarrow> batch_state" where
  "batch_work q t s =
     (let w = b_workers s ! t in
      if b_stopped s then worker_exit t (Value ()) s
      else if \<not> bw_flag w then set_pc t BwAssert s
      else let s1 = set_flag t False s in
        if need_io_buf (bq_flags q) (iod_op_flags (bw_iod w))
        then act (BUring (raw_register_io_buf (bq_ublkc_fd q) (bq_q_id q) (of_nat t) (of_nat t)))
               (set_pc t BwRegister s1)
        else batch_handle q t False s1)"

definition batch_loop :: "batch_queue \<Rightarrow> nat \<Rightarrow> batch_state \<Rightarrow> batch_state" where
  "batch_loop q t s =
     (let w = b_workers s ! t in
      if \<not> b_stopped s \<and> \<not> bw_flag w then set_pc t BwWait s else batch_work q t s)"

text \<open>
  The end of the loop body: the result is stored in the write buffer behind the pending ones and
  the flusher woken for the first; then the loop starts over.
\<close>

definition worker_entry :: "nat \<Rightarrow> ublksrv_io_desc \<Rightarrow> s32 \<Rightarrow> u64 \<Rightarrow> batch_entry" where
  "worker_entry t iod res zone_lba =
     \<lparr>en_tag = of_nat t, en_res = res,
      en_lba = (if ublksrv_get_op iod = UBLK_IO_OP_ZONE_APPEND then Some zone_lba else None)\<rparr>"

definition batch_enqueue :: "batch_queue \<Rightarrow> nat \<Rightarrow> s32 \<Rightarrow> u64 \<Rightarrow> batch_state \<Rightarrow> batch_state" where
  "batch_enqueue q t res zone_lba s =
     (let w = b_workers s ! t; slot = b_pending s; e = worker_entry t (bw_iod w) res zone_lba in
      case put_entry q (b_index s) (unat slot) e (b_mem s) of
        None \<Rightarrow> set_pc t BwAssert s
      | Some m \<Rightarrow>
          let s1 = s\<lparr>b_mem := m, b_pending := slot + 1, b_results := b_results s @ [e], b_pend := b_pend s @ [e]\<rparr>
          in batch_loop q t (if slot = 0 then notify_flusher s1 else s1))"

fun bworker_resume :: "batch_queue \<Rightarrow> nat \<Rightarrow> completion \<Rightarrow> bworker_pc \<Rightarrow> batch_state \<Rightarrow> batch_state option" where
  "bworker_resume q t (CqeDone c) BwRegister s = Some (case c of
       Value _ \<Rightarrow> batch_handle q t True s
     | Error ec \<Rightarrow> worker_exit t (Error (SystemError ec '''')) s
     | Stopped \<Rightarrow> worker_exit t Stopped s)"
| "bworker_resume q t (HandlerDone c) (BwHandle registered) s = Some (let (res, zone_lba) = io_outcome c in
     if registered
     then act (BUring (raw_unregister_io_buf (bq_ublkc_fd q) (bq_q_id q) (of_nat t) (of_nat t)))
            (set_pc t (BwUnregister res zone_lba) s)
     else batch_enqueue q t res zone_lba s)"
| "bworker_resume q t (CqeDone c) (BwUnregister res zone_lba) s = Some (case c of
       Value _ \<Rightarrow> batch_enqueue q t res zone_lba s
     | Error ec \<Rightarrow> worker_exit t (Error (SystemError ec '''')) s
     | Stopped \<Rightarrow> worker_exit t Stopped s)"
| "bworker_resume q t _ _ s = None"

subsection \<open>The flusher\<close>

definition flusher_loop :: "batch_queue \<Rightarrow> batch_state \<Rightarrow> batch_state" where
  "flusher_loop q s =
     (let nr = b_pending s; elem = commit_element_size (bq_flags q) in
      if nr > 0
      then let cur_index = b_index s in
        act (BCommit (raw_commit_io_cmds (bq_ublkc_fd q) (bq_q_id q) (get_batch_flags (bq_flags q)) nr
               (of_nat elem) (cur_index * bq_commit_buf_size q) (of_nat (unat nr * elem))))
          (s\<lparr>b_index := 1 - b_index s, b_pending := 0, b_flusher := FlCommit cur_index (unat nr),
             b_batch := b_pend s, b_pend := [], b_taken := 0\<rparr>)
      else if b_running s = 0 then s\<lparr>b_flusher := FlDone (Value ())\<rparr>
      else s\<lparr>b_flusher := FlWait\<rparr>)"

definition flusher_committed :: "batch_queue \<Rightarrow> nat \<Rightarrow> (error_code, s32) outcome \<Rightarrow> flusher_pc" where
  "flusher_committed q nr c = (case c of
       Value r \<Rightarrow> if r \<noteq> int (nr * commit_element_size (bq_flags q))
         then FlDone (Error (RuntimeError ''commit_io_cmds returned unexpected byte count'')) else FlSchedule
     | Error ec \<Rightarrow> FlDone (Error (SystemError ec ''''))
     | Stopped \<Rightarrow> FlDone Stopped)"

subsection \<open>The fetch callback\<close>

definition deliver :: "batch_state \<Rightarrow> u16 \<Rightarrow> batch_state" where
  "deliver s tag =
     (let s1 = set_flag (unat tag) True s
      in s1\<lparr>b_workers := (b_workers s1)[unat tag := notify_worker (b_workers s1 ! unat tag)]\<rparr>)"

definition fetch_cb :: "nat \<Rightarrow> nat \<Rightarrow> bool \<Rightarrow> batch_state \<Rightarrow> batch_state" where
  "fetch_cb res bid consumed s =
     (let nr_tags = res div 2;
          s1 = foldl deliver s (take nr_tags (drop (b_off s) (b_fetch_mem s ! bid)))
      in s1\<lparr>b_off := (if consumed then 0 else b_off s + nr_tags)\<rparr>)"

definition fetch_ended :: "(error_code, s32) outcome \<Rightarrow> batch_state \<Rightarrow> batch_state" where
  "fetch_ended c s = (case errno_result c of
       Some r \<Rightarrow> s\<lparr>b_fetching := False, b_res := Some r, b_stopped := True,
         b_workers := map notify_worker (b_workers s)\<rparr>
     | None \<Rightarrow> s\<lparr>b_fetching := False\<rparr>)"

section \<open>The queue and its driver\<close>

text \<open>
  One step of the queue or of its surroundings. The driver's side is what \<^verbatim>\<open>ublk_cmd.h\<close> documents:
  it only delivers a tag it holds, after it has written the request's descriptor; it writes the
  delivered tags behind the previous ones in the current fetch buffer and moves on to the other
  buffer when it is used up; it takes the elements of a commit in order and then reports how many
  bytes it handled, or an error if it handled none. A zone append is only sent to a zoned device.
\<close>

definition iod_ok :: "batch_queue \<Rightarrow> ublksrv_io_desc \<Rightarrow> bool" where
  "iod_ok q iod \<longleftrightarrow> (ublksrv_get_op iod = UBLK_IO_OP_ZONE_APPEND \<longrightarrow> need_f_zone_lba (bq_flags q))"

definition fetch_slots :: "batch_queue \<Rightarrow> nat" where
  "fetch_slots q = bq_fetch_buf_size q div 2"

definition write_tags :: "nat \<Rightarrow> u16 list \<Rightarrow> u16 list \<Rightarrow> u16 list" where
  "write_tags off tags buf = take off buf @ tags @ drop (off + length tags) buf"

definition write_iods :: "(nat \<Rightarrow> ublksrv_io_desc) \<Rightarrow> nat set \<Rightarrow> bworker list \<Rightarrow> bworker list" where
  "write_iods iods T ws = map (\<lambda>(t, w). if t \<in> T then w\<lparr>bw_iod := iods t\<rparr> else w) (enumerate 0 ws)"

definition driver_fetch ::
  "batch_queue \<Rightarrow> (nat \<Rightarrow> ublksrv_io_desc) \<Rightarrow> u16 list \<Rightarrow> bool \<Rightarrow> batch_state \<Rightarrow> batch_state" where
  "driver_fetch q iods tags consumed s =
     s\<lparr>b_workers := write_iods iods (unat ` set tags) (b_workers s), b_idle := b_idle s - unat ` set tags,
       b_fetch_mem := (b_fetch_mem s)[b_kbid s := write_tags (b_koff s) tags (b_fetch_mem s ! b_kbid s)],
       b_kbid := (if consumed then 1 - b_kbid s else b_kbid s),
       b_koff := (if consumed then 0 else b_koff s + length tags)\<rparr>"

definition driver_take :: "batch_queue \<Rightarrow> nat \<Rightarrow> batch_state \<Rightarrow> batch_state" where
  "driver_take q cur s =
     (let el = elem_at q cur (b_taken s) (b_mem s) in
      s\<lparr>b_taken := Suc (b_taken s), b_committed := b_committed s @ [el], b_idle := insert (unat (el_tag el)) (b_idle s)\<rparr>)"

definition commit_answer :: "batch_queue \<Rightarrow> nat \<Rightarrow> (error_code, s32) outcome \<Rightarrow> bool" where
  "commit_answer q taken c \<longleftrightarrow> (case c of
       Value r \<Rightarrow> r = int (taken * commit_element_size (bq_flags q)) | Error _ \<Rightarrow> taken = 0 | Stopped \<Rightarrow> True)"

inductive batch_step :: "batch_queue \<Rightarrow> batch_state \<Rightarrow> batch_state \<Rightarrow> bool" for q where
  worker_run: "t < length (b_workers s) \<Longrightarrow> bw_pc (b_workers s ! t) = BwReady \<Longrightarrow> batch_step q s (batch_loop q t s)"
| worker_woken: "t < length (b_workers s) \<Longrightarrow> bw_pc (b_workers s ! t) = BwWoken \<Longrightarrow> batch_step q s (batch_work q t s)"
| worker_done: "t < length (b_workers s) \<Longrightarrow> bworker_resume q t c (bw_pc (b_workers s ! t)) s = Some s' \<Longrightarrow>
    batch_step q s s'"
| flusher_run: "b_flusher s = FlReady \<Longrightarrow> batch_step q s (flusher_loop q s)"
| flusher_take: "b_flusher s = FlCommit cur nr \<Longrightarrow> b_taken s < nr \<Longrightarrow> batch_step q s (driver_take q cur s)"
| flusher_done: "b_flusher s = FlCommit cur nr \<Longrightarrow> commit_answer q (b_taken s) c \<Longrightarrow>
    batch_step q s (s\<lparr>b_flusher := flusher_committed q nr c\<rparr>)"
| flusher_scheduled: "b_flusher s = FlSchedule \<Longrightarrow> batch_step q s (s\<lparr>b_flusher := FlReady\<rparr>)"
| fetch: "b_fetching s \<Longrightarrow> distinct tags \<Longrightarrow> unat ` set tags \<subseteq> b_idle s \<Longrightarrow> (\<forall>t. iod_ok q (iods t)) \<Longrightarrow>
    b_koff s + length tags \<le> fetch_slots q \<Longrightarrow> (b_koff s + length tags = fetch_slots q \<longrightarrow> consumed) \<Longrightarrow>
    batch_step q s (fetch_cb (2 * length tags) (b_kbid s) consumed (driver_fetch q iods tags consumed s))"
| fetch_end: "b_fetching s \<Longrightarrow> batch_step q s (fetch_ended c s)"

definition batch_init :: "batch_queue \<Rightarrow> batch_state \<Rightarrow> bool" where
  "batch_init q s \<longleftrightarrow> b_index s = 0 \<and> b_pending s = 0 \<and> commit_mem q (b_mem s) \<and> b_flusher s = FlReady \<and>
     b_running s = unat (bq_queue_depth q) \<and> \<not> b_stopped s \<and>
     length (b_workers s) = unat (bq_queue_depth q) \<and>
     list_all (\<lambda>w. bw_pc w = BwReady \<and> \<not> bw_flag w) (b_workers s) \<and>
     b_res s = None \<and> b_fetching s \<and> map length (b_fetch_mem s) = [fetch_slots q, fetch_slots q] \<and> b_off s = 0 \<and>
     b_trace s = [] \<and> b_kbid s = 0 \<and> b_koff s = 0 \<and> b_idle s = {..<unat (bq_queue_depth q)} \<and>
     b_taken s = 0 \<and> b_committed s = [] \<and> b_results s = [] \<and> b_pend s = [] \<and> b_batch s = []"

section \<open>Invariant\<close>

definition tags_of :: "batch_entry list \<Rightarrow> nat set" where
  "tags_of es = (\<lambda>e. unat (en_tag e)) ` set es"

definition working :: "bworker_pc \<Rightarrow> bool" where
  "working pc \<longleftrightarrow> (case pc of BwRegister \<Rightarrow> True | BwHandle _ \<Rightarrow> True | BwUnregister _ _ \<Rightarrow> True | _ \<Rightarrow> False)"

definition counted :: "bworker \<Rightarrow> bool" where
  "counted w \<longleftrightarrow> (case bw_pc w of BwDone c \<Rightarrow> c = Stopped | _ \<Rightarrow> True)"

text \<open>
  A tag is in one place at a time: at the driver, flagged for its worker, being worked on, pending
  in the write buffer or in the batch in flight. A worker that waits has nothing to do, one that
  was woken has, and only a stopped queue ends a worker normally.
\<close>

definition worker_ok :: "batch_queue \<Rightarrow> bool \<Rightarrow> bool \<Rightarrow> bool \<Rightarrow> bworker \<Rightarrow> bool" where
  "worker_ok q stopped idle committing w \<longleftrightarrow>
     (bw_pc w = BwWait \<longrightarrow> \<not> bw_flag w \<and> \<not> stopped) \<and>
     (bw_pc w = BwWoken \<longrightarrow> bw_flag w \<or> stopped) \<and>
     (bw_pc w = BwDone (Value ()) \<longrightarrow> stopped) \<and>
     bw_pc w \<noteq> BwAssert \<and>
     (bw_flag w \<longrightarrow> \<not> working (bw_pc w) \<and> \<not> idle \<and> \<not> committing) \<and>
     (working (bw_pc w) \<longrightarrow> \<not> idle \<and> \<not> committing) \<and>
     \<not> (idle \<and> committing) \<and>
     (bw_flag w \<or> working (bw_pc w) \<longrightarrow> iod_ok q (bw_iod w)) \<and>
     (\<forall>res lba. bw_pc w = BwUnregister res lba \<longrightarrow> in_s32 res)"

definition open_entries :: "batch_state \<Rightarrow> batch_entry list" where
  "open_entries s = drop (b_taken s) (b_batch s) @ b_pend s"

definition workers_inv :: "batch_queue \<Rightarrow> batch_state \<Rightarrow> bool" where
  "workers_inv q s \<longleftrightarrow> length (b_workers s) = unat (bq_queue_depth q) \<and>
     (\<forall>t < length (b_workers s).
        worker_ok q (b_stopped s) (t \<in> b_idle s) (t \<in> tags_of (open_entries s)) (b_workers s ! t)) \<and>
     b_idle s \<subseteq> {..<unat (bq_queue_depth q)}"

definition entry_matches :: "batch_entry \<Rightarrow> batch_elem \<Rightarrow> bool" where
  "entry_matches e el \<longleftrightarrow> el_tag el = en_tag e \<and> el_result el = en_res e \<and> (en_lba e \<noteq> None \<longrightarrow> el_zone_lba el = en_lba e)"

text \<open>While a batch is in flight the write buffer is the other one, so that the batch stays as it is.\<close>

fun flusher_ok :: "batch_queue \<Rightarrow> nat \<Rightarrow> nat \<Rightarrow> batch_entry list \<Rightarrow> u8 list \<Rightarrow> flusher_pc \<Rightarrow> bool" where
  "flusher_ok q index taken batch m (FlCommit cur nr) \<longleftrightarrow>
     cur = 1 - index \<and> nr = length batch \<and> taken \<le> nr \<and> commit_buf.contents q cur batch m"
| "flusher_ok q index taken batch m (FlDone _) \<longleftrightarrow> True"
| "flusher_ok q index taken batch m _ \<longleftrightarrow> taken = length batch"

definition buffers_inv :: "batch_queue \<Rightarrow> batch_state \<Rightarrow> bool" where
  "buffers_inv q s \<longleftrightarrow> commit_mem q (b_mem s) \<and> b_index s < 2 \<and>
     unat (b_pending s) = length (b_pend s) \<and> list_all (valid_entry q) (open_entries s) \<and>
     distinct (map en_tag (open_entries s)) \<and>
     commit_buf.contents q (b_index s) (b_pend s) (b_mem s) \<and>
     flusher_ok q (b_index s) (b_taken s) (b_batch s) (b_mem s) (b_flusher s) \<and>
     (\<exists>taken. b_results s = taken @ open_entries s \<and> list_all2 entry_matches taken (b_committed s))"

definition wakeup_inv :: "batch_state \<Rightarrow> bool" where
  "wakeup_inv s \<longleftrightarrow> b_running s = length (filter counted (b_workers s)) \<and>
     (b_flusher s = FlWait \<longrightarrow> b_pend s = [] \<and> b_running s > 0) \<and>
     (b_flusher s = FlDone (Value ()) \<longrightarrow> open_entries s = [] \<and> b_running s = 0)"

definition fetch_inv :: "batch_queue \<Rightarrow> batch_state \<Rightarrow> bool" where
  "fetch_inv q s \<longleftrightarrow> b_off s = b_koff s \<and> b_kbid s < 2 \<and> b_koff s \<le> fetch_slots q \<and>
     map length (b_fetch_mem s) = [fetch_slots q, fetch_slots q] \<and> (b_stopped s \<longleftrightarrow> b_res s \<noteq> None) \<and>
     \<not> (b_stopped s \<and> b_fetching s)"

definition batch_inv :: "batch_queue \<Rightarrow> batch_state \<Rightarrow> bool" where
  "batch_inv q s \<longleftrightarrow> workers_inv q s \<and> buffers_inv q s \<and> wakeup_inv s \<and> fetch_inv q s"

lemma count_update:
  assumes "t < length ws"
  shows "length (filter counted (ws[t := w])) + (if counted (ws ! t) then 1 else 0) =
    length (filter counted ws) + (if counted w then 1 else 0)"
  using assms
proof (induction ws arbitrary: t)
  case (Cons x ws)
  then show ?case by (cases t) auto
qed simp

lemma not_counted: "\<not> counted w \<Longrightarrow> \<exists>c. bw_pc w = BwDone c \<and> c \<noteq> Stopped"
  by (cases "bw_pc w") (auto simp: counted_def)

lemma counted_pos:
  assumes "t < length ws" and "counted (ws ! t)"
  shows "0 < length (filter counted ws)"
  using assms by (metis filter_empty_conv length_greater_0_conv nth_mem)

lemmas batch_unfold =
  set_pc_def set_flag_def act_def open_entries_def

text \<open>Replacing one worker keeps the invariant when the new one fits and is counted alike.\<close>

lemma batch_inv_worker:
  assumes "batch_inv q s" and "t < length (b_workers s)"
    and "worker_ok q (b_stopped s) (t \<in> b_idle s) (t \<in> tags_of (open_entries s)) w"
    and "counted w = counted (b_workers s ! t)"
  shows "batch_inv q (s\<lparr>b_workers := (b_workers s)[t := w]\<rparr>)"
  using assms count_update [OF assms(2), of w]
  by (auto simp: batch_inv_def workers_inv_def buffers_inv_def wakeup_inv_def fetch_inv_def open_entries_def
      nth_list_update split: if_splits)

lemma batch_inv_act [simp]: "batch_inv q (act a s) = batch_inv q s"
  by (simp add: batch_inv_def workers_inv_def buffers_inv_def wakeup_inv_def fetch_inv_def open_entries_def act_def)

lemma batch_inv_notify:
  assumes "batch_inv q s" shows "batch_inv q (notify_flusher s)"
  using assms
  by (auto simp: batch_inv_def workers_inv_def buffers_inv_def wakeup_inv_def fetch_inv_def open_entries_def
      notify_flusher_def)

lemma batch_inv_ok:
  assumes "batch_inv q s" and "t < length (b_workers s)"
  shows "worker_ok q (b_stopped s) (t \<in> b_idle s) (t \<in> tags_of (open_entries s)) (b_workers s ! t)"
  using assms by (simp add: batch_inv_def workers_inv_def)

lemma batch_inv_exit:
  assumes "batch_inv q s" and "t < length (b_workers s)" and "counted (b_workers s ! t)"
    and "c = Value () \<Longrightarrow> b_stopped s"
  shows "batch_inv q (worker_exit t c s)"
proof (cases "c = Stopped")
  case True
  with assms batch_inv_ok [OF assms(1,2)] show ?thesis
    by (auto simp: worker_exit_def set_pc_def counted_def [of "_\<lparr>bw_pc := _\<rparr>"] worker_ok_def working_def
        intro!: batch_inv_worker)
next
  case False
  let ?w = "(b_workers s ! t)\<lparr>bw_pc := BwDone c\<rparr>"
  let ?s = "s\<lparr>b_workers := (b_workers s)[t := ?w], b_running := b_running s - 1\<rparr>"
  have ok: "worker_ok q (b_stopped s) (t \<in> b_idle s) (t \<in> tags_of (open_entries s)) ?w"
    using batch_inv_ok [OF assms(1,2)] assms(4) by (auto simp: worker_ok_def working_def)
  have cnt: "Suc (length (filter counted ((b_workers s)[t := ?w]))) = b_running s"
    using count_update [OF assms(2), of ?w] assms(1,3) False
    by (auto simp: batch_inv_def wakeup_inv_def counted_def [of ?w])
  have w: "workers_inv q ?s" and b: "buffers_inv q ?s" and f: "fetch_inv q ?s"
    using assms(1,2) ok
    by (auto simp: batch_inv_def workers_inv_def buffers_inv_def fetch_inv_def open_entries_def nth_list_update)
  have u: "b_running ?s = length (filter counted (b_workers ?s))"
    "b_flusher ?s = FlWait \<longrightarrow> b_pend ?s = []" "b_flusher ?s \<noteq> FlDone (Value ())"
    using assms(1) cnt by (auto simp: batch_inv_def wakeup_inv_def)
  show ?thesis
  proof (cases "b_running ?s = 0")
    case True
    with w b f u have "batch_inv q (notify_flusher ?s)"
      by (auto simp: batch_inv_def workers_inv_def buffers_inv_def wakeup_inv_def fetch_inv_def
          open_entries_def notify_flusher_def)
    with True False show ?thesis by (simp add: worker_exit_def set_pc_def Let_def)
  next
    case nz: False
    with w b f u have "batch_inv q ?s" by (auto simp: batch_inv_def wakeup_inv_def)
    with nz False show ?thesis by (simp add: worker_exit_def set_pc_def Let_def)
  qed
qed

subsection \<open>Workers keep the invariant\<close>

lemma batch_inv_work:
  assumes inv: "batch_inv q s" and t: "t < length (b_workers s)"
    and pc: "bw_pc (b_workers s ! t) \<in> {BwReady, BwWoken}" and go: "bw_flag (b_workers s ! t) \<or> b_stopped s"
  shows "batch_inv q (batch_work q t s)"
proof (cases "b_stopped s")
  case True
  have "counted (b_workers s ! t)" using pc by (auto simp: counted_def)
  with True batch_inv_exit [OF inv t] show ?thesis by (simp add: batch_work_def)
next
  case False
  have "batch_inv q (s\<lparr>b_workers := (b_workers s)[t := (b_workers s ! t)\<lparr>bw_flag := False, bw_pc := p\<rparr>]\<rparr>)"
    if "p = BwRegister \<or> p = BwHandle False" for p
    using batch_inv_ok [OF inv t] False go pc that
    by (intro batch_inv_worker [OF inv t]) (auto simp: worker_ok_def working_def counted_def)
  with False go t show ?thesis
    by (simp add: batch_work_def Let_def batch_handle_def set_pc_def set_flag_def)
qed

lemma batch_inv_loop:
  assumes inv: "batch_inv q s" and t: "t < length (b_workers s)" and pc: "bw_pc (b_workers s ! t) = BwReady"
  shows "batch_inv q (batch_loop q t s)"
proof (cases "\<not> b_stopped s \<and> \<not> bw_flag (b_workers s ! t)")
  case True
  then have "batch_inv q (set_pc t BwWait s)"
    unfolding set_pc_def using batch_inv_ok [OF inv t] pc
    by (intro batch_inv_worker [OF inv t]) (auto simp: worker_ok_def working_def counted_def)
  with True show ?thesis by (simp add: batch_loop_def)
next
  case False
  with batch_inv_work [OF inv t] pc show ?thesis by (auto simp: batch_loop_def)
qed

lemma set_pc_set_pc [simp]: "set_pc t p (set_pc t p' s) = set_pc t p s"
  by (cases "t < length (b_workers s)") (simp_all add: set_pc_def list_update_beyond)

lemma batch_loop_ignores_pc:
  assumes "t < length (b_workers s)"
  shows "batch_loop q t (set_pc t p s) = batch_loop q t s"
proof -
  have flag: "set_flag t f (set_pc t p s) = set_pc t p (set_flag t f s)" for f
    using assms by (cases "b_workers s ! t") (simp add: set_pc_def set_flag_def)
  have w: "b_workers (set_pc t p s) ! t = (b_workers s ! t)\<lparr>bw_pc := p\<rparr>"
    "b_workers (set_pc t p (set_flag t f s)) ! t = (b_workers s ! t)\<lparr>bw_pc := p, bw_flag := f\<rparr>"
    "b_workers (set_flag t f s) ! t = (b_workers s ! t)\<lparr>bw_flag := f\<rparr>" for f
    using assms by (simp_all add: set_pc_def set_flag_def)
  have st: "b_stopped (set_pc t p s) = b_stopped s" by (simp add: set_pc_def)
  show ?thesis
    by (simp add: batch_loop_def batch_work_def worker_exit_def batch_handle_def Let_def flag w st)
qed

lemma worker_entry_valid:
  assumes "t < unat (bq_queue_depth q)" and "in_s32 res" and "iod_ok q iod"
  shows "valid_entry q (worker_entry t iod res lba)" and "unat (en_tag (worker_entry t iod res lba)) = t"
proof -
  have "unat (bq_queue_depth q) < 65536" using unsigned_less [of "bq_queue_depth q"] by simp
  then have "unat (of_nat t :: u16) = t" using assms(1) by (simp add: unsigned_of_nat take_bit_nat_eq_self)
  then show "unat (en_tag (worker_entry t iod res lba)) = t" "valid_entry q (worker_entry t iod res lba)"
    using assms by (auto simp: worker_entry_def valid_entry_def word_less_nat_alt iod_ok_def)
qed

lemma pend_room:
  assumes "batch_inv q s" and "t < unat (bq_queue_depth q)" and "t \<notin> tags_of (open_entries s)"
  shows "length (b_pend s) < unat (bq_queue_depth q)"
proof -
  let ?P = "map en_tag (b_pend s)"
  have d: "distinct ?P" and v: "list_all (valid_entry q) (b_pend s)"
    using assms(1) by (auto simp: batch_inv_def buffers_inv_def open_entries_def)
  have "length ?P = card (unat ` set ?P)"
    using d by (simp add: distinct_card card_image inj_on_def word_unat_eq_iff del: length_map set_map)
  moreover have "unat ` set ?P \<subseteq> {..<unat (bq_queue_depth q)} - {t}"
    using v assms(3) by (auto simp: list_all_iff valid_entry_def word_less_nat_alt tags_of_def open_entries_def)
  then have "card (unat ` set ?P) \<le> card ({..<unat (bq_queue_depth q)} - {t})"
    by (intro card_mono) auto
  ultimately show ?thesis using assms(2) by simp
qed

lemma tags_of_Nil [simp]: "tags_of [] = {}"
  by (simp add: tags_of_def)

lemma tags_of_append [simp]: "tags_of (xs @ ys) = tags_of xs \<union> tags_of ys"
  by (auto simp: tags_of_def)

text \<open>Storing a result succeeds and leaves the batch in flight alone.\<close>

lemma enqueue_stores:
  assumes wf: "batch_wf q" and inv: "batch_inv q s" and e: "valid_entry q e"
    and room: "length (b_pend s) < unat (bq_queue_depth q)"
  shows "\<exists>m. put_entry q (b_index s) (unat (b_pending s)) e (b_mem s) = Some m \<and> commit_mem q m \<and>
    commit_buf.contents q (b_index s) (b_pend s @ [e]) m \<and>
    flusher_ok q (b_index s) (b_taken s) (b_batch s) m (b_flusher s)"
proof -
  let ?i = "b_index s"
  have slot: "unat (b_pending s) = length (b_pend s)" and i: "?i < 2" and mem: "commit_mem q (b_mem s)"
    and c: "commit_buf.contents q ?i (b_pend s) (b_mem s)"
    and f: "flusher_ok q ?i (b_taken s) (b_batch s) (b_mem s) (b_flusher s)"
    using inv by (simp_all add: batch_inv_def buffers_inv_def)
  obtain m where m: "put_entry q ?i (length (b_pend s)) e (b_mem s) = Some m" "commit_mem q m"
      "commit_buf.contents q ?i (b_pend s @ [e]) m"
    using commit_buf.put_appends [OF wf mem i e c room] by auto
  have "1 - ?i < 2" "1 - ?i \<noteq> ?i" using i by arith+
  then have "commit_buf.contents q (1 - ?i) (b_batch s) m"
    if "commit_buf.contents q (1 - ?i) (b_batch s) (b_mem s)"
    using commit_buf.put_keeps_other_buffer [OF wf mem i e room m(1) _ _ that] by simp
  with f have "flusher_ok q ?i (b_taken s) (b_batch s) m (b_flusher s)" by (cases "b_flusher s") auto
  with m slot show ?thesis by auto
qed

text \<open>The state between storing the result and starting the loop over.\<close>

definition stored :: "batch_entry \<Rightarrow> u8 list \<Rightarrow> batch_state \<Rightarrow> batch_state" where
  "stored e m s =
     (let s1 = s\<lparr>b_mem := m, b_pending := b_pending s + 1, b_results := b_results s @ [e], b_pend := b_pend s @ [e]\<rparr>
      in if b_pending s = 0 then notify_flusher s1 else s1)"

lemma stored_fields [simp]:
  "b_workers (stored e m s) = b_workers s" "b_stopped (stored e m s) = b_stopped s"
  "b_idle (stored e m s) = b_idle s" "open_entries (stored e m s) = open_entries s @ [e]"
  "b_mem (stored e m s) = m" "b_index (stored e m s) = b_index s" "b_pending (stored e m s) = b_pending s + 1"
  "b_pend (stored e m s) = b_pend s @ [e]" "b_taken (stored e m s) = b_taken s" "b_batch (stored e m s) = b_batch s"
  "b_results (stored e m s) = b_results s @ [e]" "b_committed (stored e m s) = b_committed s"
  "b_running (stored e m s) = b_running s" "fetch_inv q (stored e m s) = fetch_inv q s"
  "b_flusher (stored e m s) = (if b_pending s = 0 \<and> b_flusher s = FlWait then FlReady else b_flusher s)"
  by (simp_all add: stored_def notify_flusher_def open_entries_def fetch_inv_def Let_def)

lemma set_pc_fields [simp]:
  "b_workers (set_pc t p s) = (b_workers s)[t := (b_workers s ! t)\<lparr>bw_pc := p\<rparr>]"
  "b_stopped (set_pc t p s) = b_stopped s" "b_idle (set_pc t p s) = b_idle s"
  "open_entries (set_pc t p s) = open_entries s" "b_running (set_pc t p s) = b_running s"
  "b_pend (set_pc t p s) = b_pend s" "b_flusher (set_pc t p s) = b_flusher s"
  "buffers_inv q (set_pc t p s) = buffers_inv q s" "fetch_inv q (set_pc t p s) = fetch_inv q s"
  by (simp_all add: set_pc_def open_entries_def buffers_inv_def fetch_inv_def)

lemma stored_buffers:
  assumes inv: "batch_inv q s" and e: "valid_entry q e" "unat (en_tag e) \<notin> tags_of (open_entries s)"
    and room: "length (b_pend s) < unat (bq_queue_depth q)"
    and m: "commit_mem q m" "commit_buf.contents q (b_index s) (b_pend s @ [e]) m"
      "flusher_ok q (b_index s) (b_taken s) (b_batch s) m (b_flusher s)"
  shows "buffers_inv q (stored e m s)"
proof -
  have B: "buffers_inv q s" using inv by (simp add: batch_inv_def)
  have slot: "unat (b_pending s) = length (b_pend s)" using B by (simp add: buffers_inv_def)
  have "unat (bq_queue_depth q) < 65536" using unsigned_less [of "bq_queue_depth q"] by simp
  with room slot have "unat (b_pending s + 1) = Suc (unat (b_pending s))"
    by (simp add: unat_word_ariths)
  moreover have "en_tag e \<notin> en_tag ` set (open_entries s)" using e(2) by (auto simp: tags_of_def)
  moreover have "flusher_ok q (b_index s) (b_taken s) (b_batch s) m
      (if b_pending s = 0 \<and> b_flusher s = FlWait then FlReady else b_flusher s)"
    using m(3) by auto
  moreover obtain taken where "b_results s = taken @ open_entries s" "list_all2 entry_matches taken (b_committed s)"
    using B by (auto simp: buffers_inv_def)
  ultimately show ?thesis
    using B m(1,2) e(1) slot by (auto simp: buffers_inv_def simp del: flusher_ok.simps)
qed

lemma batch_inv_enqueue:
  assumes wf: "batch_wf q" and inv: "batch_inv q s" and t: "t < length (b_workers s)"
    and pc: "working (bw_pc (b_workers s ! t))" and res: "in_s32 res"
  shows "batch_inv q (batch_enqueue q t res lba s)"
proof -
  let ?w = "b_workers s ! t" and ?e = "worker_entry t (bw_iod (b_workers s ! t)) res lba"
  have W: "workers_inv q s" and U: "wakeup_inv s" and F: "fetch_inv q s"
    and slot: "unat (b_pending s) = length (b_pend s)"
    using inv by (simp_all add: batch_inv_def buffers_inv_def)
  have ok: "\<not> bw_flag ?w" "t \<notin> b_idle s" "t \<notin> tags_of (open_entries s)" "iod_ok q (bw_iod ?w)"
    using batch_inv_ok [OF inv t] pc by (auto simp: worker_ok_def)
  have td: "t < unat (bq_queue_depth q)" using W t by (simp add: workers_inv_def)
  note e = worker_entry_valid [OF td res ok(4), of lba]
  note room = pend_room [OF inv td ok(3)]
  obtain m where put: "put_entry q (b_index s) (unat (b_pending s)) ?e (b_mem s) = Some m"
    and m: "commit_mem q m" "commit_buf.contents q (b_index s) (b_pend s @ [?e]) m"
      "flusher_ok q (b_index s) (b_taken s) (b_batch s) m (b_flusher s)"
    using enqueue_stores [OF wf inv e(1) room] by blast
  have cnt: "counted ?w" using pc by (auto simp: counted_def working_def split: bworker_pc.splits)
  have run: "0 < b_running s" using U counted_pos [OF t cnt] by (simp add: wakeup_inv_def)
  let ?s2 = "stored ?e m s"
  have "workers_inv q (set_pc t BwReady ?s2)"
    using W t ok e(2) by (auto simp: workers_inv_def nth_list_update worker_ok_def working_def tags_of_def)
  moreover have "buffers_inv q (set_pc t BwReady ?s2)"
    using stored_buffers [OF inv e(1) _ room m] e(2) ok(3) by simp
  moreover have "wakeup_inv (set_pc t BwReady ?s2)"
    using U run count_update [OF t, of "?w\<lparr>bw_pc := BwReady\<rparr>"] cnt slot
      word_unat_eq_iff [of "b_pending s" 0]
    by (auto simp: wakeup_inv_def counted_def [of "?w\<lparr>bw_pc := BwReady\<rparr>"])
  ultimately have "batch_inv q (set_pc t BwReady ?s2)" using F by (simp add: batch_inv_def)
  then have "batch_inv q (batch_loop q t (set_pc t BwReady ?s2))"
    using t by (intro batch_inv_loop) simp_all
  moreover have "batch_loop q t (set_pc t BwReady ?s2) = batch_loop q t ?s2"
    using t by (intro batch_loop_ignores_pc) simp
  ultimately show ?thesis using put by (simp add: batch_enqueue_def stored_def Let_def)
qed

lemma batch_inv_resume:
  assumes wf: "batch_wf q" and inv: "batch_inv q s" and t: "t < length (b_workers s)"
    and r: "bworker_resume q t c (bw_pc (b_workers s ! t)) s = Some s'"
  shows "batch_inv q s'"
proof -
  let ?w = "b_workers s ! t"
  have pcs: "batch_inv q (set_pc t p s)" if "working (bw_pc ?w)" "working p" "\<forall>res lba. p = BwUnregister res lba \<longrightarrow> in_s32 res" for p
    unfolding set_pc_def using batch_inv_ok [OF inv t] that
    by (intro batch_inv_worker [OF inv t])
      (auto simp: worker_ok_def counted_def working_def split: bworker_pc.splits)
  have exit: "batch_inv q (worker_exit t d s)" if "working (bw_pc ?w)" "d \<noteq> Value ()" for d
    using that by (intro batch_inv_exit [OF inv t]) (auto simp: counted_def working_def split: bworker_pc.splits)
  have s32: "in_s32 res" if "bw_pc ?w = BwUnregister res lba" for res lba
    using batch_inv_ok [OF inv t] that by (auto simp: worker_ok_def)
  consider d where "bw_pc ?w = BwRegister" "c = CqeDone d" | d reg where "bw_pc ?w = BwHandle reg" "c = HandlerDone d"
    | d res lba where "bw_pc ?w = BwUnregister res lba" "c = CqeDone d"
    using r by (cases "bw_pc ?w"; cases c) auto
  then show ?thesis
  proof cases
    case 1
    with r pcs [of "BwHandle True"] exit show ?thesis
      by (auto simp: working_def batch_handle_def split: outcome.splits)
  next
    case (2 d reg)
    obtain res lba where o: "io_outcome d = (res, lba)" by fastforce
    with 2 r have "s' = (if reg then act (BUring (raw_unregister_io_buf (bq_ublkc_fd q) (bq_q_id q) (of_nat t) (of_nat t)))
        (set_pc t (BwUnregister res lba) s) else batch_enqueue q t res lba s)" by simp
    with 2 in_s32_io_outcome [OF o] pcs [of "BwUnregister res lba"] batch_inv_enqueue [OF wf inv t] show ?thesis
      by (simp add: working_def)
  next
    case (3 d res lba)
    with r s32 exit batch_inv_enqueue [OF wf inv t] show ?thesis
      by (auto simp: working_def split: outcome.splits)
  qed
qed

subsection \<open>The flusher and the driver keep the invariant\<close>

lemma batch_inv_flusher:
  assumes inv: "batch_inv q s" and f: "b_flusher s = FlReady"
  shows "batch_inv q (flusher_loop q s)"
proof -
  have tk: "b_taken s = length (b_batch s)" and i: "b_index s < 2" and slot: "unat (b_pending s) = length (b_pend s)"
    using inv f by (auto simp: batch_inv_def buffers_inv_def)
  then have "1 - (1 - b_index s) = b_index s" and "1 - b_index s < 2" by arith+
  moreover have "0 < b_pending s \<longleftrightarrow> b_pend s \<noteq> []"
    using slot by (auto simp: word_less_nat_alt)
  ultimately show ?thesis
    using inv f tk slot
    by (auto simp: flusher_loop_def Let_def batch_inv_def workers_inv_def buffers_inv_def wakeup_inv_def
        fetch_inv_def open_entries_def act_def)
qed

lemma batch_inv_commit_done:
  assumes inv: "batch_inv q s" and f: "b_flusher s = FlCommit cur nr" and a: "commit_answer q (b_taken s) c"
  shows "batch_inv q (s\<lparr>b_flusher := flusher_committed q nr c\<rparr>)"
proof -
  have nr: "nr = length (b_batch s)" using inv f by (simp add: batch_inv_def buffers_inv_def)
  have pos: "0 < commit_element_size (bq_flags q)" by (simp add: element_size_cases)
  then have eq: "int (b_taken s * commit_element_size (bq_flags q)) = int (nr * commit_element_size (bq_flags q)) \<longleftrightarrow>
      b_taken s = nr"
    by (simp flip: of_nat_mult)
  have "flusher_committed q nr c = FlSchedule \<and> b_taken s = nr \<or>
      (\<exists>d. flusher_committed q nr c = FlDone d \<and> d \<noteq> Value ())"
    using a eq by (auto simp: flusher_committed_def commit_answer_def split: outcome.splits)
  with inv nr show ?thesis
    by (auto simp: batch_inv_def workers_inv_def buffers_inv_def wakeup_inv_def fetch_inv_def open_entries_def)
qed

lemma batch_inv_take:
  assumes inv: "batch_inv q s" and f: "b_flusher s = FlCommit cur nr" and lt: "b_taken s < nr"
  shows "batch_inv q (driver_take q cur s)"
proof -
  let ?e = "b_batch s ! b_taken s" and ?el = "elem_at q cur (b_taken s) (b_mem s)"
  have nr: "nr = length (b_batch s)" and c: "commit_buf.contents q cur (b_batch s) (b_mem s)"
    using inv f by (auto simp: batch_inv_def buffers_inv_def)
  have "holds_entry q cur (b_taken s) ?e (b_mem s)"
    using c lt nr by (simp add: commit_buf.contents_def)
  then have m: "el_tag ?el = en_tag ?e" "entry_matches ?e ?el"
    by (simp_all add: holds_entry_def entry_matches_def Let_def)
  have op: "open_entries s = ?e # drop (Suc (b_taken s)) (b_batch s) @ b_pend s"
    using lt nr by (simp add: open_entries_def Cons_nth_drop_Suc)
  let ?s = "driver_take q cur s"
  have s: "open_entries ?s = drop (Suc (b_taken s)) (b_batch s) @ b_pend s"
    "b_idle ?s = insert (unat (en_tag ?e)) (b_idle s)" "b_results ?s = b_results s"
    "b_committed ?s = b_committed s @ [?el]"
    by (simp_all add: open_entries_def driver_take_def Let_def m)
  have notin: "unat (en_tag ?e) \<notin> tags_of (open_entries ?s)"
    using inv op s by (auto simp: batch_inv_def buffers_inv_def tags_of_def word_unat_eq_iff [symmetric])
  have v: "unat (en_tag ?e) < unat (bq_queue_depth q)"
    using inv op by (simp add: batch_inv_def buffers_inv_def valid_entry_def word_less_nat_alt)
  have tags: "tags_of (open_entries s) = insert (unat (en_tag ?e)) (tags_of (open_entries ?s))"
    by (simp add: op s tags_of_def)
  have "workers_inv q ?s"
    unfolding workers_inv_def
  proof (intro conjI allI impI)
    fix t assume t: "t < length (b_workers ?s)"
    then have "worker_ok q (b_stopped s) (t \<in> b_idle s) (t \<in> tags_of (open_entries s)) (b_workers s ! t)"
      using inv by (intro batch_inv_ok) (simp_all add: driver_take_def Let_def)
    with notin show "worker_ok q (b_stopped ?s) (t \<in> b_idle ?s) (t \<in> tags_of (open_entries ?s)) (b_workers ?s ! t)"
      unfolding tags s(2) by (cases "t = unat (en_tag ?e)") (auto simp: worker_ok_def driver_take_def Let_def)
  qed (use inv v in \<open>auto simp: batch_inv_def workers_inv_def driver_take_def Let_def m\<close>)
  moreover have "buffers_inv q ?s"
  proof -
    obtain taken where "b_results s = taken @ open_entries s" "list_all2 entry_matches taken (b_committed s)"
      using inv by (auto simp: batch_inv_def buffers_inv_def)
    then have "b_results ?s = (taken @ [?e]) @ open_entries ?s" "list_all2 entry_matches (taken @ [?e]) (b_committed ?s)"
      using m(2) by (simp_all add: op s list_all2_appendI)
    moreover have "list_all (valid_entry q) (open_entries ?s)" "distinct (map en_tag (open_entries ?s))"
      using inv op s by (auto simp: batch_inv_def buffers_inv_def)
    ultimately show ?thesis
      using inv f lt by (auto simp: batch_inv_def buffers_inv_def driver_take_def Let_def)
  qed
  moreover have "wakeup_inv ?s" and "fetch_inv q ?s"
    using inv f by (auto simp: batch_inv_def wakeup_inv_def fetch_inv_def driver_take_def Let_def)
  ultimately show ?thesis by (simp add: batch_inv_def)
qed

subsection \<open>Fetching keeps the invariant\<close>

lemma length_write_iods [simp]: "length (write_iods iods T ws) = length ws"
  by (simp add: write_iods_def)

lemma nth_write_iods:
  "t < length ws \<Longrightarrow> write_iods iods T ws ! t = (if t \<in> T then (ws ! t)\<lparr>bw_iod := iods t\<rparr> else ws ! t)"
  by (simp add: write_iods_def nth_enumerate_eq)

definition flagged :: "nat set \<Rightarrow> bworker list \<Rightarrow> bworker list" where
  "flagged T ws = map (\<lambda>(t, w). if t \<in> T then notify_worker (w\<lparr>bw_flag := True\<rparr>) else w) (enumerate 0 ws)"

lemma length_flagged [simp]: "length (flagged T ws) = length ws"
  by (simp add: flagged_def)

lemma nth_flagged:
  "t < length ws \<Longrightarrow> flagged T ws ! t = (if t \<in> T then notify_worker ((ws ! t)\<lparr>bw_flag := True\<rparr>) else ws ! t)"
  by (simp add: flagged_def nth_enumerate_eq)

lemma deliver_flagged:
  assumes "unat tag < length (b_workers s)"
  shows "deliver s tag = s\<lparr>b_workers := flagged {unat tag} (b_workers s)\<rparr>"
proof -
  have "(b_workers s)[unat tag := notify_worker ((b_workers s ! unat tag)\<lparr>bw_flag := True\<rparr>)] =
      flagged {unat tag} (b_workers s)"
    by (rule nth_equalityI) (auto simp: nth_flagged nth_list_update)
  then show ?thesis using assms by (simp add: deliver_def set_flag_def Let_def)
qed

lemma flagged_flagged: "flagged T (flagged T' ws) = flagged (T \<union> T') ws"
  by (rule nth_equalityI) (auto simp: nth_flagged notify_worker_def)

lemma foldl_deliver:
  "unat ` set tags \<subseteq> {..<length (b_workers s)} \<Longrightarrow>
   foldl deliver s tags = s\<lparr>b_workers := flagged (unat ` set tags) (b_workers s)\<rparr>"
proof (induction tags arbitrary: s)
  case Nil
  have "flagged {} (b_workers s) = b_workers s" by (rule nth_equalityI) (simp_all add: nth_flagged)
  then show ?case by simp
next
  case (Cons tag tags)
  then show ?case by (simp add: deliver_flagged flagged_flagged)
qed

text \<open>
  The callback reads the tags where the driver has written them, because its offset follows the
  driver's position in the buffer.
\<close>

lemma fetch_cb_reads:
  assumes f: "fetch_inv q s" and len: "b_koff s + length tags \<le> fetch_slots q"
    and sub: "unat ` set tags \<subseteq> {..<length (b_workers s)}"
  shows "fetch_cb (2 * length tags) (b_kbid s) consumed (driver_fetch q iods tags consumed s) =
    (driver_fetch q iods tags consumed s)
      \<lparr>b_workers := flagged (unat ` set tags) (write_iods iods (unat ` set tags) (b_workers s)),
       b_off := (if consumed then 0 else b_koff s + length tags)\<rparr>"
proof -
  have "length (b_fetch_mem s) = 2" and "length (b_fetch_mem s ! b_kbid s) = fetch_slots q"
    and off: "b_off s = b_koff s" and kb: "b_kbid s < 2"
    using f by (auto simp: fetch_inv_def less_2_cases_iff)
  then have "take (length tags) (drop (b_off s) (b_fetch_mem (driver_fetch q iods tags consumed s) ! b_kbid s)) = tags"
    using len by (simp add: driver_fetch_def write_tags_def)
  moreover have "b_off (driver_fetch q iods tags consumed s) = b_off s"
    "b_workers (driver_fetch q iods tags consumed s) = write_iods iods (unat ` set tags) (b_workers s)"
    by (simp_all add: driver_fetch_def)
  ultimately show ?thesis
    using sub by (cases consumed) (simp_all add: fetch_cb_def Let_def foldl_deliver off)
qed

lemma worker_ok_delivered:
  assumes "worker_ok q stopped True c w" and "iod_ok q iod"
  shows "worker_ok q stopped False c (notify_worker (w\<lparr>bw_iod := iod, bw_flag := True\<rparr>))"
  using assms by (auto simp: worker_ok_def notify_worker_def working_def)

lemma counted_delivered [simp]: "counted (w\<lparr>bw_iod := iod, bw_flag := f\<rparr>) = counted w"
  "counted (notify_worker w) = counted w"
  by (auto simp: counted_def notify_worker_def)

lemma count_pointwise:
  assumes "length ws' = length ws" and "\<And>t. t < length ws \<Longrightarrow> counted (ws' ! t) = counted (ws ! t)"
  shows "length (filter counted ws') = length (filter counted ws)"
proof -
  have "map counted ws' = map counted ws" using assms by (intro nth_equalityI) auto
  then have "length (filter id (map counted ws')) = length (filter id (map counted ws))" by simp
  then show ?thesis by (simp add: filter_map comp_def)
qed

lemma batch_inv_fetch:
  assumes inv: "batch_inv q s" and sub: "unat ` set tags \<subseteq> b_idle s" and iods: "\<forall>t. iod_ok q (iods t)"
    and len: "b_koff s + length tags \<le> fetch_slots q"
  shows "batch_inv q (fetch_cb (2 * length tags) (b_kbid s) consumed (driver_fetch q iods tags consumed s))"
proof -
  let ?T = "unat ` set tags" and ?ws = "b_workers s"
  let ?ws' = "flagged ?T (write_iods iods ?T ?ws)"
  have f: "fetch_inv q s" and sub': "?T \<subseteq> {..<length ?ws}"
    using inv sub by (auto simp: batch_inv_def workers_inv_def)
  have nth: "?ws' ! t = (if t \<in> ?T then notify_worker ((?ws ! t)\<lparr>bw_iod := iods t, bw_flag := True\<rparr>) else ?ws ! t)"
    if "t < length ?ws" for t
    using that by (simp add: nth_flagged nth_write_iods)
  have ok: "worker_ok q (b_stopped s) (t \<in> b_idle s - ?T) (t \<in> tags_of (open_entries s)) (?ws' ! t)"
    if t: "t < length ?ws" for t
    using batch_inv_ok [OF inv t] worker_ok_delivered [of q "b_stopped s" "t \<in> tags_of (open_entries s)" "?ws ! t" "iods t"]
      sub iods by (auto simp: nth [OF t])
  have cnt: "length (filter counted ?ws') = length (filter counted ?ws)"
    by (rule count_pointwise) (auto simp: nth)
  let ?s = "(driver_fetch q iods tags consumed s)
      \<lparr>b_workers := ?ws', b_off := (if consumed then 0 else b_koff s + length tags)\<rparr>"
  have op: "open_entries ?s = open_entries s" by (simp add: open_entries_def driver_fetch_def)
  have "workers_inv q ?s"
    using inv ok by (simp add: batch_inv_def workers_inv_def op) (auto simp: driver_fetch_def)
  moreover have "buffers_inv q ?s"
    using inv by (simp add: batch_inv_def buffers_inv_def op) (simp add: driver_fetch_def)
  moreover have "wakeup_inv ?s"
    using inv cnt by (simp add: batch_inv_def wakeup_inv_def op) (auto simp: driver_fetch_def)
  moreover have "b_kbid s = 0 \<or> b_kbid s = 1" using f by (auto simp: fetch_inv_def)
  then have "fetch_inv q ?s"
    using f len by (elim disjE) (auto simp: fetch_inv_def driver_fetch_def write_tags_def)
  ultimately show ?thesis
    unfolding fetch_cb_reads [OF f len sub'] by (simp add: batch_inv_def)
qed

lemma batch_inv_fetch_ended:
  assumes inv: "batch_inv q s" shows "batch_inv q (fetch_ended c s)"
proof -
  have "worker_ok q True (t \<in> b_idle s) (t \<in> tags_of (open_entries s)) (notify_worker (b_workers s ! t))"
    if "t < length (b_workers s)" for t
    using batch_inv_ok [OF inv that] by (auto simp: worker_ok_def notify_worker_def working_def)
  moreover have "length (filter counted (map notify_worker (b_workers s))) = length (filter counted (b_workers s))"
    by (rule count_pointwise) simp_all
  ultimately show ?thesis
    using inv
    by (auto simp: fetch_ended_def batch_inv_def workers_inv_def buffers_inv_def wakeup_inv_def fetch_inv_def
        open_entries_def split: option.splits)
qed

section \<open>Properties of a batch queue\<close>

lemma batch_inv_step: "batch_step q s s' \<Longrightarrow> batch_wf q \<Longrightarrow> batch_inv q s \<Longrightarrow> batch_inv q s'"
proof (induction rule: batch_step.induct)
  case (worker_woken t s)
  with batch_inv_ok [of q s t] show ?case by (intro batch_inv_work) (auto simp: worker_ok_def)
next
  case (flusher_scheduled s)
  then show ?case
    by (auto simp: batch_inv_def workers_inv_def buffers_inv_def wakeup_inv_def fetch_inv_def open_entries_def)
qed (auto intro: batch_inv_loop batch_inv_resume batch_inv_flusher batch_inv_take batch_inv_commit_done
    batch_inv_fetch batch_inv_fetch_ended)

lemma batch_inv_init:
  assumes "batch_init q s" shows "batch_inv q s"
proof -
  have "filter counted (b_workers s) = b_workers s"
    using assms by (intro filter_True) (auto simp: batch_init_def list_all_iff counted_def)
  with assms show ?thesis
    by (auto simp: batch_init_def batch_inv_def workers_inv_def buffers_inv_def wakeup_inv_def fetch_inv_def
        open_entries_def worker_ok_def working_def list_all_length)
qed

interpretation batch: transition_system "batch_init q" "batch_step q" "\<lambda>s. batch_wf q \<longrightarrow> batch_inv q s" for q
  by unfold_locales (auto intro: batch_inv_init batch_inv_step)

lemma batch_reachable:
  "batch_wf q \<Longrightarrow> batch_init q s \<Longrightarrow> (batch_step q)\<^sup>*\<^sup>* s s' \<Longrightarrow> batch_inv q s'"
  using batch.inv_reachable by blast

lemma open_entries_bound:
  assumes "batch_inv q s"
  shows "length (open_entries s) \<le> unat (bq_queue_depth q)"
proof -
  let ?P = "map en_tag (open_entries s)"
  have "distinct ?P" and v: "list_all (valid_entry q) (open_entries s)"
    using assms by (simp_all add: batch_inv_def buffers_inv_def)
  then have "length ?P = card (unat ` set ?P)"
    by (simp add: distinct_card card_image inj_on_def word_unat_eq_iff del: length_map set_map)
  also have "\<dots> \<le> card {..<unat (bq_queue_depth q)}"
    using v by (intro card_mono) (auto simp: list_all_iff valid_entry_def word_less_nat_alt)
  finally show ?thesis by simp
qed

text \<open>
  C1. No interleaving of workers, flusher and fetch callback breaks a batch queue: the results
  waiting in the write buffer and those of the batch in flight never exceed the queue depth
  together, so that no slot is written twice or outside its buffer; the buffer the driver reads
  is never the one being written; and no assertion of a worker fails, in particular a woken
  worker always finds its flag set.
\<close>

theorem batch_queue_safe:
  assumes "batch_wf q" and "batch_init q s" and "(batch_step q)\<^sup>*\<^sup>* s s'"
  shows "unat (b_pending s') + (length (b_batch s') - b_taken s') \<le> unat (bq_queue_depth q) \<and>
    (\<forall>cur nr. b_flusher s' = FlCommit cur nr \<longrightarrow> cur \<noteq> b_index s') \<and>
    (\<forall>w \<in> set (b_workers s'). bw_pc w \<noteq> BwAssert)"
proof -
  have inv: "batch_inv q s'" using assms by (rule batch_reachable)
  then have "length (b_pend s') + (length (b_batch s') - b_taken s') \<le> unat (bq_queue_depth q)"
    using open_entries_bound [OF inv] by (simp add: open_entries_def)
  moreover have "b_index s' < 2" "unat (b_pending s') = length (b_pend s')"
    using inv by (simp_all add: batch_inv_def buffers_inv_def)
  moreover have "cur \<noteq> b_index s'" if "b_flusher s' = FlCommit cur nr" for cur nr
  proof -
    have "cur = 1 - b_index s'" "b_index s' < 2" using inv that by (auto simp: batch_inv_def buffers_inv_def)
    then show ?thesis by arith
  qed
  moreover have "bw_pc w \<noteq> BwAssert" if "w \<in> set (b_workers s')" for w
    using batch_inv_ok [OF inv] that by (auto simp: in_set_conv_nth worker_ok_def)
  ultimately show ?thesis by auto
qed

text \<open>
  C2. Every result is committed at most once and in the order the handlers delivered them: what the
  driver has read is, element by element, the tag, result and zone address of a prefix of the
  results, and the results it has not read yet belong to different tags.
\<close>

theorem batch_commits_in_order:
  assumes "batch_wf q" and "batch_init q s" and "(batch_step q)\<^sup>*\<^sup>* s s'"
  shows "\<exists>rest. b_results s' = take (length (b_committed s')) (b_results s') @ rest \<and>
    list_all2 entry_matches (take (length (b_committed s')) (b_results s')) (b_committed s') \<and>
    distinct (map en_tag rest)"
proof -
  have inv: "batch_inv q s'" using assms by (rule batch_reachable)
  then obtain taken where r: "b_results s' = taken @ open_entries s'" "list_all2 entry_matches taken (b_committed s')"
    by (auto simp: batch_inv_def buffers_inv_def)
  then have "take (length (b_committed s')) (b_results s') = taken" by (auto dest: list_all2_lengthD)
  with r inv show ?thesis by (auto simp: batch_inv_def buffers_inv_def)
qed

text \<open>
  C17. No wake-up is lost: a worker only waits while it has no request and the queue is not stopped;
  the flusher only waits while there is nothing to commit and some worker has not ended, or was
  stopped and is therefore still counted, though it will deliver nothing more; when the flusher
  returns normally, every worker has ended and every result has been committed.
\<close>

theorem batch_no_lost_wakeup:
  assumes "batch_wf q" and "batch_init q s" and "(batch_step q)\<^sup>*\<^sup>* s s'"
  shows "(\<forall>w \<in> set (b_workers s'). bw_pc w = BwWait \<longrightarrow> \<not> bw_flag w \<and> \<not> b_stopped s') \<and>
    (b_flusher s' = FlWait \<longrightarrow> b_pending s' = 0 \<and>
       (\<exists>w \<in> set (b_workers s'). (\<nexists>c. bw_pc w = BwDone c) \<or> bw_pc w = BwDone Stopped)) \<and>
    (b_flusher s' = FlDone (Value ()) \<longrightarrow>
       (\<forall>w \<in> set (b_workers s'). \<exists>c. bw_pc w = BwDone c) \<and> list_all2 entry_matches (b_results s') (b_committed s'))"
proof -
  have inv: "batch_inv q s'" using assms by (rule batch_reachable)
  have "\<not> bw_flag w \<and> \<not> b_stopped s'" if "w \<in> set (b_workers s')" "bw_pc w = BwWait" for w
    using batch_inv_ok [OF inv] that by (auto simp: in_set_conv_nth worker_ok_def)
  moreover have "b_pending s' = 0 \<and> (\<exists>w \<in> set (b_workers s'). (\<nexists>c. bw_pc w = BwDone c) \<or> bw_pc w = BwDone Stopped)"
    if "b_flusher s' = FlWait"
  proof
    show "b_pending s' = 0"
      using inv that by (auto simp: batch_inv_def buffers_inv_def wakeup_inv_def word_unat_eq_iff)
    have "filter counted (b_workers s') \<noteq> []" using inv that by (auto simp: batch_inv_def wakeup_inv_def)
    then obtain w where w: "w \<in> set (b_workers s')" "counted w" by (auto simp: filter_empty_conv)
    then have "(\<nexists>c. bw_pc w = BwDone c) \<or> bw_pc w = BwDone Stopped" by (auto simp: counted_def)
    with w(1) show "\<exists>w \<in> set (b_workers s'). (\<nexists>c. bw_pc w = BwDone c) \<or> bw_pc w = BwDone Stopped" by blast
  qed
  moreover have "(\<forall>w \<in> set (b_workers s'). \<exists>c. bw_pc w = BwDone c) \<and> list_all2 entry_matches (b_results s') (b_committed s')"
    if "b_flusher s' = FlDone (Value ())"
  proof
    have "filter counted (b_workers s') = []" using inv that by (auto simp: batch_inv_def wakeup_inv_def)
    then show "\<forall>w \<in> set (b_workers s'). \<exists>c. bw_pc w = BwDone c"
      using not_counted by (auto simp: filter_empty_conv)
    show "list_all2 entry_matches (b_results s') (b_committed s')"
      using inv that by (auto simp: batch_inv_def wakeup_inv_def buffers_inv_def)
  qed
  ultimately show ?thesis by blast
qed

definition sample_state :: batch_state where
  "sample_state = \<lparr>b_index = 0, b_pending = 0, b_mem = replicate 128 0, b_flusher = FlReady, b_running = 2,
     b_stopped = False, b_workers = replicate 2 \<lparr>bw_pc = BwReady, bw_flag = False, bw_iod = idle_iod\<rparr>,
     b_res = None, b_fetching = True, b_fetch_mem = [replicate 32 0, replicate 32 0], b_off = 0, b_trace = [],
     b_kbid = 0, b_koff = 0, b_idle = {..<2}, b_taken = 0, b_committed = [], b_results = [], b_pend = [],
     b_batch = []\<rparr>"

lemma sample_init: "batch_init sample_batch sample_state"
  by (auto simp: batch_init_def sample_state_def sample_batch_def commit_mem_def fetch_slots_def list_all_iff)

definition sample_waiting :: batch_state where
  "sample_waiting = sample_state\<lparr>b_flusher := FlWait\<rparr>"

lemma sample_flusher: "(batch_step sample_batch)\<^sup>*\<^sup>* sample_state sample_waiting"
proof -
  have "batch_step sample_batch sample_state (flusher_loop sample_batch sample_state)"
    by (rule batch_step.flusher_run) (simp add: sample_state_def)
  moreover have "flusher_loop sample_batch sample_state = sample_waiting"
    by (simp add: flusher_loop_def sample_waiting_def sample_state_def)
  ultimately show ?thesis by auto
qed

theorem batch_queue_safe_witness:
  "unat (b_pending sample_waiting) + (length (b_batch sample_waiting) - b_taken sample_waiting) \<le> 2 \<and>
   list_all (\<lambda>w. bw_pc w \<noteq> BwAssert) (b_workers sample_waiting)"
  using batch_queue_safe [OF sample_batch_wf sample_init sample_flusher] by (simp add: sample_batch_def list_all_iff)

theorem batch_commits_in_order_witness:
  "\<exists>rest. b_results sample_waiting = take (length (b_committed sample_waiting)) (b_results sample_waiting) @ rest \<and>
    distinct (map en_tag rest)"
  using batch_commits_in_order [OF sample_batch_wf sample_init sample_flusher] by blast

theorem batch_no_lost_wakeup_witness:
  "b_flusher sample_waiting = FlWait \<and> b_pending sample_waiting = 0 \<and>
   list_ex (\<lambda>w. (\<nexists>c. bw_pc w = BwDone c) \<or> bw_pc w = BwDone Stopped) (b_workers sample_waiting)"
  using batch_no_lost_wakeup [OF sample_batch_wf sample_init sample_flusher]
  by (auto simp: sample_waiting_def list_ex_iff)

section \<open>Draining after the fetch has ended\<close>

text \<open>
  An upper bound for the steps that are left once the queue is stopped: every worker has a few
  steps to its end and may deliver one more result, and the flusher a few steps for every batch.
\<close>

fun pc_rank :: "bworker_pc \<Rightarrow> nat" where
  "pc_rank (BwDone _) = 0"
| "pc_rank BwAssert = 0"
| "pc_rank BwReady = 1"
| "pc_rank BwWait = 1"
| "pc_rank BwWoken = 1"
| "pc_rank (BwUnregister _ _) = 2"
| "pc_rank (BwHandle _) = 3"
| "pc_rank BwRegister = 4"

fun flusher_rank :: "nat \<Rightarrow> flusher_pc \<Rightarrow> nat" where
  "flusher_rank taken FlReady = 3"
| "flusher_rank taken (FlCommit cur nr) = 5 + (nr - taken)"
| "flusher_rank taken FlSchedule = 4"
| "flusher_rank taken FlWait = 0"
| "flusher_rank taken (FlDone _) = 0"

definition workers_rank :: "bworker list \<Rightarrow> nat" where
  "workers_rank ws = (\<Sum>w\<leftarrow>ws. pc_rank (bw_pc w))"

definition steps_left :: "batch_state \<Rightarrow> nat" where
  "steps_left s = 20 * workers_rank (b_workers s) + 10 * length (b_pend s) + flusher_rank (b_taken s) (b_flusher s)"

lemma workers_rank_update:
  "t < length ws \<Longrightarrow> workers_rank (ws[t := w]) + pc_rank (bw_pc (ws ! t)) = workers_rank ws + pc_rank (bw_pc w)"
  unfolding workers_rank_def
proof (induction ws arbitrary: t)
  case (Cons x ws)
  then show ?case by (cases t) auto
qed simp

lemma notify_rank: "flusher_rank k (b_flusher (notify_flusher s)) \<le> flusher_rank k (b_flusher s) + 3"
  by (simp add: notify_flusher_def)

lemma notify_fields [simp]:
  "b_workers (notify_flusher s) = b_workers s" "b_pend (notify_flusher s) = b_pend s"
  "b_taken (notify_flusher s) = b_taken s" "b_stopped (notify_flusher s) = b_stopped s"
  "b_fetching (notify_flusher s) = b_fetching s"
  by (simp_all add: notify_flusher_def)

lemma act_fields [simp]:
  "b_workers (act a s) = b_workers s" "b_pend (act a s) = b_pend s" "b_taken (act a s) = b_taken s"
  "b_stopped (act a s) = b_stopped s" "b_flusher (act a s) = b_flusher s" "steps_left (act a s) = steps_left s"
  by (simp_all add: act_def steps_left_def)

lemma set_pc_rank:
  assumes "t < length (b_workers s)"
  shows "steps_left (set_pc t p s) + 20 * pc_rank (bw_pc (b_workers s ! t)) = steps_left s + 20 * pc_rank p"
  using workers_rank_update [OF assms, of "(b_workers s ! t)\<lparr>bw_pc := p\<rparr>"]
  by (simp add: steps_left_def set_pc_def)

lemma exit_rank:
  assumes "t < length (b_workers s)"
  shows "steps_left (worker_exit t c s) + 20 * pc_rank (bw_pc (b_workers s ! t)) \<le> steps_left s + 3"
proof -
  let ?s = "(set_pc t (BwDone c) s)\<lparr>b_running := b_running s - 1\<rparr>"
  have "steps_left ?s = steps_left (set_pc t (BwDone c) s)" by (simp add: steps_left_def set_pc_def)
  moreover have "steps_left (notify_flusher ?s) \<le> steps_left ?s + 3"
    using notify_rank [of "b_taken s" ?s] by (simp add: steps_left_def set_pc_def)
  ultimately show ?thesis
    using set_pc_rank [OF assms, of "BwDone c"] by (auto simp: worker_exit_def Let_def set_pc_def)
qed

lemma work_rank:
  assumes "b_stopped s" and "t < length (b_workers s)" and "0 < pc_rank (bw_pc (b_workers s ! t))"
  shows "steps_left (batch_work q t s) < steps_left s" and "steps_left (batch_loop q t s) < steps_left s"
  using exit_rank [OF assms(2), of "Value ()"] assms by (simp_all add: batch_loop_def batch_work_def)

lemma stored_rank: "steps_left (stored e m s) \<le> steps_left s + 13"
proof -
  let ?s1 = "s\<lparr>b_mem := m, b_pending := b_pending s + 1, b_results := b_results s @ [e], b_pend := b_pend s @ [e]\<rparr>"
  have "steps_left (notify_flusher ?s1) \<le> steps_left ?s1 + 3"
    using notify_rank [of "b_taken s" ?s1] by (simp add: steps_left_def)
  moreover have "steps_left ?s1 = steps_left s + 10" by (simp add: steps_left_def)
  ultimately show ?thesis by (auto simp: stored_def Let_def)
qed

lemma enqueue_rank:
  assumes st: "b_stopped s" and t: "t < length (b_workers s)" and r: "2 \<le> pc_rank (bw_pc (b_workers s ! t))"
  shows "steps_left (batch_enqueue q t res lba s) < steps_left s"
proof (cases "put_entry q (b_index s) (unat (b_pending s)) (worker_entry t (bw_iod (b_workers s ! t)) res lba) (b_mem s)")
  case None
  with set_pc_rank [OF t, of BwAssert] r show ?thesis by (simp add: batch_enqueue_def Let_def)
next
  case (Some m)
  let ?s = "stored (worker_entry t (bw_iod (b_workers s ! t)) res lba) m s"
  have "steps_left (batch_loop q t ?s) + 40 \<le> steps_left ?s + 3"
    using exit_rank [of t ?s "Value ()"] st t r by (simp add: batch_loop_def batch_work_def)
  with stored_rank [of "worker_entry t (bw_iod (b_workers s ! t)) res lba" m s] Some show ?thesis
    by (simp add: batch_enqueue_def Let_def stored_def)
qed

lemma resume_rank:
  assumes st: "b_stopped s" and t: "t < length (b_workers s)"
    and r: "bworker_resume q t c (bw_pc (b_workers s ! t)) s = Some s'"
  shows "steps_left s' < steps_left s"
proof -
  let ?pc = "bw_pc (b_workers s ! t)"
  have set: "steps_left (set_pc t p s) < steps_left s" if "pc_rank p < pc_rank ?pc" for p
    using set_pc_rank [OF t, of p] that by simp
  have exit: "steps_left (worker_exit t d s) < steps_left s" if "0 < pc_rank ?pc" for d
    using exit_rank [OF t, of d] that by simp
  consider d where "?pc = BwRegister" "c = CqeDone d" | d reg where "?pc = BwHandle reg" "c = HandlerDone d"
    | d res lba where "?pc = BwUnregister res lba" "c = CqeDone d"
    using r by (cases ?pc; cases c) auto
  then show ?thesis
  proof cases
    case 1
    with r set exit show ?thesis by (auto simp: batch_handle_def split: outcome.splits)
  next
    case 2
    with r set enqueue_rank [OF st t] show ?thesis by (auto split: prod.splits if_splits)
  next
    case 3
    with r exit enqueue_rank [OF st t] show ?thesis by (auto split: outcome.splits)
  qed
qed

lemma stopped_step_decreases:
  assumes "batch_step q s s'" and "batch_wf q" and "batch_inv q s" and "b_stopped s"
  shows "steps_left s' < steps_left s"
  using assms
proof (induction rule: batch_step.induct)
  case (worker_run t s)
  then show ?case by (intro work_rank) simp_all
next
  case (worker_woken t s)
  then show ?case by (intro work_rank) simp_all
next
  case (worker_done t s c s')
  then show ?case by (intro resume_rank)
next
  case (flusher_run s)
  then have "b_pending s = 0 \<or> 0 < length (b_pend s)" "unat (b_pending s) = length (b_pend s)"
    by (auto simp: batch_inv_def buffers_inv_def word_unat_eq_iff)
  with flusher_run show ?case
    by (cases "b_pend s") (auto simp: flusher_loop_def Let_def steps_left_def word_less_nat_alt)
next
  case (flusher_take s cur nr)
  then show ?case by (simp add: driver_take_def Let_def steps_left_def)
next
  case (flusher_done s cur nr c)
  then show ?case by (auto simp: flusher_committed_def steps_left_def split: outcome.splits)
next
  case (flusher_scheduled s)
  then show ?case by (simp add: steps_left_def)
next
  case (fetch s tags iods consumed)
  then show ?case by (simp add: batch_inv_def fetch_inv_def)
next
  case (fetch_end s c)
  then show ?case by (simp add: batch_inv_def fetch_inv_def)
qed

definition batch_finished :: "batch_state \<Rightarrow> bool" where
  "batch_finished s \<longleftrightarrow> (\<forall>w \<in> set (b_workers s). \<exists>c. bw_pc w = BwDone c) \<and> (\<exists>c. b_flusher s = FlDone c)"

lemma working_resumes:
  assumes "working pc" shows "\<exists>c s'. bworker_resume q t c pc s = Some s'"
proof (cases pc)
  case (BwHandle reg)
  then have "bworker_resume q t (HandlerDone Stopped) pc s \<noteq> None" by simp
  then show ?thesis by blast
next
  case BwRegister
  then have "bworker_resume q t (CqeDone Stopped) pc s \<noteq> None" by simp
  then show ?thesis by blast
next
  case (BwUnregister res lba)
  then have "bworker_resume q t (CqeDone Stopped) pc s \<noteq> None" by simp
  then show ?thesis by blast
qed (use assms in \<open>simp_all add: working_def\<close>)

lemma worker_can_step:
  assumes inv: "batch_inv q s" and st: "b_stopped s" and t: "t < length (b_workers s)"
    and nd: "\<nexists>c. bw_pc (b_workers s ! t) = BwDone c"
  shows "\<exists>s'. batch_step q s s'"
proof -
  let ?pc = "bw_pc (b_workers s ! t)"
  have "?pc \<noteq> BwWait" "?pc \<noteq> BwAssert" using batch_inv_ok [OF inv t] st by (auto simp: worker_ok_def)
  moreover have "\<exists>s'. batch_step q s s'" if "working ?pc"
    using working_resumes [OF that, of q t s] batch_step.worker_done [OF t] by blast
  ultimately show ?thesis
    using nd t batch_step.worker_run [of t s q] batch_step.worker_woken [of t s q]
    by (cases ?pc) (auto simp: working_def)
qed

lemma stopped_progress:
  assumes inv: "batch_inv q s" and st: "b_stopped s"
    and halt: "\<nexists>s'. batch_step q s s'" and ns: "\<forall>w \<in> set (b_workers s). bw_pc w \<noteq> BwDone Stopped"
  shows "batch_finished s"
proof -
  have w: "\<exists>c. bw_pc w = BwDone c" if "w \<in> set (b_workers s)" for w
    using worker_can_step [OF inv st] halt that by (metis in_set_conv_nth)
  have "\<not> counted w" if "w \<in> set (b_workers s)" for w
    using w [OF that] ns that by (auto simp: counted_def)
  then have "filter counted (b_workers s) = []" by (simp add: filter_empty_conv)
  then have "b_flusher s \<noteq> FlWait" using inv by (auto simp: batch_inv_def wakeup_inv_def)
  moreover have "commit_answer q (b_taken s) Stopped" by (simp add: commit_answer_def)
  ultimately have "\<exists>c. b_flusher s = FlDone c"
    using halt batch_step.flusher_run [of s q] batch_step.flusher_done [of s _ _ q Stopped]
      batch_step.flusher_scheduled [of s q]
    by (cases "b_flusher s") auto
  with w show ?thesis by (simp add: batch_finished_def)
qed

lemma batch_ops_keep_fetching:
  shows "b_fetching (worker_exit t c s) = b_fetching s" and "b_stopped (worker_exit t c s) = b_stopped s"
    and "b_fetching (batch_handle q t r s) = b_fetching s" and "b_stopped (batch_handle q t r s) = b_stopped s"
  by (simp_all add: worker_exit_def batch_handle_def Let_def set_pc_def act_def notify_flusher_def)

lemma batch_work_keeps_fetching:
  shows "b_fetching (batch_work q t s) = b_fetching s" and "b_stopped (batch_work q t s) = b_stopped s"
    and "b_fetching (batch_loop q t s) = b_fetching s" and "b_stopped (batch_loop q t s) = b_stopped s"
  by (simp_all add: batch_loop_def batch_work_def Let_def batch_ops_keep_fetching set_flag_def set_pc_def act_def)

lemma batch_enqueue_keeps_fetching:
  shows "b_fetching (batch_enqueue q t r lba s) = b_fetching s" and "b_stopped (batch_enqueue q t r lba s) = b_stopped s"
  by (simp_all add: batch_enqueue_def Let_def batch_work_keeps_fetching notify_flusher_def set_pc_def split: option.splits)

lemmas keeps_fetching = batch_ops_keep_fetching batch_work_keeps_fetching batch_enqueue_keeps_fetching

lemma bworker_resume_keeps_fetching:
  "bworker_resume q t c pc s = Some s' \<Longrightarrow> b_fetching s' = b_fetching s \<and> b_stopped s' = b_stopped s"
  by (cases pc; cases c) (auto simp: keeps_fetching set_pc_def act_def split: outcome.splits prod.splits if_splits)

lemma stopped_stays:
  assumes "batch_step q s s'" and "batch_inv q s" and "b_stopped s"
  shows "b_stopped s'"
  using assms
  by (induction rule: batch_step.induct)
    (auto simp: keeps_fetching flusher_loop_def Let_def driver_take_def batch_inv_def fetch_inv_def
      dest: bworker_resume_keeps_fetching)

interpretation batch_drain: draining "batch_init q" "batch_step q" "\<lambda>s. batch_wf q \<longrightarrow> batch_inv q s" "batch_step q"
    "\<lambda>s. batch_wf q \<and> b_stopped s" steps_left
    "\<lambda>s. batch_finished s \<or> (\<exists>w \<in> set (b_workers s). bw_pc w = BwDone Stopped)" for q
  by unfold_locales (auto simp: stopped_stays stopped_step_decreases dest: stopped_progress)

text \<open>
  C5. Once the fetch has ended with a result or an error, which is when the queue is told to stop, it
  drains: every further run has at most \<open>steps_left\<close> steps, so that it cannot go on forever, a run
  that cannot continue has ended every worker and the flusher, and every run can be continued to
  such an end. The exception is an operation of a worker that was stopped, which leaves the flusher
  waiting for a worker that is gone. Nothing is said here of a fetch that is itself stopped, after
  which the queue is never told to stop.
\<close>

theorem batch_drains:
  assumes "batch_wf q" and "batch_init q s" and "(batch_step q)\<^sup>*\<^sup>* s s'" and "b_stopped s'"
    and "(batch_step q ^^ n) s' s''"
  shows "n \<le> steps_left s' \<and>
    ((\<nexists>t. batch_step q s'' t) \<longrightarrow>
       batch_finished s'' \<or> (\<exists>w \<in> set (b_workers s''). bw_pc w = BwDone Stopped)) \<and>
    (\<exists>t. (batch_step q)\<^sup>*\<^sup>* s'' t \<and> (batch_finished t \<or> (\<exists>w \<in> set (b_workers t). bw_pc w = BwDone Stopped)))"
  using batch_drain.drains [OF assms(2,3) _ assms(5)] assms(1,4) by blast

definition sample_stopped :: batch_state where
  "sample_stopped = fetch_ended (Error 19) sample_state"

theorem batch_drains_witness:
  "b_stopped sample_stopped \<and>
   (batch_step sample_batch ^^ 1) sample_stopped (batch_loop sample_batch 0 sample_stopped) \<and>
   1 \<le> steps_left sample_stopped"
proof -
  have "batch_step sample_batch sample_state sample_stopped"
    unfolding sample_stopped_def by (rule batch_step.fetch_end) (simp add: sample_state_def)
  then have r: "(batch_step sample_batch)\<^sup>*\<^sup>* sample_state sample_stopped" by blast
  have s: "b_stopped sample_stopped"
    by (simp add: sample_stopped_def fetch_ended_def errno_result_def)
  have "batch_step sample_batch sample_stopped (batch_loop sample_batch 0 sample_stopped)"
    by (rule batch_step.worker_run)
      (simp_all add: sample_stopped_def fetch_ended_def errno_result_def sample_state_def notify_worker_def)
  then have "(batch_step sample_batch ^^ 1) sample_stopped (batch_loop sample_batch 0 sample_stopped)"
    by auto
  from batch_drains [OF sample_batch_wf sample_init r s this] this s show ?thesis by simp
qed

section \<open>A fetch that is stopped\<close>

lemma unfetched_step:
  assumes "batch_step q s s'" and "\<not> b_fetching s"
  shows "\<not> b_fetching s' \<and> b_stopped s' = b_stopped s"
  using assms
  by cases (auto simp: keeps_fetching flusher_loop_def driver_take_def Let_def act_def dest: bworker_resume_keeps_fetching)

lemma unfetched_steps: "(batch_step q)\<^sup>*\<^sup>* s s' \<Longrightarrow> \<not> b_fetching s \<Longrightarrow> \<not> b_fetching s' \<and> b_stopped s' = b_stopped s"
  by (induction rule: rtranclp_induct) (auto dest: unfetched_step)

text \<open>
  C38. A fetch that is stopped, instead of ending with a result or an error, does not stop its queue:
  whatever happens afterwards, the queue is never told to stop and no worker ends normally, so
  that the run of the queue cannot end unless every single worker has failed or was stopped in
  turn; and even then it has no result of a fetch.
\<close>

theorem stopped_fetch_hangs:
  assumes "batch_wf q" and "batch_init q s" and "(batch_step q)\<^sup>*\<^sup>* s s1" and "b_fetching s1"
    and "(batch_step q)\<^sup>*\<^sup>* (fetch_ended Stopped s1) s'"
  shows "\<not> b_stopped s' \<and> b_res s' = None \<and> list_all (\<lambda>w. bw_pc w \<noteq> BwDone (Value ())) (b_workers s') \<and>
    (batch_finished s' \<longrightarrow> list_all (\<lambda>w. bw_pc w = BwDone Stopped \<or> (\<exists>e. bw_pc w = BwDone (Error e))) (b_workers s'))"
proof -
  have step: "batch_step q s1 (fetch_ended Stopped s1)" using assms(4) by (rule batch_step.fetch_end)
  with assms(3,5) have r: "(batch_step q)\<^sup>*\<^sup>* s s'" by (meson converse_rtranclp_into_rtranclp rtranclp_trans)
  have inv: "batch_inv q s1" "batch_inv q s'" using batch_reachable assms(1-3) r by blast+
  have "\<not> b_stopped (fetch_ended Stopped s1)" "\<not> b_fetching (fetch_ended Stopped s1)"
    using inv(1) assms(4) by (auto simp: fetch_ended_def errno_result_def batch_inv_def fetch_inv_def)
  with unfetched_steps [OF assms(5)] have st: "\<not> b_stopped s'" by simp
  moreover have "b_res s' = None" using inv(2) st by (simp add: batch_inv_def fetch_inv_def)
  moreover have nv: "list_all (\<lambda>w. bw_pc w \<noteq> BwDone (Value ())) (b_workers s')"
    using batch_inv_ok [OF inv(2)] st by (auto simp: list_all_length worker_ok_def)
  moreover have "bw_pc w = BwDone Stopped \<or> (\<exists>e. bw_pc w = BwDone (Error e))"
    if f: "batch_finished s'" "w \<in> set (b_workers s')" for w
  proof -
    obtain c where "bw_pc w = BwDone c" using f unfolding batch_finished_def by blast
    with nv f(2) show ?thesis by (cases c) (auto simp: list_all_iff)
  qed
  ultimately show ?thesis by (simp add: list_all_iff)
qed

text \<open>The sample queue, idle when its fetch is stopped: the state it is left in never changes again.\<close>

definition sample_hanging :: batch_state where
  "sample_hanging = fetch_ended Stopped (sample_waiting\<lparr>b_workers := replicate 2 \<lparr>bw_pc = BwWait, bw_flag = False, bw_iod = idle_iod\<rparr>\<rparr>)"

lemma sample_idle_reachable:
  "(batch_step sample_batch)\<^sup>*\<^sup>* sample_state
     (sample_waiting\<lparr>b_workers := replicate 2 \<lparr>bw_pc = BwWait, bw_flag = False, bw_iod = idle_iod\<rparr>\<rparr>)"
proof -
  let ?r = "\<lparr>bw_pc = BwReady, bw_flag = False, bw_iod = idle_iod\<rparr>" and ?w = "\<lparr>bw_pc = BwWait, bw_flag = False, bw_iod = idle_iod\<rparr>"
  have 0: "b_workers sample_waiting = [?r, ?r]" "\<not> b_stopped sample_waiting"
    by (simp_all add: sample_waiting_def sample_state_def numeral_2_eq_2)
  have "batch_step sample_batch sample_waiting (batch_loop sample_batch 0 sample_waiting)"
    by (rule batch_step.worker_run) (simp_all add: 0)
  moreover have 1: "batch_loop sample_batch 0 sample_waiting = sample_waiting\<lparr>b_workers := [?w, ?r]\<rparr>"
    by (simp add: batch_loop_def set_pc_def 0)
  moreover have "batch_step sample_batch (sample_waiting\<lparr>b_workers := [?w, ?r]\<rparr>)
      (batch_loop sample_batch 1 (sample_waiting\<lparr>b_workers := [?w, ?r]\<rparr>))"
    by (rule batch_step.worker_run) simp_all
  moreover have "batch_loop sample_batch 1 (sample_waiting\<lparr>b_workers := [?w, ?r]\<rparr>) = sample_waiting\<lparr>b_workers := [?w, ?w]\<rparr>"
    by (simp add: batch_loop_def set_pc_def 0)
  ultimately have "(batch_step sample_batch)\<^sup>*\<^sup>* sample_waiting (sample_waiting\<lparr>b_workers := [?w, ?w]\<rparr>)"
    by (metis r_into_rtranclp rtranclp.rtrancl_into_rtrancl)
  with sample_flusher show ?thesis by (simp add: numeral_2_eq_2)
qed

lemma sample_hanging_stuck: "\<nexists>s'. batch_step sample_batch sample_hanging s'"
proof
  assume "\<exists>s'. batch_step sample_batch sample_hanging s'"
  then obtain s' where "batch_step sample_batch sample_hanging s'" by blast
  moreover have "b_workers sample_hanging ! t = \<lparr>bw_pc = BwWait, bw_flag = False, bw_iod = idle_iod\<rparr>"
    if "t < length (b_workers sample_hanging)" for t
    using that by (simp add: sample_hanging_def fetch_ended_def errno_result_def)
  moreover have "b_flusher sample_hanging = FlWait" "\<not> b_fetching sample_hanging"
    by (simp_all add: sample_hanging_def fetch_ended_def errno_result_def sample_waiting_def)
  ultimately show False by cases auto
qed

theorem stopped_fetch_hangs_witness:
  "(batch_step sample_batch)\<^sup>*\<^sup>* sample_state sample_hanging \<and> (\<nexists>s'. batch_step sample_batch sample_hanging s') \<and>
   \<not> b_stopped sample_hanging \<and> \<not> batch_finished sample_hanging"
proof -
  let ?s = "sample_waiting\<lparr>b_workers := replicate 2 \<lparr>bw_pc = BwWait, bw_flag = False, bw_iod = idle_iod\<rparr>\<rparr>"
  have f: "b_fetching ?s" by (simp add: sample_waiting_def sample_state_def)
  have "batch_step sample_batch ?s sample_hanging"
    unfolding sample_hanging_def using f by (rule batch_step.fetch_end)
  with sample_idle_reachable have r: "(batch_step sample_batch)\<^sup>*\<^sup>* sample_state sample_hanging"
    by (rule rtranclp.rtrancl_into_rtrancl)
  have w: "\<lparr>bw_pc = BwWait, bw_flag = False, bw_iod = idle_iod\<rparr> \<in> set (b_workers sample_hanging)"
    by (simp add: sample_hanging_def fetch_ended_def errno_result_def)
  from stopped_fetch_hangs [OF sample_batch_wf sample_init sample_idle_reachable f, of sample_hanging]
  have "\<not> b_stopped sample_hanging" "batch_finished sample_hanging \<longrightarrow>
      list_all (\<lambda>w. bw_pc w = BwDone Stopped \<or> (\<exists>e. bw_pc w = BwDone (Error e))) (b_workers sample_hanging)"
    by (simp_all add: sample_hanging_def)
  with r w sample_hanging_stuck show ?thesis by (auto simp: list_all_iff)
qed

section \<open>Preparing the queue and the result of a run\<close>

definition prep_command :: "batch_queue \<Rightarrow> nat batch_sqe" where
  "prep_command q =
     (let elem = commit_element_size (bq_flags q) in
      raw_prep_io_cmds (bq_ublkc_fd q) (bq_q_id q) (get_batch_flags (bq_flags q)) (bq_queue_depth q)
        (of_nat elem) 0 (of_nat (unat (bq_queue_depth q) * elem)))"

text \<open>
  The end of \<^verbatim>\<open>run\<close>, once all coroutines have ended: the first worker error by tag, then the
  flusher's, then the result of the fetch. \<open>None\<close> is the failed assertion that this result is
  negative; a stopped fetch stops the run.
\<close>

definition bworker_error :: "bworker \<Rightarrow> exn option" where
  "bworker_error w = (case bw_pc w of BwDone (Error e) \<Rightarrow> Some e | _ \<Rightarrow> None)"

definition flusher_error :: "flusher_pc \<Rightarrow> exn option" where
  "flusher_error f = (case f of FlDone (Error e) \<Rightarrow> Some e | _ \<Rightarrow> None)"

definition batch_outcome :: "batch_state \<Rightarrow> (exn, unit) outcome option" where
  "batch_outcome s = (case b_res s of
       None \<Rightarrow> Some Stopped
     | Some res \<Rightarrow>
         (case rethrow_first (map bworker_error (b_workers s) @ [flusher_error (b_flusher s)]) of
            Error e \<Rightarrow> Some (Error e)
          | _ \<Rightarrow> if res \<ge> 0 then None
             else if res \<noteq> UBLK_IO_RES_ABORT then Some (Error (SystemError (- res) ''fetch_io_cmds''))
             else Some (Value ())))"

text \<open>
  The whole of \<^verbatim>\<open>run\<close>, from the completions of the queue initialisation and of the prepare command
  and the outcome of serving; the number counts the calls of \<^verbatim>\<open>destroy_queue\<close>.
\<close>

definition batch_run ::
  "bool \<Rightarrow> (exn, unit) outcome \<Rightarrow> (error_code, s32) outcome \<Rightarrow> (exn, unit) outcome option \<Rightarrow>
   (exn, unit) outcome option \<times> nat" where
  "batch_run queue_handler init prep served =
     (let destroyed = (if queue_handler then 1 else 0) in
      if queue_handler \<and> init \<noteq> Value () then (Some init, 0)
      else case prep of
          Error ec \<Rightarrow> (Some (Error (SystemError ec '''')), destroyed)
        | Stopped \<Rightarrow> (Some Stopped, destroyed)
        | Value _ \<Rightarrow> (served, destroyed))"

text \<open>A normal end of the run: the driver aborted the fetch, and neither a worker nor the flusher failed.\<close>

lemma batch_success_no_error:
  assumes "fst (batch_run queue_handler init prep (batch_outcome s')) = Some (Value ())"
  shows "b_res s' = Some UBLK_IO_RES_ABORT \<and> list_all (\<lambda>w. bworker_error w = None) (b_workers s') \<and>
    flusher_error (b_flusher s') = None \<and>
    snd (batch_run queue_handler init prep (batch_outcome s')) = (if queue_handler then 1 else 0) \<and>
    (queue_handler \<longrightarrow> init = Value ())"
proof -
  have o: "batch_outcome s' = Some (Value ())"
    and i: "(queue_handler \<longrightarrow> init = Value ()) \<and>
      snd (batch_run queue_handler init prep (batch_outcome s')) = (if queue_handler then 1 else 0)"
    using assms by (auto simp: batch_run_def Let_def split: if_splits outcome.splits)
  let ?errs = "map bworker_error (b_workers s') @ [flusher_error (b_flusher s')]"
  obtain res where r: "b_res s' = Some res" "res = UBLK_IO_RES_ABORT" and e: "\<And>e. rethrow_first ?errs \<noteq> Error e"
    using o by (auto simp: batch_outcome_def split: option.splits outcome.splits if_splits)
  then have "\<forall>k < length ?errs. ?errs ! k = None"
    using rethrow_first_spec [of ?errs] by (cases "rethrow_first ?errs") auto
  then have "\<forall>x \<in> set ?errs. x = None" unfolding all_set_conv_all_nth .
  with r i show ?thesis by (auto simp: list_all_iff)
qed

lemma batch_success_complete:
  assumes "batch_wf q" and "batch_init q s" and "(batch_step q)\<^sup>*\<^sup>* s s'"
    and "batch_finished s'" and "b_flusher s' \<noteq> FlDone Stopped"
    and "batch_run queue_handler init prep (batch_outcome s') = (Some (Value ()), destroyed)"
  shows "b_res s' = Some UBLK_IO_RES_ABORT \<and> (\<forall>w \<in> set (b_workers s'). bworker_error w = None) \<and>
    list_all2 entry_matches (b_results s') (b_committed s') \<and>
    (queue_handler \<longrightarrow> init = Value () \<and> destroyed = 1)"
proof -
  have inv: "batch_inv q s'" using assms(1-3) by (rule batch_reachable)
  have f: "fst (batch_run queue_handler init prep (batch_outcome s')) = Some (Value ())" using assms(6) by simp
  note n = batch_success_no_error [OF f]
  with assms(4,5) have "b_flusher s' = FlDone (Value ())"
    by (auto simp: batch_finished_def flusher_error_def split: outcome.splits)
  then have "list_all2 entry_matches (b_results s') (b_committed s')"
    using inv by (auto simp: batch_inv_def wakeup_inv_def buffers_inv_def)
  with n assms(6) show ?thesis by (auto simp: list_all_iff)
qed

text \<open>
  A batch run that returns normally has lost nothing: the driver aborted the fetch, no worker
  and no commit failed, and every result a handler delivered has been committed, in order;
  \<^verbatim>\<open>destroy_queue\<close> is called exactly when the initialisation succeeded.
\<close>

theorem batch_success_is_complete:
  assumes "batch_wf q" and "batch_init q s" and "(batch_step q)\<^sup>*\<^sup>* s s'"
    and "batch_finished s'" and "b_flusher s' \<noteq> FlDone Stopped"
    and "batch_run queue_handler init prep (batch_outcome s') = (Some (Value ()), destroyed)"
  shows "b_res s' = Some UBLK_IO_RES_ABORT \<and> (\<forall>w \<in> set (b_workers s'). bworker_error w = None) \<and>
    list_all2 entry_matches (b_results s') (b_committed s') \<and>
    (queue_handler \<longrightarrow> init = Value () \<and> destroyed = 1)"
  using assms by (rule batch_success_complete)

definition sample_done :: batch_state where
  "sample_done = flusher_loop sample_batch (batch_loop sample_batch 1 (batch_loop sample_batch 0 sample_stopped))"

lemmas sample_eval =
  sample_stopped_def fetch_ended_def errno_result_def sample_state_def notify_worker_def batch_loop_def
  batch_work_def worker_exit_def set_pc_def Let_def notify_flusher_def flusher_loop_def numeral_2_eq_2

lemma sample_done_reachable: "(batch_step sample_batch)\<^sup>*\<^sup>* sample_state sample_done"
proof -
  let ?s1 = "batch_loop sample_batch 0 sample_stopped" and ?s2 = "batch_loop sample_batch 1 (batch_loop sample_batch 0 sample_stopped)"
  have 1: "batch_step sample_batch sample_state sample_stopped"
    unfolding sample_stopped_def by (rule batch_step.fetch_end) (simp add: sample_state_def)
  have 2: "batch_step sample_batch sample_stopped ?s1"
    by (rule batch_step.worker_run) (simp_all add: sample_eval)
  have 3: "batch_step sample_batch ?s1 ?s2"
    by (rule batch_step.worker_run) (simp_all add: sample_eval)
  have 4: "batch_step sample_batch ?s2 sample_done"
    unfolding sample_done_def by (rule batch_step.flusher_run) (simp add: sample_eval)
  show ?thesis
    by (rule converse_rtranclp_into_rtranclp, rule 1, rule converse_rtranclp_into_rtranclp, rule 2,
        rule converse_rtranclp_into_rtranclp, rule 3, rule converse_rtranclp_into_rtranclp, rule 4, rule rtranclp.rtrancl_refl)
qed

theorem batch_success_is_complete_witness:
  "batch_run True (Value ()) (Value 0) (batch_outcome sample_done) = (Some (Value ()), 1) \<and>
   list_all2 entry_matches (b_results sample_done) (b_committed sample_done)"
proof -
  have f: "batch_finished sample_done" "b_flusher sample_done \<noteq> FlDone Stopped"
    by (simp_all add: batch_finished_def sample_done_def sample_eval)
  have r: "batch_run True (Value ()) (Value 0) (batch_outcome sample_done) = (Some (Value ()), 1)"
    by (simp add: batch_run_def batch_outcome_def bworker_error_def flusher_error_def sample_done_def sample_eval
        consts_simps)
  from batch_success_is_complete [OF sample_batch_wf sample_init sample_done_reachable f r] r show ?thesis by simp
qed

text \<open>
  Before serving, the queue hands every tag to the driver exactly once: element \<open>t\<close> of the
  prepare command decodes to tag \<open>t\<close> with result 0 and, where the device needs it, the address of
  its own buffer or its own buffer index, and the command announces all of them.
\<close>

theorem prepare_lists_every_tag:
  assumes "batch_wf q" and "length m = 2 * bq_commit_buf_size q"
  shows "\<exists>m'. prep_fill q m = Some m' \<and>
    (\<forall>t < unat (bq_queue_depth q). let el = elem_at q 0 t m' in
       el_tag el = of_nat t \<and> el_result el = 0 \<and>
       (has_flag (bq_flags q) UBLK_F_AUTO_BUF_REG \<longrightarrow> el_buf_index el = of_nat t) \<and>
       el_buf_addr el = (if need_f_buf_addr (bq_flags q) then Some (bq_buf_bases q ! t) else None)) \<and>
    bi_nr_elem (bs_command (prep_command q)) = bq_queue_depth q \<and>
    unat (bs_len (prep_command q)) = unat (bq_queue_depth q) * unat (bi_elem_bytes (bs_command (prep_command q)))"
proof -
  let ?d = "unat (bq_queue_depth q)" and ?elem = "commit_element_size (bq_flags q)"
  have d: "?d < 65536" using unsigned_less [of "bq_queue_depth q"] by simp
  have t: "unat (of_nat t :: u16) = t" if "t < ?d" for t
    using that d by (simp add: unsigned_of_nat take_bit_nat_eq_self)
  have v: "list_all (valid_entry q) (prep_entries q)"
    using t by (auto simp: prep_entries_def list_all_iff valid_entry_def word_less_nat_alt in_s32_def)
  have "commit_mem q m" using assms(2) by (simp add: commit_mem_def)
  from put_entries_contents [OF assms(1) _ this v, of 0 "[]"]
  obtain m' where m': "prep_fill q m = Some m'" "commit_buf.contents q 0 (prep_entries q) m'"
    by (auto simp: prep_fill_def prep_entries_def)
  have h: "holds_entry q 0 k \<lparr>en_tag = of_nat k, en_res = 0, en_lba = None\<rparr> m'" if "k < ?d" for k
    using m'(2) that by (auto simp: commit_buf.contents_def prep_entries_def)
  have "?elem \<le> 24" by (rule element_size_bound)
  then have "unat (of_nat ?elem :: u8) = ?elem" by (simp add: unsigned_of_nat take_bit_nat_eq_self)
  moreover have "?d * ?elem \<le> 65535 * 24" using d \<open>?elem \<le> 24\<close> by (intro mult_mono) simp_all
  ultimately have "unat (bs_len (prep_command q)) = ?d * unat (bi_elem_bytes (bs_command (prep_command q)))"
    by (simp add: prep_command_def Let_def raw_simps unsigned_of_nat take_bit_nat_eq_self del: of_nat_mult)
  moreover have "bi_nr_elem (bs_command (prep_command q)) = bq_queue_depth q"
    by (simp add: prep_command_def Let_def raw_simps)
  ultimately show ?thesis using m'(1) h t by (auto simp: holds_entry_def Let_def)
qed

theorem prepare_lists_every_tag_witness:
  "\<exists>m'. prep_fill sample_batch (replicate 128 0) = Some m' \<and> el_tag (elem_at sample_batch 0 1 m') = 1 \<and>
     el_buf_addr (elem_at sample_batch 0 1 m') = Some 65536"
proof -
  have len: "length (replicate 128 (0 :: u8)) = 2 * bq_commit_buf_size sample_batch" by (simp add: sample_batch_def)
  obtain m' where m': "prep_fill sample_batch (replicate 128 0) = Some m'"
    and e: "\<forall>t < unat (bq_queue_depth sample_batch). let el = elem_at sample_batch 0 t m' in
       el_tag el = of_nat t \<and> el_result el = 0 \<and>
       (has_flag (bq_flags sample_batch) UBLK_F_AUTO_BUF_REG \<longrightarrow> el_buf_index el = of_nat t) \<and>
       el_buf_addr el = (if need_f_buf_addr (bq_flags sample_batch) then Some (bq_buf_bases sample_batch ! t) else None)"
    using prepare_lists_every_tag [OF sample_batch_wf len] by blast
  have f: "need_f_buf_addr (bq_flags sample_batch)"
    by (simp add: sample_batch_def need_f_buf_addr_def need_alloc_buf_bits flag_bits bit_numeral_word_iff)
  have "1 < unat (bq_queue_depth sample_batch)" by (simp add: sample_batch_def)
  with e have "let el = elem_at sample_batch 0 1 m' in el_tag el = of_nat 1 \<and> el_result el = 0 \<and>
       (has_flag (bq_flags sample_batch) UBLK_F_AUTO_BUF_REG \<longrightarrow> el_buf_index el = of_nat 1) \<and>
       el_buf_addr el = (if need_f_buf_addr (bq_flags sample_batch) then Some (bq_buf_bases sample_batch ! 1) else None)"
    by blast
  with m' f show ?thesis by (simp add: Let_def) (simp add: sample_batch_def)
qed

end
