(* ===== verification/Ublk_Io.thy ===== *)
theory Ublk_Io
  imports Ublk_Batch
begin

text \<open>
  Serving a device: \<^verbatim>\<open>io_run_dev_t\<close> of \<^verbatim>\<open>detail/io.hpp\<close>, which runs one queue on the current
  \<open>io_uring\<close> runtime, \<^verbatim>\<open>IoLoop\<close> of \<^verbatim>\<open>detail/io_loop.hpp\<close>, a runtime with its own pinned thread, and
  \<^verbatim>\<open>daemon_run_t\<close> of \<^verbatim>\<open>detail/daemon.hpp\<close>, which gives every queue of a device such a loop.
\<close>

section \<open>The runtime as a parameter\<close>

text \<open>
  \<^verbatim>\<open>condy::Runtime\<close> is code outside the repository: \<open>'r\<close> is the state of one runtime, above all its
  tables of registered files and buffers. Creating it or its thread may throw; the table functions
  return a negative errno on failure. \<open>rt_update_buffer\<close> clears one slot, as the only call does.
\<close>

record loop_options =
  lo_sq_size :: u64
  lo_cq_size :: u64
  lo_attach_wq :: bool

record 'r runtime_ops =
  rt_new :: "loop_options \<Rightarrow> exn + 'r"
  rt_init_files :: "nat \<Rightarrow> 'r \<Rightarrow> s32 \<times> 'r"
  rt_init_buffers :: "nat \<Rightarrow> 'r \<Rightarrow> s32 \<times> 'r"
  rt_thread :: "'r \<Rightarrow> exn option"
  rt_update_file :: "nat \<Rightarrow> int \<Rightarrow> 'r \<Rightarrow> s32 \<times> 'r"
  rt_update_buffer :: "int \<Rightarrow> 'r \<Rightarrow> s32 \<times> 'r"

section \<open>Running one queue\<close>

datatype served = ServedIo io_queue | ServedBatch batch_queue

text \<open>
  The queue object in its scope: constructed, run and destroyed, whichever way \<^verbatim>\<open>run\<close> ends.
  \<open>serve\<close> is what \<^verbatim>\<open>run\<close> does with a constructed queue; the theories of the two queue classes
  describe its possible outcomes, collected in \<open>serves\<close> below.
\<close>

definition serve_queue ::
  "os \<Rightarrow> (served \<Rightarrow> 'r \<Rightarrow> (exn, unit) outcome \<times> 'r) \<Rightarrow> uring_fd \<Rightarrow> int \<Rightarrow> u16 \<Rightarrow> ublksrv_ctrl_dev_info \<Rightarrow>
   'r \<Rightarrow> mem_event list \<Rightarrow> (exn, unit) outcome \<times> 'r \<times> mem_event list" where
  "serve_queue os serve ublkc_fd ublkc_fd_raw q_id info r log =
     (let flags = di_flags info; queue_depth = di_queue_depth info; max_io_buf_bytes = di_max_io_buf_bytes info in
      if has_flag flags UBLK_F_BATCH_IO
      then case BatchIoQueue os ublkc_fd ublkc_fd_raw q_id flags queue_depth max_io_buf_bytes log of
          (Inl e, log') \<Rightarrow> (Error e, r, log')
        | (Inr q, log') \<Rightarrow> (case serve (ServedBatch q) r of (c, r') \<Rightarrow> (c, r', BatchIoQueue_cleanup os q log'))
      else case IoQueue os ublkc_fd ublkc_fd_raw q_id flags queue_depth max_io_buf_bytes log of
          (Inl e, log') \<Rightarrow> (Error e, r, log')
        | (Inr q, log') \<Rightarrow> (case serve (ServedIo q) r of (c, r') \<Rightarrow> (c, r', IoQueue_cleanup os q log')))"

definition UBLKC_FD :: nat where
  "UBLKC_FD = 0"

definition io_run_dev ::
  "'r runtime_ops \<Rightarrow> os \<Rightarrow> (served \<Rightarrow> 'r \<Rightarrow> (exn, unit) outcome \<times> 'r) \<Rightarrow> int \<Rightarrow> u16 \<Rightarrow> ublksrv_ctrl_dev_info \<Rightarrow>
   'r \<Rightarrow> mem_event list \<Rightarrow> (exn, unit) outcome \<times> 'r \<times> mem_event list" where
  "io_run_dev R os serve ublkc_fd q_id info r log =
     (if q_id \<ge> di_nr_hw_queues info then (Error (OutOfRange ''q_id out of range''), r, log)
      else
        let need_buffers = has_flag (di_flags info) (UBLK_F_SUPPORT_ZERO_COPY OR UBLK_F_AUTO_BUF_REG);
            (b, r1) = (if need_buffers then rt_update_buffer R (int (unat (di_queue_depth info)) - 1) r else (0, r))
        in if b < 0 then (Error (RuntimeError ''Buffer table too small, need nr_buffers >= queue_depth''), r1, log)
        else case rt_update_file R UBLKC_FD ublkc_fd r1 of (f, r2) \<Rightarrow>
          (case serve_queue os serve (if f < 0 then RawFd ublkc_fd else FixedFd (int UBLKC_FD)) ublkc_fd q_id info r2 log of
             (c, r3, log') \<Rightarrow> (c, if f \<ge> 0 then snd (rt_update_file R UBLKC_FD (- 1) r3) else r3, log')))"

text \<open>\<^verbatim>\<open>run_dev\<close> of \<^verbatim>\<open>io.hpp\<close>; the environment does not matter, the device information being an argument.\<close>

definition run_dev ::
  "'r runtime_ops \<Rightarrow> os \<Rightarrow> (served \<Rightarrow> 'r \<Rightarrow> (exn, unit) outcome \<times> 'r) \<Rightarrow> env \<Rightarrow> int \<Rightarrow> u16 \<Rightarrow> ublksrv_ctrl_dev_info \<Rightarrow>
   ('r \<times> mem_event list, unit) task" where
  "run_dev R os serve env ublkc_fd q_id info =
     task_invoke (\<lambda>_ (r, log). io_run_dev R os serve ublkc_fd q_id info r log) env"

section \<open>I/O loops\<close>

record 'r io_loop =
  lp_options :: loop_options
  lp_runtime :: 'r
  lp_cpuset :: cpu_set_t

definition IoLoop :: "'r runtime_ops \<Rightarrow> loop_options \<Rightarrow> nat \<Rightarrow> nat \<Rightarrow> cpu_set_t \<Rightarrow> exn + 'r io_loop" where
  "IoLoop R options nr_files nr_buffers cpuset =
     (case rt_new R options of
        Inl e \<Rightarrow> Inl e
      | Inr r \<Rightarrow>
          let (f, r1) = (if nr_files \<noteq> 0 then rt_init_files R nr_files r else (0, r)) in
          if f < 0 then Inl (SystemError (- f) ''fd_table init'')
          else let (b, r2) = (if nr_buffers \<noteq> 0 then rt_init_buffers R nr_buffers r1 else (0, r1)) in
          if b < 0 then Inl (SystemError (- b) ''buffer_table init'')
          else case rt_thread R r2 of
              Some e \<Rightarrow> Inl e
            | None \<Rightarrow> Inr \<lparr>lp_options = options, lp_runtime = r2, lp_cpuset = cpuset\<rparr>)"

text \<open>
  The body of the thread: pinned to the CPUs of the queue, at the highest priority and, where the
  C library knows the option (\<open>io_flusher\<close>), exempt from the limits on writers of memory pages. The
  results of these calls are ignored; then the runtime runs until it is allowed to exit.
\<close>

datatype thread_call =
    SetAffinity cpu_set_t
  | SetPriority int
  | SetIoFlusher
  | RuntimeRun

definition loop_run :: "bool \<Rightarrow> 'r io_loop \<Rightarrow> thread_call list" where
  "loop_run io_flusher l =
     [SetAffinity (lp_cpuset l), SetPriority (- 20)] @ (if io_flusher then [SetIoFlusher] else []) @ [RuntimeRun]"

section \<open>Running the daemon\<close>

text \<open>
  What happens during \<^verbatim>\<open>daemon::run\<close>, in order, beside the control commands: loops start and exit
  (their destructor lets the runtime end and joins the thread), the character device is opened and
  closed, and queues are served.
\<close>

datatype daemon_event =
    LoopStarted nat
  | LoopExited nat
  | DevOpened string int
  | DevClosed int
  | QueueServed nat int "(exn, unit) outcome"

record daemon_options =
  do_runtime_options :: "runtime_options option"
  do_nr_files :: nat
  do_nr_buffers :: nat

fun create_loops ::
  "'w kernel \<Rightarrow> 'r runtime_ops \<Rightarrow> int \<Rightarrow> u32 \<Rightarrow> ublksrv_ctrl_dev_info \<Rightarrow> u64 \<times> u64 \<Rightarrow> nat \<Rightarrow> nat \<Rightarrow> nat \<Rightarrow>
   'r io_loop list \<Rightarrow> 'w \<Rightarrow> ((exn, unit) outcome \<times> 'r io_loop list) \<times> 'w" where
  "create_loops K R control_fd dev_id info sizes nr_files nr_buffers 0 loops w = ((Value (), loops), w)"
| "create_loops K R control_fd dev_id info sizes nr_files nr_buffers (Suc n) loops w =
     (case control_get_queue_affinity K (WithInfo (Some info)) control_fd dev_id (of_nat (length loops)) 0 w of
        (Value cpuset, w') \<Rightarrow>
          (case IoLoop R \<lparr>lo_sq_size = fst sizes, lo_cq_size = snd sizes, lo_attach_wq = (loops \<noteq> [])\<rparr>
                  nr_files nr_buffers cpuset of
             Inl e \<Rightarrow> ((Error e, loops), w')
           | Inr l \<Rightarrow> create_loops K R control_fd dev_id info sizes nr_files nr_buffers n (loops @ [l]) w')
      | (Error e, w') \<Rightarrow> ((Error e, loops), w')
      | (Stopped, w') \<Rightarrow> ((Stopped, loops), w'))"

text \<open>
  The queues run concurrently, each on its own loop; an error is kept per queue, a queue that was
  stopped leaves none.
\<close>

definition queue_outcome ::
  "'r runtime_ops \<Rightarrow> os \<Rightarrow> (nat \<Rightarrow> served \<Rightarrow> 'r \<Rightarrow> (exn, unit) outcome \<times> 'r) \<Rightarrow> int \<Rightarrow> ublksrv_ctrl_dev_info \<Rightarrow>
   'r io_loop list \<Rightarrow> nat \<Rightarrow> (exn, unit) outcome" where
  "queue_outcome R os serve ublkc_fd info loops q =
     fst (io_run_dev R os (serve q) ublkc_fd (of_nat q) info (lp_runtime (loops ! q)) [])"

fun queue_error :: "(exn, unit) outcome \<Rightarrow> exn option" where
  "queue_error (Error e) = Some e"
| "queue_error _ = None"

definition loop_exits :: "'r io_loop list \<Rightarrow> daemon_event list" where
  "loop_exits loops = map LoopExited [0..<length loops]"

definition loop_starts :: "'r io_loop list \<Rightarrow> daemon_event list" where
  "loop_starts loops = map LoopStarted [0..<length loops]"

text \<open>From the opening of the character device to the end, with the loops running.\<close>

definition daemon_serve ::
  "'r runtime_ops \<Rightarrow> os \<Rightarrow> (string \<Rightarrow> 'w \<Rightarrow> (error_code, s32) outcome \<times> 'w) \<Rightarrow>
   (nat \<Rightarrow> served \<Rightarrow> 'r \<Rightarrow> (exn, unit) outcome \<times> 'r) \<Rightarrow> u32 \<Rightarrow> ublksrv_ctrl_dev_info \<Rightarrow> 'r io_loop list \<Rightarrow>
   ('w \<times> daemon_event list, unit) task" where
  "daemon_serve R os async_open serve dev_id info loops = (\<lambda>(w, evs).
     case async_open (dev_path dev_id) w of
       (Value ublkc_fd, w') \<Rightarrow>
         run_deferred (\<lambda>(w, evs). (w, evs @ [DevClosed ublkc_fd]))
           (\<lambda>(w, evs).
              let outs = map (queue_outcome R os serve ublkc_fd info loops) [0..<unat (di_nr_hw_queues info)]
              in (rethrow_first (map queue_error outs),
                  (w, evs @ map (\<lambda>(q, c). QueueServed q ublkc_fd c) (enumerate 0 outs))))
           (w', evs @ [DevOpened (dev_path dev_id) ublkc_fd])
     | (Error ec, w') \<Rightarrow> (Error (SystemError ec ''''), (w', evs))
     | (Stopped, w') \<Rightarrow> (Stopped, (w', evs)))"

definition daemon_run ::
  "'w kernel \<Rightarrow> 'r runtime_ops \<Rightarrow> os \<Rightarrow> (string \<Rightarrow> 'w \<Rightarrow> (error_code, s32) outcome \<times> 'w) \<Rightarrow>
   (nat \<Rightarrow> served \<Rightarrow> 'r \<Rightarrow> (exn, unit) outcome \<times> 'r) \<Rightarrow> env \<Rightarrow> int \<Rightarrow> u32 \<Rightarrow> runtime_options option \<Rightarrow> nat \<Rightarrow> nat \<Rightarrow>
   ('w \<times> daemon_event list, unit) task" where
  "daemon_run K R os async_open serve env control_fd dev_id runtime_options nr_files nr_buffers = (\<lambda>(w, evs).
     case cached_get_dev_info K env control_fd dev_id zero_info w of
       (Value info, w1) \<Rightarrow>
         let nr_files = max nr_files 1;
             nr_buffers = (if has_flag (di_flags info) (UBLK_F_SUPPORT_ZERO_COPY OR UBLK_F_AUTO_BUF_REG)
               then max nr_buffers (unat (di_queue_depth info)) else nr_buffers);
             options = build_options (case runtime_options of Some opts \<Rightarrow> opts | None \<Rightarrow> default_options)
               (ucast (di_queue_depth info))
         in (case create_loops K R control_fd dev_id info options nr_files nr_buffers
                    (unat (di_nr_hw_queues info)) [] w1 of
               ((c, loops), w2) \<Rightarrow>
                 run_deferred (\<lambda>(w, evs). (w, evs @ loop_exits loops))
                   (case c of
                      Value _ \<Rightarrow> daemon_serve R os async_open serve dev_id info loops
                    | Error e \<Rightarrow> throw e
                    | Stopped \<Rightarrow> (\<lambda>s. (Stopped, s)))
                   (w2, evs @ loop_starts loops))
     | (Error e, w1) \<Rightarrow> (Error e, (w1, evs))
     | (Stopped, w1) \<Rightarrow> (Stopped, (w1, evs)))"

definition run_daemon ::
  "'w kernel \<Rightarrow> 'r runtime_ops \<Rightarrow> os \<Rightarrow> (string \<Rightarrow> 'w \<Rightarrow> (error_code, s32) outcome \<times> 'w) \<Rightarrow>
   (nat \<Rightarrow> served \<Rightarrow> 'r \<Rightarrow> (exn, unit) outcome \<times> 'r) \<Rightarrow> env \<Rightarrow> int \<Rightarrow> u32 \<Rightarrow> daemon_options \<Rightarrow>
   ('w \<times> daemon_event list, unit) task" where
  "run_daemon K R os async_open serve env control_fd dev_id options =
     task_invoke (\<lambda>env'. daemon_run K R os async_open serve env' control_fd dev_id (do_runtime_options options)
       (do_nr_files options) (do_nr_buffers options)) env"

section \<open>The loops of a daemon\<close>

lemma create_loops_spec:
  "create_loops K R fd dev_id info sizes nf nb n loops w = ((c, loops'), w') \<Longrightarrow>
   take (length loops) loops' = loops \<and> length loops \<le> length loops' \<and> length loops' \<le> length loops + n \<and>
   (c = Value () \<longrightarrow> length loops' = length loops + n) \<and>
   (\<forall>i. length loops \<le> i \<longrightarrow> i < length loops' \<longrightarrow>
     (\<exists>cpuset w1 w2. control_get_queue_affinity K (WithInfo (Some info)) fd dev_id (of_nat i) 0 w1 = (Value cpuset, w2) \<and>
        IoLoop R \<lparr>lo_sq_size = fst sizes, lo_cq_size = snd sizes, lo_attach_wq = (i \<noteq> 0)\<rparr> nf nb cpuset = Inr (loops' ! i)))"
proof (induction n arbitrary: loops w)
  case (Suc n)
  let ?opts = "\<lambda>i. \<lparr>lo_sq_size = fst sizes, lo_cq_size = snd sizes, lo_attach_wq = (i \<noteq> (0 :: nat))\<rparr>"
  let ?made = "\<lambda>i l. \<exists>cpuset w1 w2. control_get_queue_affinity K (WithInfo (Some info)) fd dev_id (of_nat i) 0 w1 = (Value cpuset, w2) \<and>
    IoLoop R (?opts i) nf nb cpuset = Inr l"
  obtain a w1 where a: "control_get_queue_affinity K (WithInfo (Some info)) fd dev_id (of_nat (length loops)) 0 w = (a, w1)"
    by fastforce
  show ?case
  proof (cases "\<exists>cpuset l. a = Value cpuset \<and> IoLoop R (?opts (length loops)) nf nb cpuset = Inr l")
    case True
    then obtain cpuset l where l: "a = Value cpuset" "IoLoop R (?opts (length loops)) nf nb cpuset = Inr l" by blast
    with a Suc.prems have "create_loops K R fd dev_id info sizes nf nb n (loops @ [l]) w1 = ((c, loops'), w')" by simp
    from Suc.IH [OF this] have ih: "take (Suc (length loops)) loops' = loops @ [l]" "Suc (length loops) \<le> length loops'"
      "length loops' \<le> length loops + Suc n"
      "c = Value () \<longrightarrow> length loops' = length loops + Suc n"
      "\<And>i. Suc (length loops) \<le> i \<Longrightarrow> i < length loops' \<Longrightarrow> ?made i (loops' ! i)"
      by simp_all
    have "take (length loops) loops' = loops"
      using arg_cong [OF ih(1), of "take (length loops)"] by (simp add: min_def)
    moreover have "loops' ! length loops = l"
      using arg_cong [OF ih(1), of "\<lambda>xs. xs ! length loops"] by simp
    moreover have "?made (length loops) l" using a l by blast
    ultimately have "?made i (loops' ! i)" if "length loops \<le> i" "i < length loops'" for i
      using ih(5) [of i] that by (cases "i = length loops") auto
    with ih \<open>take (length loops) loops' = loops\<close> show ?thesis by simp
  next
    case False
    with a Suc.prems have "loops' = loops" "c \<noteq> Value ()"
      by (auto split: outcome.splits sum.splits)
    then show ?thesis by simp
  qed
qed simp

text \<open>
  A driver that reports, for the queue number in the data word of the command, the CPUs of that
  queue, whether the buffer is preceded by the path of an unprivileged device or not.
\<close>

definition reports_affinity :: "'w kernel \<Rightarrow> (u64 \<Rightarrow> cpu_set_t) \<Rightarrow> bool" where
  "reports_affinity K cpus \<longleftrightarrow> (\<forall>sqe w. sqe_cmd_op sqe = UBLK_U_CMD_GET_QUEUE_AFFINITY \<longrightarrow>
     fst (k_ctrl K sqe w) = (Value 0, PCpuset (cpus (cc_data0 (sqe_cmd sqe)))))"

lemma reported_affinity:
  assumes "reports_affinity K cpus" and "di_dev_id info = dev_id"
    and "control_get_queue_affinity K (WithInfo (Some info)) fd dev_id q_id 0 w = (Value cpuset, w')"
  shows "cpuset = cpus (ucast q_id)"
proof -
  have ans: "\<exists>w2. k_ctrl K sqe w = ((Value 0, PCpuset (cpus (cc_data0 (sqe_cmd sqe)))), w2)"
    if "sqe_cmd_op sqe = UBLK_U_CMD_GET_QUEUE_AFFINITY" for sqe w
    using assms(1) that unfolding reports_affinity_def by (metis prod.collapse)
  then have "\<exists>w2. raw_get_queue_affinity K fd dev_id q_id addr len plen w = ((Value 0, PCpuset (cpus (ucast q_id))), w2)"
    for addr len plen
    using ans [of "\<lparr>sqe_cmd_op = UBLK_U_CMD_GET_QUEUE_AFFINITY, sqe_fd = fd,
       sqe_cmd = \<lparr>cc_dev_id = dev_id, cc_queue_id = q_id, cc_len = len, cc_addr = addr,
         cc_data0 = ucast q_id, cc_dev_path_len = plen, cc_pad = 0, cc_reserved = 0\<rparr>\<rparr>" w]
    by (simp add: raw_get_queue_affinity_def ctrl_cmd_def)
  then obtain f where raw: "raw_get_queue_affinity K fd dev_id q_id addr len plen w = ((Value 0, PCpuset (cpus (ucast q_id))), f addr len plen)"
    for addr len plen by metis
  show ?thesis
    using assms(2,3)
    by (cases "has_flag (di_flags info) UBLK_F_UNPRIVILEGED_DEV")
      (simp_all add: control_get_queue_affinity_def raw_get_queue_affinity0_def cached_hit await_def ctrl_await_def
        co_return_def raw)
qed

lemma IoLoop_fields: "IoLoop R opts nf nb cpuset = Inr l \<Longrightarrow> lp_cpuset l = cpuset \<and> lp_options l = opts"
  by (auto simp: IoLoop_def Let_def split: sum.splits prod.splits if_splits option.splits)

text \<open>
  C26. Every I/O thread of a daemon is pinned to the CPUs of its own queue: the loop created for the
  \<open>i\<close>-th queue starts by restricting its thread to exactly the CPU set that the driver reports for
  the queue number \<open>i\<close>, for a privileged and for an unprivileged device, also when the creation of
  a later loop fails; only the runtimes after the first share the worker pool of another.
\<close>

theorem loops_pinned_to_queues:
  assumes "reports_affinity K cpus" and "di_dev_id info = dev_id"
    and "create_loops K R fd dev_id info sizes nf nb (unat (di_nr_hw_queues info)) [] w = ((c, loops), w')"
    and "i < length loops"
  shows "i < unat (di_nr_hw_queues info) \<and> hd (loop_run io_flusher (loops ! i)) = SetAffinity (cpus (of_nat i)) \<and>
    last (loop_run io_flusher (loops ! i)) = RuntimeRun \<and> (lo_attach_wq (lp_options (loops ! i)) \<longleftrightarrow> i \<noteq> 0)"
proof -
  obtain cpuset w1 w2 where made: "control_get_queue_affinity K (WithInfo (Some info)) fd dev_id (of_nat i) 0 w1 = (Value cpuset, w2)"
      "IoLoop R \<lparr>lo_sq_size = fst sizes, lo_cq_size = snd sizes, lo_attach_wq = (i \<noteq> 0)\<rparr> nf nb cpuset = Inr (loops ! i)"
    and i: "i < unat (di_nr_hw_queues info)"
    using create_loops_spec [OF assms(3)] assms(4) by auto
  then have "i < 2 ^ 16" using unsigned_less [of "di_nr_hw_queues info", where ?'a = nat] by simp
  then have "ucast (of_nat i :: u16) = (of_nat i :: u64)"
    by (simp add: unsigned_of_nat take_bit_nat_eq_self)
  with reported_affinity [OF assms(1,2) made(1)] IoLoop_fields [OF made(2)] i show ?thesis by (simp add: loop_run_def)
qed

text \<open>
  What \<open>io_uring\<close> documents about the tables of a runtime, in terms of the number of slots of each
  and the descriptor in slot 0 (\<open>- 1\<close> for none): creating a table fixes its size, a slot inside the
  table can be updated, an update that fails changes nothing, and a slot can always be cleared.
\<close>

record 'r table_view =
  tv_files :: "'r \<Rightarrow> nat"
  tv_buffers :: "'r \<Rightarrow> nat"
  tv_file0 :: "'r \<Rightarrow> int"

definition tables_ok :: "'r runtime_ops \<Rightarrow> 'r table_view \<Rightarrow> bool" where
  "tables_ok R V \<longleftrightarrow>
     (\<forall>n r x r'. rt_init_files R n r = (x, r') \<longrightarrow> x \<ge> 0 \<longrightarrow> tv_files V r' = n) \<and>
     (\<forall>n r x r'. rt_init_buffers R n r = (x, r') \<longrightarrow> tv_files V r' = tv_files V r \<and> (x \<ge> 0 \<longrightarrow> tv_buffers V r' = n)) \<and>
     (\<forall>i r x r'. rt_update_buffer R i r = (x, r') \<longrightarrow>
        tv_files V r' = tv_files V r \<and> tv_file0 V r' = tv_file0 V r \<and> (0 \<le> i \<longrightarrow> i < int (tv_buffers V r) \<longrightarrow> x \<ge> 0)) \<and>
     (\<forall>fd r x r'. rt_update_file R 0 fd r = (x, r') \<longrightarrow>
        (0 \<le> fd \<longrightarrow> 0 < tv_files V r \<longrightarrow> x \<ge> 0) \<and> (x < 0 \<longrightarrow> tv_file0 V r' = tv_file0 V r)) \<and>
     (\<forall>r. tv_file0 V (snd (rt_update_file R 0 (- 1) r)) = - 1)"

lemma IoLoop_tables:
  assumes "tables_ok R V" and "IoLoop R opts nf nb cpuset = Inr l" and "0 < nf"
  shows "tv_files V (lp_runtime l) = nf \<and> (0 < nb \<longrightarrow> tv_buffers V (lp_runtime l) = nb)"
proof -
  obtain r f r1 where r: "rt_new R opts = Inr r" "rt_init_files R nf r = (f, r1)" "\<not> f < 0"
    using assms(2,3) by (cases "rt_new R opts"; cases "rt_init_files R nf (projr (rt_new R opts))")
      (auto simp: IoLoop_def split: if_splits)
  then have f: "tv_files V r1 = nf" using assms(1) by (auto simp: tables_ok_def)
  show ?thesis
  proof (cases "nb = 0")
    case True
    with r assms f show ?thesis by (auto simp: IoLoop_def split: option.splits)
  next
    case False
    obtain b r2 where b: "rt_init_buffers R nb r1 = (b, r2)" by fastforce
    with False r assms(2,3) have "\<not> b < 0" "lp_runtime l = r2"
      by (auto simp: IoLoop_def split: option.splits if_splits)
    moreover have "tv_files V r2 = tv_files V r1" "b \<ge> 0 \<Longrightarrow> tv_buffers V r2 = nb"
      using assms(1) b by (auto simp: tables_ok_def)
    ultimately show ?thesis using f by simp
  qed
qed

section \<open>One queue\<close>

text \<open>On a runtime with large enough tables no check fails and the registered descriptor is used.\<close>

lemma io_run_dev_fixed:
  assumes "tables_ok R V" and "q_id < di_nr_hw_queues info" and "0 \<le> fd" and "0 < tv_files V r"
    and "has_flag (di_flags info) (UBLK_F_SUPPORT_ZERO_COPY OR UBLK_F_AUTO_BUF_REG) \<Longrightarrow>
      0 < di_queue_depth info \<and> unat (di_queue_depth info) \<le> tv_buffers V r"
  shows "\<exists>r'. fst (io_run_dev R os serve fd q_id info r log) = fst (serve_queue os serve (FixedFd 0) fd q_id info r' log)"
proof -
  let ?need = "has_flag (di_flags info) (UBLK_F_SUPPORT_ZERO_COPY OR UBLK_F_AUTO_BUF_REG)"
  obtain b r1 where b: "(if ?need then rt_update_buffer R (int (unat (di_queue_depth info)) - 1) r else (0, r)) = (b, r1)"
    by fastforce
  have b': "b \<ge> 0 \<and> tv_files V r1 = tv_files V r"
  proof (cases ?need)
    case True
    then have "0 < unat (di_queue_depth info)" "unat (di_queue_depth info) \<le> tv_buffers V r"
      using assms(5) by (simp_all add: word_less_nat_alt)
    then have "0 \<le> int (unat (di_queue_depth info)) - 1" "int (unat (di_queue_depth info)) - 1 < int (tv_buffers V r)"
      by linarith+
    with True b assms(1) show ?thesis by (auto simp: tables_ok_def)
  qed (use b in auto)
  obtain f r2 where f: "rt_update_file R 0 fd r1 = (f, r2)" by fastforce
  with assms(1,3,4) b' have "f \<ge> 0" by (auto simp: tables_ok_def)
  with f b b' assms(2) show ?thesis
    by (auto simp: io_run_dev_def UBLKC_FD_def Let_def not_le intro!: exI [of _ r2] split: prod.splits)
qed

lemma serve_queue_held:
  assumes "sane_os os" and "held log = Some M"
  shows "held (snd (snd (serve_queue os serve ufd fd q_id info r log))) = Some M"
  using io_queue.scope_balanced [OF assms, of ufd fd q_id "di_flags info" "di_queue_depth info" "di_max_io_buf_bytes info" "\<lambda>_ l. l"]
    batch_queue.scope_balanced [OF assms, of ufd fd q_id "di_flags info" "di_queue_depth info" "di_max_io_buf_bytes info" "\<lambda>_ l. l"]
  by (auto simp: serve_queue_def Let_def split: prod.splits sum.splits if_splits)

lemma serve_queue_ring:
  assumes "serve_queue os serve ufd fd q_id info r log = (c, r', log')"
    and "\<And>q r. P r \<Longrightarrow> P (snd (serve q r))" and "P r"
  shows "P r'"
  using assms(1,3) assms(2) [of r "ServedIo _"] assms(2) [of r "ServedBatch _"]
  by (auto simp: serve_queue_def Let_def split: prod.splits sum.splits if_splits) (metis snd_conv)+

text \<open>
  C24. Serving one queue leaves the process as it was, on every path and for both kinds of queue:
  the memory held is what was held before, and a file table whose slot for the character device
  was empty has it empty again, whether the queue was refused, its construction failed or its run
  ended.
\<close>

theorem io_run_dev_restores:
  assumes "sane_os os" and "tables_ok R V" and "held log = Some M" and "tv_file0 V r = - 1"
    and "\<And>q r. tv_file0 V (snd (serve q r)) = tv_file0 V r"
    and "io_run_dev R os serve fd q_id info r log = (c, r', log')"
  shows "held log' = Some M \<and> tv_file0 V r' = - 1"
proof -
  let ?need = "has_flag (di_flags info) (UBLK_F_SUPPORT_ZERO_COPY OR UBLK_F_AUTO_BUF_REG)"
  obtain b r1 where b: "(if ?need then rt_update_buffer R (int (unat (di_queue_depth info)) - 1) r else (0, r)) = (b, r1)"
    by fastforce
  have r1: "tv_file0 V r1 = - 1"
    using b assms(2,4) by (cases ?need) (auto simp: tables_ok_def)
  obtain f r2 where f: "rt_update_file R 0 fd r1 = (f, r2)" by fastforce
  have r2: "tv_file0 V r2 = - 1" if "f < 0" using that f r1 assms(2) by (auto simp: tables_ok_def)
  obtain c3 r3 log3 where s: "serve_queue os serve (if f < 0 then RawFd fd else FixedFd (int UBLKC_FD)) fd q_id info r2 log
      = (c3, r3, log3)" by (metis prod_cases3)
  have "held log3 = Some M" using serve_queue_held [OF assms(1,3)] s by (metis snd_conv)
  moreover have "tv_file0 V r3 = - 1" if "f < 0"
    using serve_queue_ring [OF s, of "\<lambda>r. tv_file0 V r = - 1"] r2 [OF that] assms(5) by simp
  moreover have "tv_file0 V (snd (rt_update_file R 0 (- 1) r3)) = - 1"
    using assms(2) by (simp add: tables_ok_def)
  ultimately show ?thesis
    using assms(3,4,6) b r1 f s
    by (auto simp: io_run_dev_def Let_def UBLKC_FD_def split: if_splits)
qed

text \<open>A runtime as \<open>io_uring\<close> documents it: the sizes of its tables and the descriptor in slot 0.\<close>

definition table_runtime :: "(nat \<times> nat \<times> int) runtime_ops" where
  "table_runtime = \<lparr>rt_new = (\<lambda>_. Inr (0, 0, - 1)),
     rt_init_files = (\<lambda>n (f, b, s). (0, (n, b, s))),
     rt_init_buffers = (\<lambda>n (f, b, s). (0, (f, n, s))),
     rt_thread = (\<lambda>_. None),
     rt_update_file = (\<lambda>i fd (f, b, s). if fd < 0 then (0, (f, b, - 1)) else if i < f then (1, (f, b, fd)) else (- 22, (f, b, s))),
     rt_update_buffer = (\<lambda>i (f, b, s). (if 0 \<le> i \<and> i < int b then 1 else - 22, (f, b, s)))\<rparr>"

definition table_runtime_view :: "(nat \<times> nat \<times> int) table_view" where
  "table_runtime_view = \<lparr>tv_files = fst, tv_buffers = fst \<circ> snd, tv_file0 = snd \<circ> snd\<rparr>"

lemma table_runtime_ok: "tables_ok table_runtime table_runtime_view"
  by (auto simp: tables_ok_def table_runtime_def table_runtime_view_def split: if_splits)

definition zc_info :: ublksrv_ctrl_dev_info where
  "zc_info = zero_info\<lparr>di_nr_hw_queues := 2, di_queue_depth := 4, di_max_io_buf_bytes := 512, di_flags := 1\<rparr>"

lemma zc_info_flags:
  "has_flag (di_flags zc_info) (UBLK_F_SUPPORT_ZERO_COPY OR UBLK_F_AUTO_BUF_REG)"
  "\<not> has_flag (di_flags zc_info) UBLK_F_BATCH_IO"
  by (simp_all add: zc_info_def has_flag_or flag_bits)

theorem io_run_dev_restores_witness:
  "\<exists>c r' log'. io_run_dev table_runtime small_os (\<lambda>q r. (Value (), r)) 7 1 zc_info (1, 4, - 1) [] = (c, r', log') \<and>
     held log' = Some {#} \<and> snd (snd r') = - 1"
proof -
  obtain c r' log' where run: "io_run_dev table_runtime small_os (\<lambda>q r. (Value (), r)) 7 1 zc_info (1, 4, - 1) [] = (c, r', log')"
    by (metis prod_cases3)
  have "held log' = Some {#} \<and> tv_file0 table_runtime_view r' = - 1"
    by (rule io_run_dev_restores [OF sane_small_os table_runtime_ok _ _ _ run])
      (simp_all add: table_runtime_view_def)
  with run show ?thesis by (simp add: table_runtime_view_def)
qed

section \<open>The whole daemon\<close>

text \<open>
  The abstract specification of what happens around the queues of a device with \<open>n\<close> queues, over the
  running loops, the open descriptor and whether the device has been opened: loops are started
  once, before the device is opened, and exit once, after it was closed; the device is opened at
  most once and only when all \<open>n\<close> loops run; a queue is served only while its loop runs and with the
  descriptor that is open. The result is what is left at the end.
\<close>

type_synonym daemon_view = "nat set \<times> int option \<times> bool"

fun daemon_event_ok :: "nat \<Rightarrow> daemon_event \<Rightarrow> daemon_view \<Rightarrow> daemon_view option" where
  "daemon_event_ok n (LoopStarted i) (L, fd, opened) =
     (if i < n \<and> i \<notin> L \<and> \<not> opened then Some (insert i L, fd, opened) else None)"
| "daemon_event_ok n (LoopExited i) (L, fd, opened) = (if i \<in> L \<and> fd = None then Some (L - {i}, fd, opened) else None)"
| "daemon_event_ok n (DevOpened path f) (L, fd, opened) =
     (if \<not> opened \<and> L = {..<n} then Some (L, Some f, True) else None)"
| "daemon_event_ok n (DevClosed f) (L, fd, opened) = (if fd = Some f then Some (L, None, opened) else None)"
| "daemon_event_ok n (QueueServed q f c) (L, fd, opened) = (if q \<in> L \<and> fd = Some f then Some (L, fd, opened) else None)"

fun daemon_events_ok :: "nat \<Rightarrow> daemon_event list \<Rightarrow> daemon_view \<Rightarrow> daemon_view option" where
  "daemon_events_ok n [] s = Some s"
| "daemon_events_ok n (e # es) s = (case daemon_event_ok n e s of Some s' \<Rightarrow> daemon_events_ok n es s' | None \<Rightarrow> None)"

lemma daemon_events_append [simp]:
  "daemon_events_ok n (xs @ ys) s = (case daemon_events_ok n xs s of Some s' \<Rightarrow> daemon_events_ok n ys s' | None \<Rightarrow> None)"
  by (induction xs arbitrary: s) (auto split: option.splits)

lemma starts_ok: "m \<le> n \<Longrightarrow> daemon_events_ok n (map LoopStarted [0..<m]) ({}, None, False) = Some ({..<m}, None, False)"
  by (induction m) (simp_all add: lessThan_Suc)

lemma exits_ok: "m \<le> k \<Longrightarrow> daemon_events_ok n (map LoopExited [m..<k]) ({m..<k}, None, opened) = Some ({}, None, opened)"
proof (induction "k - m" arbitrary: m)
  case (Suc d)
  then have "m < k" "{m..<k} - {m} = {Suc m..<k}" by auto
  with Suc show ?case by (simp add: upt_conv_Cons)
qed simp

lemma served_ok:
  "fst ` set qs \<subseteq> L \<Longrightarrow>
   daemon_events_ok n (map (\<lambda>(q, c). QueueServed q f c) qs) (L, Some f, opened) = Some (L, Some f, opened)"
  by (induction qs) auto

definition queue_events :: "int \<Rightarrow> (exn, unit) outcome list \<Rightarrow> daemon_event list" where
  "queue_events fd outs = map (\<lambda>(q, c). QueueServed q fd c) (enumerate 0 outs)"

lemma queue_events_ok:
  "length outs \<le> n \<Longrightarrow>
   daemon_events_ok n (queue_events fd outs) ({..<n}, Some fd, opened) = Some ({..<n}, Some fd, opened)"
  unfolding queue_events_def by (rule served_ok) (auto simp: in_set_enumerate_eq)

text \<open>The number of queues of the device, from its information; 0 if there is none.\<close>

definition announced_queues :: "'w kernel \<Rightarrow> env \<Rightarrow> int \<Rightarrow> u32 \<Rightarrow> 'w \<Rightarrow> nat" where
  "announced_queues K env fd dev_id w = (case fst (cached_get_dev_info K env fd dev_id zero_info w) of
       Value info \<Rightarrow> unat (di_nr_hw_queues info) | _ \<Rightarrow> 0)"

text \<open>The three ways a run goes: no device information, loops but no descriptor, and serving.\<close>

lemma daemon_run_cases:
  fixes R :: "'r runtime_ops"
  assumes "daemon_run K R os async_open serve env fd dev_id opts nf nb (w, []) = (c, (w', evs))"
  obtains (no_queue) loops :: "'r io_loop list" where "evs = loop_starts loops @ loop_exits loops" and "c \<noteq> Value ()"
      and "length loops \<le> announced_queues K env fd dev_id w"
  | (serving) info w1 w2 loops ublkc_fd outs where
      "cached_get_dev_info K env fd dev_id zero_info w = (Value info, w1)"
      and "create_loops K R fd dev_id info
          (build_options (case opts of Some opts \<Rightarrow> opts | None \<Rightarrow> default_options) (ucast (di_queue_depth info)))
          (max nf 1)
          (if has_flag (di_flags info) (UBLK_F_SUPPORT_ZERO_COPY OR UBLK_F_AUTO_BUF_REG)
           then max nb (unat (di_queue_depth info)) else nb)
          (unat (di_nr_hw_queues info)) [] w1 = ((Value (), loops), w2)"
      and "outs = map (queue_outcome R os serve ublkc_fd info loops) [0..<unat (di_nr_hw_queues info)]"
      and "evs = loop_starts loops @ DevOpened (dev_path dev_id) ublkc_fd # queue_events ublkc_fd outs @
        DevClosed ublkc_fd # loop_exits loops"
      and "c = rethrow_first (map queue_error outs)"
proof (cases "cached_get_dev_info K env fd dev_id zero_info w")
  case (Pair i w1)
  show ?thesis
  proof (cases i)
    case (Value info)
    let ?sizes = "build_options (case opts of Some opts \<Rightarrow> opts | None \<Rightarrow> default_options) (ucast (di_queue_depth info))"
    let ?nb = "if has_flag (di_flags info) (UBLK_F_SUPPORT_ZERO_COPY OR UBLK_F_AUTO_BUF_REG)
           then max nb (unat (di_queue_depth info)) else nb"
    obtain d loops w2 where l: "create_loops K R fd dev_id info ?sizes (max nf 1) ?nb
        (unat (di_nr_hw_queues info)) [] w1 = ((d, loops), w2)" by (metis prod.exhaust)
    obtain a w3 where a: "async_open (dev_path dev_id) w2 = (a, w3)" by fastforce
    show ?thesis
    proof (cases "\<exists>f. d = Value () \<and> a = Value f")
      case True
      then obtain f where "d = Value ()" "a = Value f" by blast
      with Pair Value l a assms show ?thesis
        by (intro serving [of info w1 loops w2 _ f])
          (auto simp: daemon_run_def daemon_serve_def run_deferred_def Let_def queue_events_def)
    next
      case False
      moreover have "length loops \<le> announced_queues K env fd dev_id w"
        using create_loops_spec [OF l] Pair Value by (simp add: announced_queues_def)
      ultimately show ?thesis using Pair Value l a assms
        by (intro no_queue [of loops])
          (auto simp: daemon_run_def daemon_serve_def run_deferred_def throw_def split: outcome.splits)
    qed
  qed (use Pair assms in \<open>auto simp: daemon_run_def loop_starts_def loop_exits_def intro!: no_queue [of "[]"]\<close>)
qed

text \<open>
  C13. \<^verbatim>\<open>daemon::run\<close> gives everything back, whatever fails, for a device with any number of queues:
  every loop it started has exited, after the character device was closed; the device is opened at
  most once, and only while the loops of all queues run; and each queue is served on its running
  loop with that descriptor.
\<close>

theorem daemon_run_balanced:
  assumes "run_daemon K R os async_open serve env fd dev_id options (w, []) = (c, (w', evs))"
  shows "daemon_events_ok (announced_queues K (TaskEnv env) fd dev_id w) evs ({}, None, False) =
    Some ({}, None, \<exists>f. DevOpened (dev_path dev_id) f \<in> set evs)"
proof -
  let ?n = "announced_queues K (TaskEnv env) fd dev_id w"
  have "daemon_run K R os async_open serve (TaskEnv env) fd dev_id (do_runtime_options options)
      (do_nr_files options) (do_nr_buffers options) (w, []) = (c, (w', evs))"
    using assms by (simp add: run_daemon_def task_invoke_def)
  then show ?thesis
  proof (cases rule: daemon_run_cases)
    case (no_queue loops)
    with starts_ok [of "length loops" ?n] exits_ok [of 0 "length loops" ?n] show ?thesis
      by (auto simp: loop_starts_def loop_exits_def lessThan_atLeast0)
  next
    case (serving info w1 w2 loops ublkc_fd outs)
    have "length loops = ?n" "length outs = ?n"
      using create_loops_spec [OF serving(2)] serving(1,3) by (simp_all add: announced_queues_def)
    with serving(4) starts_ok [of ?n ?n] queue_events_ok [of outs ?n ublkc_fd True] exits_ok [of 0 ?n ?n True]
    show ?thesis by (auto simp: loop_starts_def loop_exits_def lessThan_atLeast0)
  qed
qed

text \<open>The queues that were served, with the outcome of each.\<close>

fun served_queues :: "daemon_event list \<Rightarrow> (nat \<times> (exn, unit) outcome) list" where
  "served_queues [] = []"
| "served_queues (QueueServed q fd c # es) = (q, c) # served_queues es"
| "served_queues (_ # es) = served_queues es"

lemma served_queues_append [simp]: "served_queues (xs @ ys) = served_queues xs @ served_queues ys"
  by (induction xs rule: served_queues.induct) auto

lemma served_queues_loops [simp]:
  "served_queues (loop_starts loops) = []" "served_queues (loop_exits loops) = []"
proof -
  have "served_queues (map LoopStarted ns) = []" "served_queues (map LoopExited ns) = []" for ns
    by (induction ns) auto
  then show "served_queues (loop_starts loops) = []" "served_queues (loop_exits loops) = []"
    by (simp_all add: loop_starts_def loop_exits_def)
qed

lemma served_queues_queue_events [simp]: "served_queues (queue_events fd outs) = enumerate 0 outs"
proof -
  have "served_queues (map (\<lambda>(q, c). QueueServed q fd c) qs) = qs" for qs by (induction qs) auto
  then show ?thesis by (simp add: queue_events_def)
qed

text \<open>
  C11. How \<^verbatim>\<open>daemon::run\<close> ends. If the device was opened, every queue that its information announces has
  been served exactly once; the run succeeds if none of them failed, and otherwise throws the
  exception of the failed queue with the lowest number. If the device was not opened the run does
  not succeed and no queue is served.
\<close>

theorem daemon_run_outcome:
  assumes "run_daemon K R os async_open serve env fd dev_id options (w, []) = (c, (w', evs))"
  shows "if \<exists>f. DevOpened (dev_path dev_id) f \<in> set evs
    then map fst (served_queues evs) = [0..<announced_queues K (TaskEnv env) fd dev_id w] \<and>
      (case c of
         Value _ \<Rightarrow> list_all (\<lambda>(q, o'). queue_error o' = None) (served_queues evs)
       | Error e \<Rightarrow> \<exists>i < length (served_queues evs). queue_error (snd (served_queues evs ! i)) = Some e \<and>
           (\<forall>j < i. queue_error (snd (served_queues evs ! j)) = None)
       | Stopped \<Rightarrow> False)
    else served_queues evs = [] \<and> c \<noteq> Value ()"
proof -
  have "daemon_run K R os async_open serve (TaskEnv env) fd dev_id (do_runtime_options options)
      (do_nr_files options) (do_nr_buffers options) (w, []) = (c, (w', evs))"
    using assms by (simp add: run_daemon_def task_invoke_def)
  then show ?thesis
  proof (cases rule: daemon_run_cases)
    case (no_queue loops)
    then show ?thesis by (auto simp: loop_starts_def loop_exits_def) (simp_all add: loop_starts_def [symmetric] loop_exits_def [symmetric])
  next
    case (serving info w1 w2 loops ublkc_fd outs)
    have s: "served_queues evs = enumerate 0 outs" using serving(4) by simp
    have "map fst (enumerate 0 outs) = [0..<announced_queues K (TaskEnv env) fd dev_id w]"
      using serving(1,3) by (simp add: announced_queues_def)
    moreover have "queue_error (snd (enumerate 0 outs ! i)) = map queue_error outs ! i" if "i < length outs" for i
      using that by (simp add: nth_enumerate_eq)
    moreover have "list_all (\<lambda>(q, o'). queue_error o' = None) (enumerate 0 outs)"
      if "\<forall>i < length outs. map queue_error outs ! i = None"
      using that by (auto simp: list_all_length nth_enumerate_eq)
    ultimately show ?thesis
      using s serving(4,5) rethrow_first_spec [of "map queue_error outs"] by (auto split: outcome.splits)
  qed
qed

text \<open>
  A device with two queues of depth 4 and zero copy, its information cached, on runtimes with
  tables as documented; the second queue's run fails.
\<close>

definition sample_daemon :: "(exn, unit) outcome \<times> unit \<times> daemon_event list" where
  "sample_daemon = run_daemon idle_kernel table_runtime small_os (\<lambda>path w. (Value 9, w))
     (\<lambda>q _ r. (if q = 1 then Error OtherException else Value (), r)) (WithInfo (Some zc_info)) 3 0
     \<lparr>do_runtime_options = None, do_nr_files = 0, do_nr_buffers = 0\<rparr> ((), [])"

lemma sample_affinity: "control_get_queue_affinity idle_kernel (WithInfo (Some zc_info)) fd 0 q 0 () = (Value 0, ())"
proof -
  have "\<not> has_flag (di_flags zc_info) UBLK_F_UNPRIVILEGED_DEV" "di_dev_id zc_info = 0"
    by (simp_all add: zc_info_def zero_info_def flag_bits)
  then show ?thesis
    by (simp add: control_get_queue_affinity_def cached_hit raw_simps ctrl_await_def ctrl_cmd_def idle_kernel_def
        co_return_def await_def)
qed

lemma sample_loop: "IoLoop table_runtime opts 1 4 cpuset =
    Inr \<lparr>lp_options = opts, lp_runtime = (1, 4, - 1), lp_cpuset = cpuset\<rparr>"
  by (simp add: IoLoop_def table_runtime_def)

lemma sample_loops:
  "create_loops idle_kernel table_runtime fd 0 zc_info sizes 1 4 2 [] () =
     ((Value (), [\<lparr>lp_options = \<lparr>lo_sq_size = fst sizes, lo_cq_size = snd sizes, lo_attach_wq = False\<rparr>,
          lp_runtime = (1, 4, - 1), lp_cpuset = 0\<rparr>,
        \<lparr>lp_options = \<lparr>lo_sq_size = fst sizes, lo_cq_size = snd sizes, lo_attach_wq = True\<rparr>,
          lp_runtime = (1, 4, - 1), lp_cpuset = 0\<rparr>]), ())"
  by (simp add: numeral_2_eq_2 sample_affinity sample_loop del: One_nat_def)

text \<open>A driver that gives queue \<open>q\<close> the CPU \<open>q\<close>, and the second thread of a device with two queues.\<close>

definition pinning_kernel :: "unit kernel" where
  "pinning_kernel = \<lparr>k_ctrl = (\<lambda>sqe w. ((Value 0, PCpuset (push_bit (unat (cc_data0 (sqe_cmd sqe))) 1)), w)),
     k_timeout = (\<lambda>ts w. (Error 62, w))\<rparr>"

theorem loops_pinned_to_queues_witness:
  "\<exists>loops. create_loops pinning_kernel table_runtime 3 0 zc_info (4, 8) 1 4 2 [] () = ((Value (), loops), ()) \<and>
     hd (loop_run True (loops ! 1)) = SetAffinity 2 \<and> lo_attach_wq (lp_options (loops ! 1))"
proof -
  have r: "reports_affinity pinning_kernel (\<lambda>q. push_bit (unat q) 1)"
    by (simp add: reports_affinity_def pinning_kernel_def)
  have z: "\<not> has_flag (di_flags zc_info) UBLK_F_UNPRIVILEGED_DEV" "di_dev_id zc_info = 0" "unat (di_nr_hw_queues zc_info) = 2"
    by (simp_all add: zc_info_def zero_info_def flag_bits)
  have "\<exists>cpuset. control_get_queue_affinity pinning_kernel (WithInfo (Some zc_info)) 3 0 q 0 () = (Value cpuset, ())" for q
    using z by (simp add: control_get_queue_affinity_def cached_hit raw_simps ctrl_await_def ctrl_cmd_def pinning_kernel_def
        co_return_def await_def)
  then obtain f where "control_get_queue_affinity pinning_kernel (WithInfo (Some zc_info)) 3 0 q 0 () = (Value (f q), ())" for q
    by metis
  then obtain loops where l: "create_loops pinning_kernel table_runtime 3 0 zc_info (4, 8) 1 4 2 [] () = ((Value (), loops), ())"
      "length loops = 2"
    by (simp add: numeral_2_eq_2 sample_loop del: One_nat_def)
  from loops_pinned_to_queues [OF r z(2), of table_runtime 3 "(4, 8)" 1 4 "()" "Value ()" loops "()" 1 True] l z(3)
  have "hd (loop_run True (loops ! 1)) = SetAffinity (push_bit (unat (of_nat 1 :: u64)) 1)" "lo_attach_wq (lp_options (loops ! 1))"
    by simp_all
  with l(1) show ?thesis by auto
qed

lemma sample_queue_outcome:
  assumes "lp_runtime (loops ! q) = (1, 4, - 1)" and "q < 2"
  shows "queue_outcome table_runtime small_os (\<lambda>q _ r. (if q = 1 then Error OtherException else Value (), r)) 9 zc_info loops q
    = (if q = 1 then Error OtherException else Value ())"
proof -
  have q: "\<not> di_nr_hw_queues zc_info \<le> of_nat q"
    using assms(2) by (auto simp: less_2_cases_iff zc_info_def word_le_nat_alt)
  have "\<exists>x log. IoQueue small_os (FixedFd 0) 9 (of_nat q) (di_flags zc_info) (di_queue_depth zc_info)
      (di_max_io_buf_bytes zc_info) [] = (Inr x, log)"
    by (simp add: IoQueue_def IoQueue_body_def small_os_def Let_def need_alloc_buf_bits zc_info_def)
  then obtain x log where "IoQueue small_os (FixedFd 0) 9 (of_nat q) (di_flags zc_info) (di_queue_depth zc_info)
      (di_max_io_buf_bytes zc_info) [] = (Inr x, log)" by blast
  moreover have "uint (di_queue_depth zc_info) = 4" by (simp add: zc_info_def)
  ultimately show ?thesis
    using assms(1) q zc_info_flags
    by (simp add: queue_outcome_def io_run_dev_def serve_queue_def table_runtime_def UBLKC_FD_def Let_def)
qed

lemma sample_daemon_run:
  "sample_daemon = (Error OtherException, (), [LoopStarted 0, LoopStarted 1, DevOpened (dev_path 0) 9,
     QueueServed 0 9 (Value ()), QueueServed 1 9 (Error OtherException), DevClosed 9, LoopExited 0, LoopExited 1])"
proof -
  have c: "cached_get_dev_info idle_kernel (WithInfo (Some zc_info)) 3 0 zero_info () = (Value zc_info, ())"
    by (simp add: cached_hit zc_info_def zero_info_def co_return_def)
  have n: "unat (di_nr_hw_queues zc_info) = 2" "unat (di_queue_depth zc_info) = 4" by (simp_all add: zc_info_def)
  show ?thesis
    by (simp add: sample_daemon_def run_daemon_def task_invoke_def daemon_run_def c n zc_info_flags(1) Let_def
        sample_loops run_deferred_def daemon_serve_def sample_queue_outcome loop_starts_def loop_exits_def upt_rec
        del: One_nat_def)
qed

lemma sample_announced: "announced_queues idle_kernel (TaskEnv (WithInfo (Some zc_info))) 3 0 () = 2"
  by (simp add: announced_queues_def cached_hit zc_info_def zero_info_def co_return_def)

theorem daemon_run_balanced_witness:
  "daemon_events_ok 2 (snd (snd sample_daemon)) ({}, None, False) = Some ({}, None, True)"
  using daemon_run_balanced [OF sample_daemon_def [symmetric, unfolded sample_daemon_run]]
  by (simp add: sample_daemon_run sample_announced del: TaskEnv.simps)

theorem daemon_run_outcome_witness:
  "fst sample_daemon = Error OtherException \<and> map fst (served_queues (snd (snd sample_daemon))) = [0..<2] \<and>
   served_queues (snd (snd sample_daemon)) = [(0, Value ()), (1, Error OtherException)]"
  using daemon_run_outcome [OF sample_daemon_def [symmetric, unfolded sample_daemon_run]]
  by (simp add: sample_daemon_run sample_announced del: TaskEnv.simps)

text \<open>
  C25. The loops that \<^verbatim>\<open>daemon::run\<close> creates are large enough for \<^verbatim>\<open>run_dev\<close>, whatever table sizes the
  caller asked for, on a device of positive queue depth whose character device was opened with a
  valid descriptor: every queue it serves passes the range and buffer table checks, and its
  outcome is that of the queue object working on the registered descriptor, with the device
  information the daemon fetched.
\<close>

theorem daemon_queues_have_resources:
  assumes "tables_ok R V"
    and "run_daemon K R os async_open serve env fd dev_id options (w, []) = (c, (w', evs))"
    and "cached_get_dev_info K (TaskEnv env) fd dev_id zero_info w = (Value info, w1)"
    and "0 < di_queue_depth info" and "QueueServed q ublkc_fd out \<in> set evs" and "0 \<le> ublkc_fd"
  shows "q < unat (di_nr_hw_queues info) \<and>
    (\<exists>r. out = fst (serve_queue os (serve q) (FixedFd 0) ublkc_fd (of_nat q) info r []))"
proof -
  let ?nb = "if has_flag (di_flags info) (UBLK_F_SUPPORT_ZERO_COPY OR UBLK_F_AUTO_BUF_REG)
    then max (do_nr_buffers options) (unat (di_queue_depth info)) else do_nr_buffers options"
  have "daemon_run K R os async_open serve (TaskEnv env) fd dev_id (do_runtime_options options)
      (do_nr_files options) (do_nr_buffers options) (w, []) = (c, (w', evs))"
    using assms(2) by (simp add: run_daemon_def task_invoke_def)
  then show ?thesis
  proof (cases rule: daemon_run_cases)
    case (no_queue loops)
    then show ?thesis using assms(5) by (auto simp: loop_starts_def loop_exits_def)
  next
    case (serving info' w1' w2 loops f outs)
    from serving(1) assms(3) have "info' = info" by simp
    note serving = serving [unfolded this]
    have q: "q < unat (di_nr_hw_queues info)" "f = ublkc_fd" "out = queue_outcome R os serve f info loops q"
      using assms(5) serving(3,4)
      by (auto simp: queue_events_def loop_starts_def loop_exits_def in_set_enumerate_eq)
    from create_loops_spec [OF serving(2)] q(1)
    obtain opts cpuset where "IoLoop R opts (max (do_nr_files options) 1) ?nb cpuset = Inr (loops ! q)" by auto
    from IoLoop_tables [OF assms(1) this]
    have t: "0 < tv_files V (lp_runtime (loops ! q))" "0 < ?nb \<Longrightarrow> tv_buffers V (lp_runtime (loops ! q)) = ?nb"
      by auto
    have "unat (di_nr_hw_queues info) < 65536" using unsigned_less [of "di_nr_hw_queues info"] by simp
    with q(1) have "unat (of_nat q :: u16) = q" by (simp add: unsigned_of_nat take_bit_nat_eq_self)
    then have "(of_nat q :: u16) < di_nr_hw_queues info" using q(1) by (simp add: word_less_nat_alt)
    moreover have "0 < unat (di_queue_depth info)" using assms(4) by (simp add: word_less_nat_alt)
    ultimately show ?thesis
      using io_run_dev_fixed [OF assms(1) _ assms(6) t(1), of "of_nat q" info os "serve q" "[]"] t(2) assms(4) q
      by (auto simp: queue_outcome_def)
  qed
qed

theorem daemon_queues_have_resources_witness:
  "\<exists>r :: nat \<times> nat \<times> int. Error OtherException = fst (serve_queue small_os (\<lambda>_ r. (Error OtherException, r)) (FixedFd 0) 9 1 zc_info r [])"
proof -
  have c: "cached_get_dev_info idle_kernel (TaskEnv (WithInfo (Some zc_info))) 3 0 zero_info () = (Value zc_info, ())"
    by (simp add: cached_hit zc_info_def zero_info_def co_return_def)
  have "0 < di_queue_depth zc_info" by (simp add: zc_info_def)
  from daemon_queues_have_resources [OF table_runtime_ok sample_daemon_def [symmetric, unfolded sample_daemon_run] c this,
      of 1 9 "Error OtherException"]
  show ?thesis by (simp del: split_paired_Ex)
qed

end
