(* ===== verification/Ublk_Shm.thy ===== *)
theory Ublk_Shm
  imports Ublk_Io
begin

text \<open>
  The shared memory registration service of \<^verbatim>\<open>detail/shm.hpp\<close>: a client connects to a Unix domain
  socket and passes a memory file descriptor, the service maps it and registers the mapping with
  the driver and the handler, answers with a result and undoes everything when the client
  disconnects. Each client has its own coroutine; undoing is a task of its own.
\<close>

section \<open>A session\<close>

record shm_obj =
  so_control_fd :: int
  so_dev_id :: u32
  so_flags :: u32
  so_size :: u64
  so_base :: u64
  so_index :: s32

definition Session :: "int \<Rightarrow> u32 \<Rightarrow> u32 \<Rightarrow> shm_obj" where
  "Session control_fd dev_id flags = \<lparr>so_control_fd = control_fd, so_dev_id = dev_id, so_flags = flags,
     so_size = 0, so_base = 0, so_index = - 1\<rparr>"

text \<open>A control message of the received message: its level, its type and the descriptors in its data.\<close>

record cmsg =
  cm_level :: int
  cm_type :: int
  cm_fds :: "int list"

definition SOL_SOCKET :: int where [consts_simps]:
  "SOL_SOCKET = 1"

definition SCM_RIGHTS :: int where [consts_simps]:
  "SCM_RIGHTS = 1"

definition rights :: "cmsg \<Rightarrow> bool" where
  "rights m \<longleftrightarrow> cm_level m = SOL_SOCKET \<and> cm_type m = SCM_RIGHTS"

text \<open>The loop over the control messages copies the first descriptor of each rights message.\<close>

fun received_fd :: "int \<Rightarrow> cmsg list \<Rightarrow> int" where
  "received_fd fd [] = fd"
| "received_fd fd (m # ms) = received_fd (if rights m then hd (cm_fds m) else fd) ms"

text \<open>
  What a session does, in order, as far as it concerns descriptors, mappings, the driver, the
  handler and the client. \<open>Received\<close> are the descriptors the kernel installed with the message.
\<close>

datatype shm_event =
    Accepted int
  | Received int
  | ShmClose int
  | ShmMmap u64 u64 int bool
  | ShmMunmap u64 u64
  | RegisterShm int u32 ublk_shmem_buf_reg
  | Registered s32 u64 u64
  | HandleReg s32 u64 u64
  | Reply int s32
  | UnregisterShm int u32 u64
  | Unregistered s32
  | HandleUnreg s32

datatype shm_pc =
    ShmStart
  | AwaitRecvmsg
  | AwaitStatx int
  | AwaitRegisterShm int
  | AwaitHandleReg int
  | AwaitSend int s32
  | AwaitRecv int s32
  | ShmDone "(exn, unit) outcome"
  | ShmDropped

text \<open>
  A completion the coroutine waits for. With the size of the file comes the answer of the
  \<^verbatim>\<open>mmap\<close> that follows at once: an errno or the address.
\<close>

datatype shm_completion =
    RecvmsgDone "(error_code, cmsg list) outcome"
  | StatxDone "(error_code, u64) outcome" "int + u64"
  | RegisterDone "(exn, s32) outcome"
  | HandleRegDone "(handler_error, unit) outcome"
  | SendDone "(error_code, s32) outcome"
  | RecvDone "(error_code, s32) outcome"

type_synonym shm_step = "shm_pc \<times> shm_obj \<times> bool \<times> shm_event list"

text \<open>
  A step yields the new program counter, the session object, whether \<^verbatim>\<open>cleanup\<close> is spawned with a
  copy of it, and the events. The end of the coroutine runs the deferred actions that exist by
  then, the latest first: clean up after a non-negative result, close the received descriptor,
  close the connection.
\<close>

definition session_end :: "int \<Rightarrow> int option \<Rightarrow> s32 option \<Rightarrow> shm_obj \<Rightarrow> (exn, unit) outcome \<Rightarrow> shm_step" where
  "session_end client_fd memfd res obj c =
     (ShmDone c, obj, (case res of Some r \<Rightarrow> r \<ge> 0 | None \<Rightarrow> False),
      (case memfd of Some fd \<Rightarrow> [ShmClose fd] | None \<Rightarrow> []) @ [ShmClose client_fd])"

text \<open>\<^verbatim>\<open>co_await\<close> of an operation with an error code, and of the handler's sender.\<close>

fun code_outcome :: "(error_code, 'a) outcome \<Rightarrow> (exn, 'a) outcome" where
  "code_outcome (Value a) = Value a"
| "code_outcome (Error ec) = Error (SystemError ec '''')"
| "code_outcome Stopped = Stopped"

fun handler_outcome :: "(handler_error, unit) outcome \<Rightarrow> (exn, unit) outcome" where
  "handler_outcome (Value a) = Value a"
| "handler_outcome (Error (CodeError ec)) = Error (SystemError ec '''')"
| "handler_outcome (Error (ExceptionPtr e)) = Error e"
| "handler_outcome (Error OtherError) = Error OtherException"
| "handler_outcome Stopped = Stopped"

text \<open>
  The end of \<^verbatim>\<open>Session::handle\<close>, whose deferred action spawns the clean-up unless it succeeded, and
  the conversion of its outcome into the result sent to the client.
\<close>

definition handle_result :: "(exn, unit) outcome \<Rightarrow> s32" where
  "handle_result c = (case c of
       Value _ \<Rightarrow> 0
     | Error e \<Rightarrow> - normalize_error (ExceptionPtr e) EIO
     | Stopped \<Rightarrow> - normalize_error (CodeError ECANCELED) EIO)"

definition handle_end :: "int \<Rightarrow> int \<Rightarrow> shm_obj \<Rightarrow> (exn, unit) outcome \<Rightarrow> shm_step" where
  "handle_end client_fd memfd obj c =
     (let res = handle_result c in
      (AwaitSend memfd res, obj, c \<noteq> Value (), [Reply client_fd res]))"

definition handle_mapped :: "int \<Rightarrow> int \<Rightarrow> shm_obj \<Rightarrow> int + u64 \<Rightarrow> shm_step" where
  "handle_mapped client_fd memfd obj mapped = (case mapped of
       Inl errno \<Rightarrow> handle_end client_fd memfd obj (Error (SystemError errno ''memfd mmap''))
     | Inr addr \<Rightarrow>
         (AwaitRegisterShm memfd, obj\<lparr>so_base := addr\<rparr>, False,
          [ShmMmap addr (so_size obj) memfd (\<not> has_flag (so_flags obj) UBLK_SHMEM_BUF_READ_ONLY),
           RegisterShm (so_control_fd obj) (so_dev_id obj)
             \<lparr>sr_addr = addr, sr_len = so_size obj, sr_flags = so_flags obj, sr_reserved = 0\<rparr>]))"

fun drop_value :: "(exn, 'a) outcome \<Rightarrow> (exn, unit) outcome" where
  "drop_value (Value _) = Value ()"
| "drop_value (Error e) = Error e"
| "drop_value Stopped = Stopped"

fun shm_resume :: "int \<Rightarrow> shm_obj \<Rightarrow> shm_pc \<Rightarrow> shm_completion \<Rightarrow> shm_step option" where
  "shm_resume client_fd obj AwaitRecvmsg (RecvmsgDone c) = Some (case code_outcome c of
       Value cmsgs \<Rightarrow>
         (let fd = received_fd (- 1) cmsgs; got = map Received (concat (map cm_fds (filter rights cmsgs))) in
          if fd = - 1
          then (case session_end client_fd None None obj (Error (RuntimeError ''client did not pass a file descriptor'')) of
                  (pc, obj', spawn, evs) \<Rightarrow> (pc, obj', spawn, got @ evs))
          else (AwaitStatx fd, obj, False, got))
     | c' \<Rightarrow> session_end client_fd None None obj (drop_value c'))"
| "shm_resume client_fd obj (AwaitStatx memfd) (StatxDone c mapped) = Some (case code_outcome c of
       Value stx_size \<Rightarrow> handle_mapped client_fd memfd (obj\<lparr>so_size := stx_size\<rparr>) mapped
     | c' \<Rightarrow> handle_end client_fd memfd obj (drop_value c'))"
| "shm_resume client_fd obj (AwaitRegisterShm memfd) (RegisterDone c) = Some (case c of
       Value index \<Rightarrow>
         (AwaitHandleReg memfd, obj\<lparr>so_index := index\<rparr>, False,
          [Registered index (so_base obj) (so_size obj), HandleReg index (so_base obj) (so_size obj)])
     | c' \<Rightarrow> handle_end client_fd memfd obj (drop_value c'))"
| "shm_resume client_fd obj (AwaitHandleReg memfd) (HandleRegDone c) =
     Some (handle_end client_fd memfd obj (handler_outcome c))"
| "shm_resume client_fd obj (AwaitSend memfd res) (SendDone c) = Some (case code_outcome c of
       Value _ \<Rightarrow>
         if res < 0 then session_end client_fd (Some memfd) (Some res) obj (Error (SystemError (- res) ''''))
         else (AwaitRecv memfd res, obj, False, [])
     | c' \<Rightarrow> session_end client_fd (Some memfd) (Some res) obj (drop_value c'))"
| "shm_resume client_fd obj (AwaitRecv memfd res) (RecvDone c) = Some (case code_outcome c of
       Value r \<Rightarrow> session_end client_fd (Some memfd) (Some res) obj
         (if r > 0 then Error (RuntimeError ''client sent data after result'') else Value ())
     | c' \<Rightarrow> session_end client_fd (Some memfd) (Some res) obj (drop_value c'))"
| "shm_resume client_fd obj _ _ = None"

section \<open>Cleaning up\<close>

text \<open>
  The task of \<^verbatim>\<open>Session::cleanup\<close> works on its own copy of the session object. The unregistering
  command cannot be stopped; when it fails the task ends with its exception.
\<close>

datatype cleanup_pc = CleanupReady | AwaitUnregisterShm | CleanupDone "(exn, unit) outcome"

definition cleanup_unmap :: "shm_obj \<Rightarrow> cleanup_pc \<times> shm_event list" where
  "cleanup_unmap self = (CleanupDone (Value ()), if so_base self \<noteq> 0 then [ShmMunmap (so_base self) (so_size self)] else [])"

definition cleanup :: "shm_obj \<Rightarrow> cleanup_pc \<times> shm_event list" where
  "cleanup self =
     (if so_index self \<noteq> - 1
      then (AwaitUnregisterShm, [UnregisterShm (so_control_fd self) (so_dev_id self) (of_int (so_index self))])
      else cleanup_unmap self)"

definition cleanup_resume :: "shm_obj \<Rightarrow> exn option \<Rightarrow> cleanup_pc \<times> shm_event list" where
  "cleanup_resume self c = (case c of
       Some e \<Rightarrow> (CleanupDone (Error e), [])
     | None \<Rightarrow> (case cleanup_unmap self of (pc, evs) \<Rightarrow>
         (pc, Unregistered (so_index self) # HandleUnreg (so_index self) # evs)))"

section \<open>Sessions as transition systems\<close>

record shm_session =
  se_client :: int
  se_pc :: shm_pc
  se_obj :: shm_obj
  se_cleanups :: "(cleanup_pc \<times> shm_obj) list"
  se_trace :: "shm_event list"

text \<open>
  What the surroundings guarantee of a completion: error codes are positive, also those inside a
  \<^verbatim>\<open>std::system_error\<close>; a rights message carries at least one descriptor and descriptors are not
  negative; a mapping is not at the null address; a registered buffer has a non-negative index.
\<close>

definition errno_exn :: "exn \<Rightarrow> bool" where
  "errno_exn e \<longleftrightarrow> (case e of SystemError ec _ \<Rightarrow> 0 < ec | _ \<Rightarrow> True)"

lemma errno_exn_simps [simp]: "errno_exn (SystemError ec what) \<longleftrightarrow> 0 < ec"
  by (simp add: errno_exn_def)

fun shm_answer :: "shm_completion \<Rightarrow> bool" where
  "shm_answer (RecvmsgDone (Value cmsgs)) \<longleftrightarrow>
     (\<forall>m \<in> set cmsgs. rights m \<longrightarrow> cm_fds m \<noteq> [] \<and> (\<forall>fd \<in> set (cm_fds m). 0 \<le> fd))"
| "shm_answer (StatxDone (Value _) (Inl errno)) \<longleftrightarrow> 0 < errno"
| "shm_answer (StatxDone (Value _) (Inr addr)) \<longleftrightarrow> addr \<noteq> 0"
| "shm_answer (StatxDone (Error ec) _) \<longleftrightarrow> 0 < ec"
| "shm_answer (RegisterDone (Value index)) \<longleftrightarrow> 0 \<le> index"
| "shm_answer (RegisterDone (Error e)) \<longleftrightarrow> errno_exn e"
| "shm_answer (HandleRegDone (Error (CodeError ec))) \<longleftrightarrow> 0 < ec"
| "shm_answer (HandleRegDone (Error (ExceptionPtr e))) \<longleftrightarrow> errno_exn e"
| "shm_answer _ \<longleftrightarrow> True"

text \<open>
  One step of a session or of one of its clean-up tasks. \<open>stopping\<close> says that the service has been
  asked to stop: then a task that has been spawned but not started may be dropped.
\<close>

definition session_apply :: "shm_session \<Rightarrow> shm_step \<Rightarrow> shm_session" where
  "session_apply s = (\<lambda>(pc, obj, spawn, evs).
     s\<lparr>se_pc := pc, se_obj := obj, se_trace := se_trace s @ evs,
       se_cleanups := se_cleanups s @ (if spawn then [(CleanupReady, obj)] else [])\<rparr>)"

definition cleanup_apply :: "shm_session \<Rightarrow> nat \<Rightarrow> cleanup_pc \<times> shm_event list \<Rightarrow> shm_session" where
  "cleanup_apply s i = (\<lambda>(pc, evs).
     s\<lparr>se_cleanups := (se_cleanups s)[i := (pc, snd (se_cleanups s ! i))], se_trace := se_trace s @ evs\<rparr>)"

inductive session_step :: "bool \<Rightarrow> shm_session \<Rightarrow> shm_session \<Rightarrow> bool" for stopping where
  begin_session: "se_pc s = ShmStart \<Longrightarrow> session_step stopping s (s\<lparr>se_pc := AwaitRecvmsg\<rparr>)"
| resume: "shm_resume (se_client s) (se_obj s) (se_pc s) c = Some r \<Longrightarrow> shm_answer c \<Longrightarrow>
    session_step stopping s (session_apply s r)"
| begin_cleanup: "i < length (se_cleanups s) \<Longrightarrow> se_cleanups s ! i = (CleanupReady, self) \<Longrightarrow>
    session_step stopping s (cleanup_apply s i (cleanup self))"
| unregistered: "i < length (se_cleanups s) \<Longrightarrow> se_cleanups s ! i = (AwaitUnregisterShm, self) \<Longrightarrow>
    session_step stopping s (cleanup_apply s i (cleanup_resume self c))"
| drop_session: "stopping \<Longrightarrow> se_pc s = ShmStart \<Longrightarrow> session_step stopping s (s\<lparr>se_pc := ShmDropped\<rparr>)"
| drop_cleanup: "stopping \<Longrightarrow> i < length (se_cleanups s) \<Longrightarrow> se_cleanups s ! i = (CleanupReady, self) \<Longrightarrow>
    session_step stopping s (cleanup_apply s i (CleanupDone Stopped, []))"

definition new_session :: "shm_obj \<Rightarrow> int \<Rightarrow> shm_session" where
  "new_session session client_fd = \<lparr>se_client = client_fd, se_pc = ShmStart, se_obj = session, se_cleanups = [],
     se_trace = [Accepted client_fd]\<rparr>"

section \<open>What a session holds\<close>

text \<open>
  The meaning of a history: the descriptors, mappings and registrations held at its end; \<open>None\<close> when
  something is released that is not held, when memory is unmapped that the driver still has
  registered, or when the handler is told that a buffer is gone while the driver still has it.
\<close>

datatype shm_resource = ShmFd int | ShmMapping u64 u64 | ShmBuffer s32 u64

fun shm_apply :: "shm_event \<Rightarrow> shm_resource multiset \<Rightarrow> shm_resource multiset option" where
  "shm_apply (Accepted fd) M = Some (add_mset (ShmFd fd) M)"
| "shm_apply (Received fd) M = Some (add_mset (ShmFd fd) M)"
| "shm_apply (ShmClose fd) M = (if ShmFd fd \<in># M then Some (M - {#ShmFd fd#}) else None)"
| "shm_apply (ShmMmap a n fd w) M = (if ShmFd fd \<in># M then Some (add_mset (ShmMapping a n) M) else None)"
| "shm_apply (ShmMunmap a n) M =
     (if ShmMapping a n \<in># M \<and> (\<forall>r \<in># M. \<forall>i. r \<noteq> ShmBuffer i a) then Some (M - {#ShmMapping a n#}) else None)"
| "shm_apply (Registered i a n) M = (if ShmMapping a n \<in># M then Some (add_mset (ShmBuffer i a) M) else None)"
| "shm_apply (Unregistered i) M =
     (case filter_mset (\<lambda>r. \<exists>a. r = ShmBuffer i a) M of B \<Rightarrow> if B = {#} then None else Some (M - B))"
| "shm_apply (HandleReg i a n) M = (if ShmBuffer i a \<in># M then Some M else None)"
| "shm_apply (HandleUnreg i) M = (if \<exists>r \<in># M. \<exists>a. r = ShmBuffer i a then None else Some M)"
| "shm_apply (Reply fd r) M = (if ShmFd fd \<in># M then Some M else None)"
| "shm_apply (RegisterShm _ _ _) M = Some M"
| "shm_apply (UnregisterShm _ _ _) M = Some M"

fun shm_run :: "shm_event list \<Rightarrow> shm_resource multiset \<Rightarrow> shm_resource multiset option" where
  "shm_run [] M = Some M"
| "shm_run (e # es) M = (case shm_apply e M of Some M' \<Rightarrow> shm_run es M' | None \<Rightarrow> None)"

lemma shm_run_append:
  "shm_run (xs @ ys) M = (case shm_run xs M of Some M' \<Rightarrow> shm_run ys M' | None \<Rightarrow> None)"
  by (induction xs arbitrary: M) (auto split: option.splits)

text \<open>The holdings a session should have: descriptors by its program counter, memory by its object.\<close>

definition mem_of :: "shm_obj \<Rightarrow> shm_resource multiset" where
  "mem_of obj = (if so_base obj \<noteq> 0 then {#ShmMapping (so_base obj) (so_size obj)#} else {#}) +
     (if so_index obj \<noteq> - 1 then {#ShmBuffer (so_index obj) (so_base obj)#} else {#})"

fun memfd_of :: "shm_pc \<Rightarrow> int option" where
  "memfd_of (AwaitStatx fd) = Some fd"
| "memfd_of (AwaitRegisterShm fd) = Some fd"
| "memfd_of (AwaitHandleReg fd) = Some fd"
| "memfd_of (AwaitSend fd res) = Some fd"
| "memfd_of (AwaitRecv fd res) = Some fd"
| "memfd_of _ = None"

definition fds_of :: "int \<Rightarrow> shm_pc \<Rightarrow> shm_resource multiset" where
  "fds_of client_fd pc = (case pc of ShmDone _ \<Rightarrow> {#} | _ \<Rightarrow> {#ShmFd client_fd#}) +
     (case memfd_of pc of Some fd \<Rightarrow> {#ShmFd fd#} | None \<Rightarrow> {#})"

fun kept :: "cleanup_pc \<times> shm_obj \<Rightarrow> shm_resource multiset" where
  "kept (CleanupDone (Value _), obj) = {#}"
| "kept (_, obj) = mem_of obj"


definition fds_only :: "shm_resource multiset \<Rightarrow> bool" where
  "fds_only M \<longleftrightarrow> (\<forall>r \<in># M. \<exists>fd. r = ShmFd fd)"

lemma fds_only_simps [simp]:
  "fds_only {#}" "fds_only (add_mset r M) \<longleftrightarrow> (\<exists>fd. r = ShmFd fd) \<and> fds_only M"
  "fds_only (M + N) \<longleftrightarrow> fds_only M \<and> fds_only N" "fds_only (fds_of client_fd pc)"
  by (auto simp: fds_only_def fds_of_def split: shm_pc.splits option.splits)

fun received :: "shm_event list \<Rightarrow> int list" where
  "received [] = []"
| "received (Received fd # es) = fd # received es"
| "received (_ # es) = received es"

fun replies :: "shm_event list \<Rightarrow> s32 list" where
  "replies [] = []"
| "replies (Reply fd r # es) = r # replies es"
| "replies (_ # es) = replies es"

lemma received_append [simp]: "received (xs @ ys) = received xs @ received ys"
  by (induction xs rule: received.induct) auto

lemma replies_append [simp]: "replies (xs @ ys) = replies xs @ replies ys"
  by (induction xs rule: replies.induct) auto

lemma received_map [simp]: "received (map Received fds) = fds" and replies_map [simp]: "replies (map Received fds) = []"
  by (induction fds) auto

lemma shm_run_received: "shm_run (map Received fds) M = Some (image_mset ShmFd (mset fds) + M)"
  by (induction fds arbitrary: M) auto

lemma received_fd_in:
  assumes "\<forall>m \<in> set cmsgs. rights m \<longrightarrow> cm_fds m \<noteq> []"
  shows "if \<exists>m \<in> set cmsgs. rights m then received_fd fd cmsgs \<in> set (concat (map cm_fds (filter rights cmsgs)))
    else received_fd fd cmsgs = fd"
  using assms
proof (induction cmsgs arbitrary: fd)
  case (Cons m ms)
  then show ?case
    using Cons.IH [of "if rights m then hd (cm_fds m) else fd"] hd_in_set [of "cm_fds m"]
    by (auto split: if_splits)
qed simp

text \<open>The state of the session object at each suspension point.\<close>

definition session_object :: "shm_session \<Rightarrow> bool" where
  "session_object s \<longleftrightarrow>
     (let obj = se_obj s; fresh = (so_base obj = 0 \<and> so_index obj = - 1);
          full = (so_base obj \<noteq> 0 \<and> 0 \<le> so_index obj); n = length (se_cleanups s); rs = replies (se_trace s) in
      case se_pc s of
        ShmStart \<Rightarrow> fresh \<and> n = 0 \<and> rs = [] \<and> received (se_trace s) = []
      | AwaitRecvmsg \<Rightarrow> fresh \<and> n = 0 \<and> rs = [] \<and> received (se_trace s) = []
      | AwaitStatx _ \<Rightarrow> fresh \<and> n = 0 \<and> rs = []
      | AwaitRegisterShm _ \<Rightarrow> so_base obj \<noteq> 0 \<and> so_index obj = - 1 \<and> n = 0 \<and> rs = []
      | AwaitHandleReg _ \<Rightarrow> full \<and> n = 0 \<and> rs = []
      | AwaitSend _ res \<Rightarrow> rs = [res] \<and> (if res = 0 then full \<and> n = 0 else res < 0 \<and> n = 1)
      | AwaitRecv _ res \<Rightarrow> rs = [res] \<and> res = 0 \<and> full \<and> n = 0
      | ShmDone c \<Rightarrow> (fresh \<and> n = 0 \<and> rs = [] \<and> c \<noteq> Value ()) \<or>
          (n = 1 \<and> (rs = [0] \<or> (\<exists>r < 0. rs = [r]) \<and> c \<noteq> Value ()))
      | ShmDropped \<Rightarrow> fresh \<and> n = 0 \<and> rs = [])"

definition cleanup_ok :: "cleanup_pc \<times> shm_obj \<Rightarrow> bool" where
  "cleanup_ok = (\<lambda>(pc, obj). (so_index obj \<noteq> - 1 \<longrightarrow> so_base obj \<noteq> 0) \<and>
     (pc = AwaitUnregisterShm \<longrightarrow> so_index obj \<noteq> - 1))"

definition memory_of :: "shm_session \<Rightarrow> shm_resource multiset" where
  "memory_of s = (if se_cleanups s = [] then mem_of (se_obj s) else sum_list (map kept (se_cleanups s)))"

text \<open>
  The driver has registered the buffer and the handler was told about it, before the rest \<open>es\<close> of the
  history; and the same before a reply 0.
\<close>

definition registered_then :: "shm_event list \<Rightarrow> shm_event list \<Rightarrow> bool" where
  "registered_then tr es \<longleftrightarrow> (\<exists>before i a n. tr = before @ [Registered i a n, HandleReg i a n] @ es)"

definition reply_justified :: "shm_event list \<Rightarrow> bool" where
  "reply_justified tr \<longleftrightarrow> (\<exists>es. registered_then tr es \<and> 0 \<in> set (replies es))"

lemma registered_then_append: "registered_then tr es \<Longrightarrow> registered_then (tr @ es2) (es @ es2)"
  by (auto simp: registered_then_def)

lemma registered_append [simp]: "\<exists>es. registered_then tr es \<Longrightarrow> \<exists>es. registered_then (tr @ es2) es"
  using registered_then_append by blast

lemma registered_now [simp]: "\<exists>es. registered_then (tr @ [Registered i a n, HandleReg i a n]) es"
  by (auto simp: registered_then_def intro: exI [of _ "[]"])

lemma reply_justified_append [simp]: "reply_justified tr \<Longrightarrow> reply_justified (tr @ es2)"
  unfolding reply_justified_def using registered_then_append by fastforce

lemma reply_justified_now: "\<exists>es. registered_then tr es \<Longrightarrow> reply_justified (tr @ [Reply fd 0])"
  unfolding reply_justified_def using registered_then_append [of tr _ "[Reply fd 0]"] by fastforce

definition session_inv :: "shm_session \<Rightarrow> bool" where
  "session_inv s \<longleftrightarrow> session_object s \<and> list_all cleanup_ok (se_cleanups s) \<and>
     (0 \<in> set (replies (se_trace s)) \<longrightarrow> reply_justified (se_trace s)) \<and>
     ((\<exists>fd. se_pc s = AwaitHandleReg fd) \<longrightarrow> (\<exists>es. registered_then (se_trace s) es)) \<and>
     (\<exists>X. shm_run (se_trace s) {#} = Some (fds_of (se_client s) (se_pc s) + X + memory_of s) \<and>
        fds_only X \<and> size X = length (received (se_trace s)) - 1)"

lemma session_inv_new: "session_inv (new_session (Session control_fd dev_id flags) client_fd)"
  by (simp add: session_inv_def session_object_def new_session_def Session_def memory_of_def mem_of_def fds_of_def)

lemmas session_defs =
  session_inv_def session_object_def session_apply_def memory_of_def mem_of_def fds_of_def shm_run_append

lemma handle_result_neg:
  "c \<noteq> Value () \<Longrightarrow> (\<And>e. c = Error e \<Longrightarrow> errno_exn e) \<Longrightarrow> handle_result c < 0"
  by (cases c; cases "case c of Error e \<Rightarrow> e | _ \<Rightarrow> BadAlloc")
    (auto simp: handle_result_def errno_exn_def consts_simps)

text \<open>The end of \<^verbatim>\<open>handle\<close> hands the memory over to the clean-up task, or keeps it for the session.\<close>

lemma session_inv_handle_end:
  assumes "session_inv s" and "memfd_of (se_pc s) = Some fd" and "se_cleanups s = []" and "replies (se_trace s) = []"
    and "se_pc s = AwaitHandleReg fd \<or> c \<noteq> Value ()" and "case c of Error e \<Rightarrow> errno_exn e | _ \<Rightarrow> True"
    and "so_base obj = so_base (se_obj s)" and "so_index obj = so_index (se_obj s)"
    and "so_base obj = 0 \<or> so_size obj = so_size (se_obj s)" and "so_index obj \<noteq> - 1 \<longrightarrow> so_base obj \<noteq> 0"
    and "se_pc s = AwaitHandleReg fd \<longrightarrow> so_base obj \<noteq> 0 \<and> 0 \<le> so_index obj"
  shows "session_inv (session_apply s (handle_end (se_client s) fd obj c))"
proof -
  have pc: "fds_of (se_client s) (se_pc s) = {#ShmFd (se_client s), ShmFd fd#}"
    using assms(2) by (cases "se_pc s") (auto simp: fds_of_def)
  have mem: "mem_of (se_obj s) = mem_of obj" using assms(7-9) by (auto simp: mem_of_def)
  obtain X where X: "shm_run (se_trace s) {#} = Some (fds_of (se_client s) (se_pc s) + X + mem_of (se_obj s))"
    "fds_only X" "size X = length (received (se_trace s)) - 1"
    using assms(1,3) by (auto simp: session_inv_def memory_of_def)
  have neg: "c \<noteq> Value () \<Longrightarrow> handle_result c < 0"
    using handle_result_neg [of c] assms(6) by (auto split: outcome.splits)
  have zero: "handle_result (Value ()) = 0" by (simp add: handle_result_def)
  have reg: "c = Value () \<Longrightarrow> reply_justified (se_trace s @ [Reply (se_client s) 0])"
    using assms(1,5) by (auto simp: session_inv_def intro: reply_justified_now)
  have "shm_run (se_trace s @ [Reply (se_client s) (handle_result c)]) {#} =
      Some (fds_of (se_client s) (AwaitSend fd (handle_result c)) + X + mem_of obj)"
    using X(1) pc mem by (simp add: shm_run_append fds_of_def)
  then show ?thesis
    using X(2,3) assms(3-5,10,11) neg zero reg
    by (auto simp: session_inv_def session_object_def session_apply_def memory_of_def handle_end_def Let_def cleanup_ok_def)
qed

text \<open>The end of the session closes its descriptors; what is left is for the clean-up task.\<close>

lemma session_inv_session_end:
  assumes "session_inv s" and "memfd_of (se_pc s) = memfd" and "\<And>c. se_pc s \<noteq> ShmDone c" and "se_pc s \<noteq> ShmDropped"
    and "(case res of Some r \<Rightarrow> replies (se_trace s) = [r] \<and> (r = 0 \<longrightarrow> so_base (se_obj s) \<noteq> 0 \<and> se_cleanups s = []) \<and>
        (r \<noteq> 0 \<longrightarrow> r < 0 \<and> length (se_cleanups s) = 1 \<and> c \<noteq> Value ())
      | None \<Rightarrow> replies (se_trace s) = [] \<and> so_base (se_obj s) = 0 \<and> so_index (se_obj s) = - 1 \<and>
          se_cleanups s = [] \<and> c \<noteq> Value ())"
  shows "session_inv (session_apply s (session_end (se_client s) memfd res (se_obj s) c))"
proof -
  have pc: "fds_of (se_client s) (se_pc s) =
      add_mset (ShmFd (se_client s)) (case memfd of Some fd \<Rightarrow> {#ShmFd fd#} | None \<Rightarrow> {#})"
    using assms(2-4) by (cases "se_pc s") (auto simp: fds_of_def)
  obtain X where X: "shm_run (se_trace s) {#} = Some (fds_of (se_client s) (se_pc s) + X + memory_of s)"
    "fds_only X" "size X = length (received (se_trace s)) - 1"
    using assms(1) by (auto simp: session_inv_def)
  let ?evs = "(case memfd of Some fd \<Rightarrow> [ShmClose fd] | None \<Rightarrow> []) @ [ShmClose (se_client s)]"
  have run: "shm_run (se_trace s @ ?evs) {#} = Some (X + memory_of s)"
    using X(1) pc by (auto simp: shm_run_append split: option.splits)
  have [simp]: "received ?evs = []" "replies ?evs = []" by (auto split: option.splits)
  show ?thesis
    using run X(2,3) assms(1,5)
    by (auto simp: session_inv_def session_object_def session_apply_def memory_of_def session_end_def fds_of_def
        cleanup_ok_def split: option.splits)
qed

lemma session_inv_received:
  assumes "session_inv s" and "se_pc s = AwaitRecvmsg" and "shm_answer (RecvmsgDone (Value cmsgs))"
    and "got = concat (map cm_fds (filter rights cmsgs))"
  shows "received_fd (- 1) cmsgs = - 1 \<Longrightarrow> got = []"
    and "received_fd (- 1) cmsgs \<noteq> - 1 \<Longrightarrow>
      session_inv (session_apply s (AwaitStatx (received_fd (- 1) cmsgs), se_obj s, False, map Received got))"
proof -
  let ?fd = "received_fd (- 1) cmsgs"
  have in_got: "if \<exists>m \<in> set cmsgs. rights m then ?fd \<in> set got else ?fd = - 1"
    using received_fd_in [of cmsgs "- 1"] assms(3) unfolding assms(4) by simp
  have nonneg: "\<forall>fd \<in> set got. 0 \<le> fd" using assms(3,4) by auto
  show "got = []" if "?fd = - 1"
  proof (rule ccontr)
    assume "got \<noteq> []"
    then have "\<exists>m \<in> set cmsgs. rights m" using assms(4) by auto
    with in_got nonneg that show False by auto
  qed
  assume "?fd \<noteq> - 1"
  with in_got have "?fd \<in> set got" by (auto split: if_splits)
  then obtain Y where Y: "mset got = add_mset ?fd Y" by (metis multi_member_split set_mset_mset)
  then have Y': "length got = Suc (size Y)" by (metis size_add_mset size_mset)
  obtain X where X: "shm_run (se_trace s) {#} = Some ({#ShmFd (se_client s)#} + X + mem_of (se_obj s))"
    "fds_only X" "X = {#}"
    using assms(1,2) by (auto simp: session_inv_def session_object_def memory_of_def fds_of_def Let_def)
  have "shm_run (se_trace s @ map Received got) {#} =
      Some (fds_of (se_client s) (AwaitStatx ?fd) + image_mset ShmFd Y + mem_of (se_obj s))"
    using X Y by (simp add: shm_run_append shm_run_received fds_of_def)
  moreover have "fds_only (image_mset ShmFd Y)" by (auto simp: fds_only_def)
  ultimately show "session_inv (session_apply s (AwaitStatx ?fd, se_obj s, False, map Received got))"
    using assms(1,2) Y' by (auto simp: session_inv_def session_object_def session_apply_def memory_of_def Let_def)
qed

lemma session_inv_object: "session_inv s \<Longrightarrow> session_object s"
  by (simp add: session_inv_def)

text \<open>One lemma for each suspension point of the coroutine.\<close>

lemma session_inv_recvmsg_done:
  assumes "session_inv s" and p: "se_pc s = AwaitRecvmsg" and "shm_answer (RecvmsgDone c)"
    and r: "shm_resume (se_client s) (se_obj s) AwaitRecvmsg (RecvmsgDone c) = Some r"
  shows "session_inv (session_apply s r)"
proof (cases c)
  case (Value cmsgs)
  note got = session_inv_received [OF assms(1) p assms(3) [unfolded Value] refl]
  show ?thesis
  proof (cases "received_fd (- 1) cmsgs = - 1")
    case True
    then have "r = session_end (se_client s) None None (se_obj s)
        (Error (RuntimeError ''client did not pass a file descriptor''))"
      using r Value got(1) by (auto simp: Let_def session_end_def)
    with p session_inv_object [OF assms(1)] session_inv_session_end [OF assms(1), where memfd = None and res = None]
    show ?thesis by (simp add: session_object_def Let_def)
  next
    case False
    with r Value got(2) show ?thesis by (simp add: Let_def)
  qed
qed (use r p session_inv_object [OF assms(1)] session_inv_session_end [OF assms(1), where memfd = None and res = None]
    in \<open>auto simp: session_object_def Let_def\<close>)

lemma session_inv_statx_done:
  assumes "session_inv s" and p: "se_pc s = AwaitStatx memfd" and "shm_answer (StatxDone c mapped)"
    and r: "shm_resume (se_client s) (se_obj s) (AwaitStatx memfd) (StatxDone c mapped) = Some r"
  shows "session_inv (session_apply s r)"
proof (cases "\<exists>n a. c = Value n \<and> mapped = Inr a")
  case True
  then obtain n a where na: "c = Value n" "mapped = Inr a" by blast
  with r p assms(1,3) session_inv_object [OF assms(1)] show ?thesis
    by (auto simp: handle_mapped_def session_defs Let_def)
next
  case False
  then show ?thesis
    using r p session_inv_object [OF assms(1)] assms(3) session_inv_handle_end [OF assms(1), of memfd]
    by (cases c; cases mapped) (auto simp: handle_mapped_def session_object_def Let_def)
qed

lemma session_inv_register_done:
  assumes "session_inv s" and p: "se_pc s = AwaitRegisterShm memfd" and "shm_answer (RegisterDone c)"
    and r: "shm_resume (se_client s) (se_obj s) (AwaitRegisterShm memfd) (RegisterDone c) = Some r"
  shows "session_inv (session_apply s r)"
proof (cases c)
  case (Value i)
  with r p assms(1,3) session_inv_object [OF assms(1)] show ?thesis
    by (auto simp: session_defs Let_def)
qed (use r p session_inv_object [OF assms(1)] assms(3) session_inv_handle_end [OF assms(1), of memfd]
    in \<open>auto simp: session_object_def Let_def\<close>)

lemma session_inv_handler_done:
  assumes "session_inv s" and p: "se_pc s = AwaitHandleReg memfd" and "shm_answer (HandleRegDone c)"
    and r: "shm_resume (se_client s) (se_obj s) (AwaitHandleReg memfd) (HandleRegDone c) = Some r"
  shows "session_inv (session_apply s r)"
proof -
  have "case handler_outcome c of Error e \<Rightarrow> errno_exn e | _ \<Rightarrow> True"
    using assms(3) by (cases c rule: handler_outcome.cases) (auto simp: errno_exn_def)
  then show ?thesis
    using r p session_inv_object [OF assms(1)] session_inv_handle_end [OF assms(1), of memfd "handler_outcome c" "se_obj s"]
    by (auto simp: session_object_def Let_def)
qed

lemma session_inv_send_done:
  assumes "session_inv s" and p: "se_pc s = AwaitSend memfd res"
    and r: "shm_resume (se_client s) (se_obj s) (AwaitSend memfd res) (SendDone c) = Some r"
  shows "session_inv (session_apply s r)"
proof (cases "\<exists>n. c = Value n \<and> \<not> res < 0")
  case True
  with r p session_inv_object [OF assms(1)] assms(1) show ?thesis
    by (auto simp: session_defs Let_def split: if_splits)
next
  case False
  with r p session_inv_object [OF assms(1)]
    session_inv_session_end [OF assms(1), where memfd = "Some memfd" and res = "Some res"]
  show ?thesis by (cases c) (auto simp: session_object_def Let_def split: if_splits)
qed

lemma session_inv_recv_done:
  assumes "session_inv s" and p: "se_pc s = AwaitRecv memfd res"
    and r: "shm_resume (se_client s) (se_obj s) (AwaitRecv memfd res) (RecvDone c) = Some r"
  shows "session_inv (session_apply s r)"
  using r p session_inv_object [OF assms(1)]
    session_inv_session_end [OF assms(1), where memfd = "Some memfd" and res = "Some res"]
  by (cases c) (auto simp: session_object_def Let_def split: if_splits)

lemma session_inv_resume:
  assumes "session_inv s" and r: "shm_resume (se_client s) (se_obj s) (se_pc s) c = Some r" and "shm_answer c"
  shows "session_inv (session_apply s r)"
proof (cases "(se_client s, se_obj s, se_pc s, c)" rule: shm_resume.cases)
  case (1 cl obj c1)
  with assms show ?thesis by (auto intro: session_inv_recvmsg_done simp del: shm_resume.simps)
next
  case (2 cl obj memfd c2 mapped)
  with assms show ?thesis by (auto intro: session_inv_statx_done simp del: shm_resume.simps)
next
  case (3 cl obj memfd c3)
  with assms show ?thesis by (auto intro: session_inv_register_done simp del: shm_resume.simps)
next
  case (4 cl obj memfd c4)
  with assms show ?thesis by (auto intro: session_inv_handler_done simp del: shm_resume.simps)
next
  case (5 cl obj memfd res c5)
  with assms show ?thesis by (auto intro: session_inv_send_done simp del: shm_resume.simps)
next
  case (6 cl obj memfd res c6)
  with assms show ?thesis by (auto intro: session_inv_recv_done simp del: shm_resume.simps)
qed (use r in auto)

lemma session_inv_one_cleanup:
  assumes "session_inv s" and "i < length (se_cleanups s)" and "se_cleanups s ! i = c"
  shows "i = 0 \<and> se_cleanups s = [c]"
proof -
  have "length (se_cleanups s) \<le> 1"
    using assms(1) by (auto simp: session_inv_def session_object_def Let_def split: shm_pc.splits if_splits)
  with assms(2,3) show ?thesis by (cases "se_cleanups s") auto
qed

lemma session_inv_cleanup:
  assumes "session_inv s" and "se_cleanups s = [(pc, self)]" and "cleanup_ok (pc', self)"
    and "received evs = []" and "replies evs = []"
    and "\<And>M. fds_only M \<Longrightarrow> shm_run evs (M + kept (pc, self)) = Some (M + kept (pc', self))"
  shows "session_inv (cleanup_apply s 0 (pc', evs))"
proof -
  obtain X where X: "shm_run (se_trace s) {#} = Some (fds_of (se_client s) (se_pc s) + X + kept (pc, self))"
    "fds_only X" "size X = length (received (se_trace s)) - 1"
    using assms(1,2) by (auto simp: session_inv_def memory_of_def)
  then have "shm_run (se_trace s @ evs) {#} = Some (fds_of (se_client s) (se_pc s) + X + kept (pc', self))"
    using assms(6) [of "fds_of (se_client s) (se_pc s) + X"] by (simp add: shm_run_append)
  with X(2,3) assms(1-5) show ?thesis
    by (auto simp: session_inv_def session_object_def cleanup_apply_def memory_of_def Let_def split: shm_pc.splits)
qed

lemma unmap_run:
  "fds_only M \<Longrightarrow> so_index self = - 1 \<Longrightarrow> shm_run (snd (cleanup_unmap self)) (M + mem_of self) = Some M"
  by (auto simp: cleanup_unmap_def mem_of_def fds_only_def)

lemma fds_only_no_buffer:
  assumes "fds_only M"
  shows "filter_mset (\<lambda>r. \<exists>a. r = ShmBuffer i a) M = {#}" and "ShmBuffer i a \<notin># M"
proof -
  have "set_mset (filter_mset (\<lambda>r. \<exists>a. r = ShmBuffer i a) M) = {}" using assms by (auto simp: fds_only_def)
  then show "filter_mset (\<lambda>r. \<exists>a. r = ShmBuffer i a) M = {#}" unfolding set_mset_eq_empty_iff .
  show "ShmBuffer i a \<notin># M" using assms by (auto simp: fds_only_def)
qed

lemma unregister_run:
  assumes "fds_only M" and "so_index self \<noteq> - 1" and "so_base self \<noteq> 0"
  shows "shm_run (snd (cleanup_resume self None)) (M + mem_of self) = Some M"
  using assms fds_only_no_buffer(2) [OF assms(1)]
  by (auto simp: cleanup_resume_def cleanup_unmap_def mem_of_def fds_only_no_buffer(1))

lemma session_inv_step: "session_step stopping s s' \<Longrightarrow> session_inv s \<Longrightarrow> session_inv s'"
proof (induction rule: session_step.induct)
  case (begin_session s)
  then show ?case by (auto simp: session_defs Let_def)
next
  case (resume s c r)
  then show ?case by (blast intro: session_inv_resume)
next
  case (begin_cleanup i s self)
  then have i: "i = 0" "se_cleanups s = [(CleanupReady, self)]" using session_inv_one_cleanup by blast+
  with begin_cleanup have ok: "cleanup_ok (CleanupReady, self)" by (auto simp: session_inv_def)
  show ?case
  proof (cases "so_index self = - 1")
    case True
    with i ok unmap_run [of _ self] session_inv_cleanup [OF \<open>session_inv s\<close> i(2), of "CleanupDone (Value ())" "snd (cleanup_unmap self)"]
    show ?thesis by (auto simp: cleanup_def cleanup_unmap_def cleanup_ok_def)
  next
    case False
    with i ok session_inv_cleanup [OF \<open>session_inv s\<close> i(2), of AwaitUnregisterShm]
    show ?thesis by (auto simp: cleanup_def cleanup_ok_def)
  qed
next
  case (unregistered i s self c)
  then have i: "i = 0" "se_cleanups s = [(AwaitUnregisterShm, self)]" using session_inv_one_cleanup by blast+
  with unregistered have ok: "so_index self \<noteq> - 1" "so_base self \<noteq> 0" by (auto simp: session_inv_def cleanup_ok_def)
  show ?case
  proof (cases c)
    case None
    have "cleanup_resume self c = (CleanupDone (Value ()), snd (cleanup_resume self None))"
      by (simp add: None cleanup_resume_def cleanup_unmap_def)
    with i ok unregister_run [of _ self] session_inv_cleanup [OF \<open>session_inv s\<close> i(2), of "CleanupDone (Value ())" "snd (cleanup_resume self None)"]
    show ?thesis by (simp add: cleanup_ok_def cleanup_resume_def cleanup_unmap_def)
  next
    case (Some e)
    with i ok session_inv_cleanup [OF \<open>session_inv s\<close> i(2), of "CleanupDone (Error e)" "[]"]
    show ?thesis by (simp add: cleanup_ok_def cleanup_resume_def)
  qed
next
  case (drop_session s)
  then show ?case by (auto simp: session_defs Let_def)
next
  case (drop_cleanup i s self)
  then have i: "i = 0" "se_cleanups s = [(CleanupReady, self)]" using session_inv_one_cleanup by blast+
  with drop_cleanup have "cleanup_ok (CleanupReady, self)" by (auto simp: session_inv_def)
  with i session_inv_cleanup [OF \<open>session_inv s\<close> i(2), of "CleanupDone Stopped" "[]"]
  show ?case by (auto simp: cleanup_ok_def)
qed

interpretation session: transition_system
  "\<lambda>s. \<exists>control_fd dev_id flags client_fd. s = new_session (Session control_fd dev_id flags) client_fd"
  "session_step stopping" session_inv for stopping
  by unfold_locales (auto intro: session_inv_new session_inv_step)

text \<open>
  Whatever a client, the driver, the handler and the kernel do, a session never closes a
  descriptor twice, never unmaps or unregisters anything it does not hold, never unmaps memory
  while the driver has it registered and never tells the handler that a buffer is gone before the
  driver has given it up.
\<close>

theorem session_never_releases_twice:
  assumes "(session_step stopping)\<^sup>*\<^sup>* (new_session (Session control_fd dev_id flags) client_fd) s"
  shows "\<exists>M. shm_run (se_trace s) {#} = Some M"
  using session.inv_reachable [OF _ assms] by (auto simp: session_inv_def)

definition session_over :: "shm_session \<Rightarrow> bool" where
  "session_over s \<longleftrightarrow> (\<exists>c. se_pc s = ShmDone c) \<and> list_all (\<lambda>(pc, _). \<exists>c. pc = CleanupDone c) (se_cleanups s)"

lemma session_over_holds:
  assumes "session_inv s" and "session_over s" and "list_all (\<lambda>(pc, _). pc = CleanupDone (Value ())) (se_cleanups s)"
  shows "\<exists>M. shm_run (se_trace s) {#} = Some M \<and> fds_only M \<and> size M = length (received (se_trace s)) - 1"
proof -
  have "memory_of s = {#}"
  proof (cases "se_cleanups s = []")
    case True
    with assms(1,2) show ?thesis
      by (auto simp: session_inv_def session_object_def session_over_def memory_of_def mem_of_def Let_def)
  next
    case False
    then have "0 < length (se_cleanups s)" by simp
    from session_inv_one_cleanup [OF assms(1) this refl] obtain c where c: "se_cleanups s = [c]" by blast
    with assms(3) show ?thesis by (cases c) (simp add: memory_of_def)
  qed
  moreover have "fds_of (se_client s) (se_pc s) = {#}"
    using assms(2) by (auto simp: session_over_def fds_of_def)
  ultimately show ?thesis using assms(1) by (auto simp: session_inv_def)
qed

text \<open>
  C10. A session that is over has given back everything, provided that no clean-up failed or was
  dropped and that the client passed at most one descriptor: the connection and the descriptor
  are closed, the buffer is unregistered and unmapped. Of a client that passed more, exactly the
  surplus descriptors stay open for the life of the process.
\<close>

theorem session_releases_everything:
  assumes "(session_step stopping)\<^sup>*\<^sup>* (new_session (Session control_fd dev_id flags) client_fd) s"
    and "session_over s" and "list_all (\<lambda>(pc, _). pc = CleanupDone (Value ())) (se_cleanups s)"
  shows "\<exists>M. shm_run (se_trace s) {#} = Some M \<and> fds_only M \<and> size M = length (received (se_trace s)) - 1"
  using session.inv_reachable [OF _ assms(1)] session_over_holds assms(2,3) by blast

text \<open>
  C19. A client gets at most one reply, which is 0 or a negative errno; it is 0 only if before it the
  driver has registered the buffer and the handler was then told about this buffer, with the index,
  address and size the driver registered, and a session that ends normally has sent this reply.
\<close>

theorem session_replies_once:
  assumes "(session_step stopping)\<^sup>*\<^sup>* (new_session (Session control_fd dev_id flags) client_fd) s"
  shows "length (replies (se_trace s)) \<le> 1 \<and> list_all (\<lambda>r. r \<le> 0) (replies (se_trace s)) \<and>
    (0 \<in> set (replies (se_trace s)) \<longrightarrow> (\<exists>before i a n after.
       se_trace s = before @ [Registered i a n, HandleReg i a n] @ after \<and> 0 \<in> set (replies after))) \<and>
    (se_pc s = ShmDone (Value ()) \<longrightarrow> replies (se_trace s) = [0])"
proof -
  have inv: "session_inv s" using session.inv_reachable [OF _ assms] by auto
  then have "length (replies (se_trace s)) \<le> 1 \<and> list_all (\<lambda>r. r \<le> 0) (replies (se_trace s)) \<and>
    (se_pc s = ShmDone (Value ()) \<longrightarrow> replies (se_trace s) = [0])"
    by (auto simp: session_inv_def session_object_def Let_def split: shm_pc.splits if_splits)
  moreover have "\<exists>before i a n after. se_trace s = before @ [Registered i a n, HandleReg i a n] @ after \<and> 0 \<in> set (replies after)"
    if "0 \<in> set (replies (se_trace s))"
    using inv that unfolding session_inv_def reply_justified_def registered_then_def by blast
  ultimately show ?thesis by blast
qed

subsection \<open>Sample sessions\<close>

text \<open>Running a session on a list of completions, and then its clean-up.\<close>

fun session_exec :: "shm_session \<Rightarrow> shm_completion list \<Rightarrow> shm_session option" where
  "session_exec s [] = Some s"
| "session_exec s (c # cs) =
     (case shm_resume (se_client s) (se_obj s) (se_pc s) c of
        Some r \<Rightarrow> session_exec (session_apply s r) cs
      | None \<Rightarrow> None)"

lemma session_exec_reachable:
  "session_exec s cs = Some s' \<Longrightarrow> list_all shm_answer cs \<Longrightarrow> (session_step stopping)\<^sup>*\<^sup>* s s'"
proof (induction s cs rule: session_exec.induct)
  case (2 s c cs)
  then obtain r where r: "shm_resume (se_client s) (se_obj s) (se_pc s) c = Some r" by (auto split: option.splits)
  with 2 have "(session_step stopping)\<^sup>*\<^sup>* (session_apply s r) s'" by simp
  with session_step.resume [OF r] 2 show ?case by (auto intro: converse_rtranclp_into_rtranclp)
qed simp

text \<open>A client that passes the given descriptors, is registered, and disconnects.\<close>

definition sample_client :: "int list \<Rightarrow> shm_session" where
  "sample_client fds = (case session_exec ((new_session (Session 3 0 0) 7)\<lparr>se_pc := AwaitRecvmsg\<rparr>)
      [RecvmsgDone (Value [\<lparr>cm_level = 1, cm_type = 1, cm_fds = fds\<rparr>]), StatxDone (Value 4096) (Inr 65536),
       RegisterDone (Value 5), HandleRegDone (Value ()), SendDone (Value 4), RecvDone (Value 0)] of Some s \<Rightarrow> s)"

definition sample_over :: "int list \<Rightarrow> shm_session" where
  "sample_over fds =
     (let s1 = sample_client fds; s2 = cleanup_apply s1 0 (cleanup (se_obj s1))
      in cleanup_apply s2 0 (cleanup_resume (se_obj s1) None))"

lemmas sample_session_defs =
  new_session_def Session_def rights_def consts_simps handle_mapped_def handle_end_def handle_result_def
  session_end_def session_apply_def Let_def

lemma sample_client_exec:
  assumes "fds \<noteq> []" and "\<forall>fd \<in> set fds. 0 \<le> fd"
  shows "(session_step stopping)\<^sup>*\<^sup>* (new_session (Session 3 0 0) 7) (sample_client fds)"
    and "se_cleanups (sample_client fds) = [(CleanupReady, se_obj (sample_client fds))]"
    and "so_index (se_obj (sample_client fds)) = 5"
    and "se_pc (sample_client fds) = ShmDone (Value ())"
    and "received (se_trace (sample_client fds)) = fds" and "replies (se_trace (sample_client fds)) = [0]"
proof -
  let ?s = "(new_session (Session 3 0 0) 7)\<lparr>se_pc := AwaitRecvmsg\<rparr>"
  let ?cs = "[RecvmsgDone (Value [\<lparr>cm_level = 1, cm_type = 1, cm_fds = fds\<rparr>]), StatxDone (Value 4096) (Inr 65536),
       RegisterDone (Value 5), HandleRegDone (Value ()), SendDone (Value 4), RecvDone (Value 0)]"
  have fd: "hd fds \<noteq> - 1" using assms by (cases fds) auto
  then have e: "session_exec ?s ?cs = Some (sample_client fds)"
    by (simp add: sample_client_def sample_session_defs)
  have "(session_step stopping)\<^sup>*\<^sup>* ?s (sample_client fds)"
    using assms by (intro session_exec_reachable [OF e]) auto
  moreover have "session_step stopping (new_session (Session 3 0 0) 7) ?s"
    by (rule session_step.begin_session) (simp add: new_session_def)
  ultimately show "(session_step stopping)\<^sup>*\<^sup>* (new_session (Session 3 0 0) 7) (sample_client fds)"
    by (blast intro: converse_rtranclp_into_rtranclp)
  show "se_cleanups (sample_client fds) = [(CleanupReady, se_obj (sample_client fds))]"
    "so_index (se_obj (sample_client fds)) = 5" "se_pc (sample_client fds) = ShmDone (Value ())"
    "received (se_trace (sample_client fds)) = fds" "replies (se_trace (sample_client fds)) = [0]"
    using fd by (simp_all add: sample_client_def sample_session_defs)
qed

lemma sample_over_reachable:
  assumes "fds \<noteq> []" and "\<forall>fd \<in> set fds. 0 \<le> fd"
  shows "(session_step stopping)\<^sup>*\<^sup>* (new_session (Session 3 0 0) 7) (sample_over fds)"
    and "se_cleanups (sample_over fds) = [(CleanupDone (Value ()), se_obj (sample_client fds))]"
    and "se_pc (sample_over fds) = ShmDone (Value ())"
    and "received (se_trace (sample_over fds)) = fds"
proof -
  note c = sample_client_exec [OF assms]
  let ?s1 = "sample_client fds"
  let ?s2 = "cleanup_apply ?s1 0 (cleanup (se_obj ?s1))"
  have 1: "session_step stopping ?s1 ?s2" using c(2) by (intro session_step.begin_cleanup) simp_all
  have s2: "se_cleanups ?s2 = [(AwaitUnregisterShm, se_obj ?s1)]"
    using c(2,3) by (simp add: cleanup_apply_def cleanup_def)
  then have 2: "session_step stopping ?s2 (sample_over fds)"
    unfolding sample_over_def Let_def by (intro session_step.unregistered) simp_all
  from c(1) 1 2 show "(session_step stopping)\<^sup>*\<^sup>* (new_session (Session 3 0 0) 7) (sample_over fds)"
    by (meson rtranclp.rtrancl_into_rtrancl)
  show "se_cleanups (sample_over fds) = [(CleanupDone (Value ()), se_obj ?s1)]"
    "se_pc (sample_over fds) = ShmDone (Value ())" "received (se_trace (sample_over fds)) = fds"
    using c s2 by (simp_all add: sample_over_def Let_def cleanup_apply_def cleanup_resume_def cleanup_unmap_def cleanup_def)
qed

theorem session_never_releases_twice_witness:
  "\<exists>M. shm_run (se_trace (sample_over [8])) {#} = Some M"
  by (rule session_never_releases_twice [OF sample_over_reachable(1)]) simp_all

theorem session_releases_everything_witness:
  "(\<exists>M. shm_run (se_trace (sample_over [8])) {#} = Some M \<and> M = {#}) \<and>
   (\<exists>M. shm_run (se_trace (sample_over [8, 9])) {#} = Some M \<and> size M = 1)"
proof -
  have o: "session_over (sample_over fds)" "list_all (\<lambda>(pc, _). pc = CleanupDone (Value ())) (se_cleanups (sample_over fds))"
    if "fds \<noteq> []" "\<forall>fd \<in> set fds. 0 \<le> fd" for fds
    using sample_over_reachable [OF that] by (simp_all add: session_over_def)
  have r: "received (se_trace (sample_over fds)) = fds" if "fds \<noteq> []" "\<forall>fd \<in> set fds. 0 \<le> fd" for fds
    using sample_over_reachable(4) [OF that] .
  have "\<exists>M. shm_run (se_trace (sample_over [8])) {#} = Some M \<and> M = {#}"
    using session_releases_everything [OF sample_over_reachable(1) o, of "[8]"] r [of "[8]"] by auto
  moreover have "\<exists>M. shm_run (se_trace (sample_over [8, 9])) {#} = Some M \<and> size M = 1"
    using session_releases_everything [OF sample_over_reachable(1) o, of "[8, 9]"] r [of "[8, 9]"] by auto
  ultimately show ?thesis by blast
qed

theorem session_replies_once_witness:
  "replies (se_trace (sample_client [8])) = [0] \<and>
   (\<exists>before i a n after. se_trace (sample_client [8]) = before @ [Registered i a n, HandleReg i a n] @ after \<and> 0 \<in> set (replies after))"
  using session_replies_once [OF sample_client_exec(1), of "[8]"] sample_client_exec(6) [of "[8]"] by simp

section \<open>The server\<close>

text \<open>
  \<^verbatim>\<open>shm_server\<close> accepts clients for ever and spawns a session for each; an error of the accept
  ends it and asks everything to stop, as does a stop request from outside.
\<close>

datatype accept_pc = Accepting | AcceptDone "(exn, unit) outcome"

record shm_server =
  sv_accept :: accept_pc
  sv_sessions :: "shm_session list"
  sv_stopping :: bool

inductive server_step :: "shm_obj \<Rightarrow> shm_server \<Rightarrow> shm_server \<Rightarrow> bool" for session where
  accepted: "sv_accept v = Accepting \<Longrightarrow>
    server_step session v (v\<lparr>sv_sessions := sv_sessions v @ [new_session session client_fd]\<rparr>)"
| accept_failed: "sv_accept v = Accepting \<Longrightarrow>
    server_step session v (v\<lparr>sv_accept := AcceptDone (Error (SystemError ec '''')), sv_stopping := True\<rparr>)"
| accept_stopped: "sv_accept v = Accepting \<Longrightarrow> sv_stopping v \<Longrightarrow>
    server_step session v (v\<lparr>sv_accept := AcceptDone Stopped\<rparr>)"
| stop_request: "server_step session v (v\<lparr>sv_stopping := True\<rparr>)"
| session_steps: "i < length (sv_sessions v) \<Longrightarrow> session_step (sv_stopping v) (sv_sessions v ! i) s' \<Longrightarrow>
    server_step session v (v\<lparr>sv_sessions := (sv_sessions v)[i := s']\<rparr>)"

definition new_server :: shm_server where
  "new_server = \<lparr>sv_accept = Accepting, sv_sessions = [], sv_stopping = False\<rparr>"

text \<open>\<^verbatim>\<open>scope.join()\<close> completes when nothing is left, and then the error of the accept is rethrown.\<close>

definition server_joined :: "shm_server \<Rightarrow> bool" where
  "server_joined v \<longleftrightarrow> sv_accept v \<noteq> Accepting \<and>
     list_all (\<lambda>s. session_over s \<or> se_pc s = ShmDropped) (sv_sessions v)"

definition server_outcome :: "shm_server \<Rightarrow> (exn, unit) outcome" where
  "server_outcome v = (case sv_accept v of AcceptDone (Error e) \<Rightarrow> Error e | _ \<Rightarrow> Value ())"

definition server_inv :: "shm_server \<Rightarrow> bool" where
  "server_inv v \<longleftrightarrow> list_all session_inv (sv_sessions v) \<and>
     (\<not> sv_stopping v \<longrightarrow> sv_accept v = Accepting \<and>
       list_all (\<lambda>s. se_pc s \<noteq> ShmDropped \<and> list_all (\<lambda>(pc, _). pc \<noteq> CleanupDone Stopped) (se_cleanups s)) (sv_sessions v))"

lemma list_all_update: "list_all P xs \<Longrightarrow> P x \<Longrightarrow> list_all P (xs[i := x])"
  by (auto simp: list_all_iff dest!: set_update_subset_insert [THEN subsetD])

lemma not_dropped:
  assumes "session_step False s s'" and "se_pc s \<noteq> ShmDropped"
    and "list_all (\<lambda>(pc, _). pc \<noteq> CleanupDone Stopped) (se_cleanups s)"
  shows "se_pc s' \<noteq> ShmDropped \<and> list_all (\<lambda>(pc, _). pc \<noteq> CleanupDone Stopped) (se_cleanups s')"
  using assms
proof (induction rule: session_step.induct)
  case (resume s c r)
  have "fst r \<noteq> ShmDropped"
    using resume(1) by (cases "(se_client s, se_obj s, se_pc s, c)" rule: shm_resume.cases)
      (auto simp: session_end_def handle_end_def handle_mapped_def Let_def split: outcome.splits sum.splits if_splits)
  with resume show ?case by (cases r) (auto simp: session_apply_def)
next
  case (begin_cleanup i s self)
  have "fst (cleanup self) \<noteq> CleanupDone Stopped" by (simp add: cleanup_def cleanup_unmap_def)
  with begin_cleanup show ?case by (cases "cleanup self") (simp add: cleanup_apply_def list_all_update)
next
  case (unregistered i s self c)
  have "fst (cleanup_resume self c) \<noteq> CleanupDone Stopped"
    by (simp add: cleanup_resume_def cleanup_unmap_def split: option.splits)
  with unregistered show ?case by (cases "cleanup_resume self c") (simp add: cleanup_apply_def list_all_update)
qed auto

lemma server_inv_step:
  assumes "server_step session v v'" and "session = Session control_fd dev_id flags" and "server_inv v"
  shows "server_inv v'"
  using assms(1,3)
proof (induction rule: server_step.induct)
  case (accepted v client_fd)
  then show ?case
    using session_inv_new [of control_fd dev_id flags client_fd] assms(2)
    by (auto simp: server_inv_def new_session_def)
next
  case (session_steps i v s')
  then have "session_inv s'"
    using session_inv_step by (auto simp: server_inv_def list_all_length)
  moreover have "se_pc s' \<noteq> ShmDropped \<and> list_all (\<lambda>(pc, _). pc \<noteq> CleanupDone Stopped) (se_cleanups s')"
    if "\<not> sv_stopping v"
    using session_steps that not_dropped [of "sv_sessions v ! i" s'] by (auto simp: server_inv_def list_all_length)
  ultimately show ?case
    using session_steps(3) by (simp add: server_inv_def list_all_update)
qed (auto simp: server_inv_def)

interpretation server: transition_system "\<lambda>v. v = new_server" "server_step (Session control_fd dev_id flags)" server_inv
  for control_fd dev_id flags
  by unfold_locales (simp add: server_inv_def new_server_def, blast intro: server_inv_step)

text \<open>
  C18. The service isolates its clients and cleans up after all of them: whatever the interleaving,
  no session releases anything twice; as long as the service has not been asked to stop, a session
  that is over and whose unregistering did not fail holds nothing but surplus descriptors of
  its client; and the service ends only after it was asked to stop or the accept failed, when
  every session is over or was never started.
\<close>

theorem server_isolates_clients:
  assumes "(server_step (Session control_fd dev_id flags))\<^sup>*\<^sup>* new_server v" and "s \<in> set (sv_sessions v)"
  shows "\<exists>M. shm_run (se_trace s) {#} = Some M \<and>
    (\<not> sv_stopping v \<and> session_over s \<and> list_all (\<lambda>(pc, _). \<forall>e. pc \<noteq> CleanupDone (Error e)) (se_cleanups s) \<longrightarrow>
       fds_only M \<and> size M = length (received (se_trace s)) - 1) \<and>
    (server_joined v \<longrightarrow> sv_stopping v \<and> (session_over s \<or> se_pc s = ShmDropped))"
proof -
  have v: "server_inv v" using server.inv_reachable [OF refl assms(1)] .
  with assms(2) have inv: "session_inv s" by (auto simp: server_inv_def list_all_iff)
  then obtain M where M: "shm_run (se_trace s) {#} = Some M" by (auto simp: session_inv_def)
  have "fds_only M \<and> size M = length (received (se_trace s)) - 1"
    if over: "\<not> sv_stopping v" "session_over s" "list_all (\<lambda>(pc, _). \<forall>e. pc \<noteq> CleanupDone (Error e)) (se_cleanups s)"
  proof -
    have "list_all (\<lambda>(pc, _). pc = CleanupDone (Value ())) (se_cleanups s)"
      unfolding list_all_iff
    proof clarify
      fix pc obj assume p: "(pc, obj) \<in> set (se_cleanups s)"
      then obtain c where c: "pc = CleanupDone c" using over(2) by (auto simp: session_over_def list_all_iff)
      with p over v assms(2) show "pc = CleanupDone (Value ())"
        by (cases c) (auto simp: server_inv_def list_all_iff)
    qed
    from session_over_holds [OF inv over(2) this] M show ?thesis by auto
  qed
  moreover have "server_joined v \<Longrightarrow> sv_stopping v \<and> (session_over s \<or> se_pc s = ShmDropped)"
    using v assms(2) by (auto simp: server_joined_def server_inv_def list_all_iff)
  ultimately show ?thesis using M by blast
qed

theorem server_isolates_clients_witness:
  "\<exists>M. shm_run (se_trace (new_session (Session 3 0 0) 7)) {#} = Some M"
proof -
  have "server_step (Session 3 0 0) new_server (new_server\<lparr>sv_sessions := [new_session (Session 3 0 0) 7]\<rparr>)"
    using server_step.accepted [of new_server "Session 3 0 0" 7] by (simp add: new_server_def)
  then have "(server_step (Session 3 0 0))\<^sup>*\<^sup>* new_server (new_server\<lparr>sv_sessions := [new_session (Session 3 0 0) 7]\<rparr>)"
    by blast
  from server_isolates_clients [OF this, of "new_session (Session 3 0 0) 7"] show ?thesis by auto
qed

section \<open>Running the service\<close>

text \<open>
  The socket calls are parameters; \<open>serve\<close> is what the accept loop and its sessions do until the
  scope is joined, with an outcome of \<open>server_outcome\<close>. Events record what happens to the socket
  and to its path.
\<close>

record 'w socket_ops =
  sk_socket :: "'w \<Rightarrow> (error_code, int) outcome \<times> 'w"
  sk_unlink :: "string \<Rightarrow> 'w \<Rightarrow> (error_code, s32) outcome \<times> 'w"
  sk_bind :: "int \<Rightarrow> string \<Rightarrow> 'w \<Rightarrow> (error_code, s32) outcome \<times> 'w"
  sk_listen :: "int \<Rightarrow> int \<Rightarrow> 'w \<Rightarrow> (error_code, s32) outcome \<times> 'w"

datatype socket_event = SocketOpened int | SocketClosed int | PathBound string | PathServed | PathUnlinked string

definition sizeof_sun_path :: nat where
  "sizeof_sun_path = 108"

definition log_event :: "'e \<Rightarrow> 'w \<times> 'e list \<Rightarrow> 'w \<times> 'e list" where
  "log_event e = (\<lambda>(w, evs). (w, evs @ [e]))"

definition on_world :: "('w, 'e, 'a) sender \<Rightarrow> ('w \<times> 'l, 'e, 'a) sender" where
  "on_world s = (\<lambda>(w, l). case s w of (c, w') \<Rightarrow> (c, (w', l)))"

definition unlink_stale :: "'w socket_ops \<Rightarrow> string \<Rightarrow> ('w \<times> socket_event list, s32) task" where
  "unlink_stale S sun_path = (\<lambda>w. case on_world (sk_unlink S sun_path) w of
       (Value r, w') \<Rightarrow> (Value r, w')
     | (Error ec, w') \<Rightarrow> if ec \<noteq> ENOENT then (Error (SystemError ec ''unlink''), w') else (Value (- ec), w')
     | (Stopped, w') \<Rightarrow> (Stopped, w'))"

definition shm_bound ::
  "'w socket_ops \<Rightarrow> (int \<Rightarrow> ('w, unit) task) \<Rightarrow> int \<Rightarrow> string \<Rightarrow> ('w \<times> socket_event list, unit) task" where
  "shm_bound S serve server_fd sun_path =
     run_deferred (log_event (PathUnlinked sun_path))
       (await (throwing (on_world (sk_listen S server_fd 128))) (\<lambda>_.
          (\<lambda>w. on_world (serve server_fd) (log_event PathServed w))))"

definition shm_server_run ::
  "'w socket_ops \<Rightarrow> (int \<Rightarrow> ('w, unit) task) \<Rightarrow> string \<Rightarrow> ('w \<times> socket_event list, unit) task" where
  "shm_server_run S serve path =
     await (throwing (on_world (sk_socket S))) (\<lambda>server_fd w.
       run_deferred (log_event (SocketClosed server_fd))
         (if length path \<ge> sizeof_sun_path then throw (LengthError ''unix path too long'')
          else let sun_path = c_str (path @ [CHR 0x00]) in
            await (unlink_stale S sun_path) (\<lambda>_.
            await (throwing (on_world (sk_bind S server_fd sun_path))) (\<lambda>_ w.
              shm_bound S serve server_fd sun_path (log_event (PathBound sun_path) w))))
         (log_event (SocketOpened server_fd) w))"

definition daemon_shm_server ::
  "'w socket_ops \<Rightarrow> (shm_obj \<Rightarrow> int \<Rightarrow> ('w, unit) task) \<Rightarrow> int \<Rightarrow> u32 \<Rightarrow> string \<Rightarrow> u32 \<Rightarrow>
   ('w \<times> socket_event list, unit) task" where
  "daemon_shm_server S serve control_fd dev_id path flags = shm_server_run S (serve (Session control_fd dev_id flags)) path"

definition run_shm_server ::
  "'w socket_ops \<Rightarrow> (shm_obj \<Rightarrow> int \<Rightarrow> ('w, unit) task) \<Rightarrow> env \<Rightarrow> int \<Rightarrow> u32 \<Rightarrow> string \<Rightarrow> u32 \<Rightarrow>
   ('w \<times> socket_event list, unit) task" where
  "run_shm_server S serve env control_fd dev_id path flags =
     task_invoke (\<lambda>_. daemon_shm_server S serve control_fd dev_id path flags) env"

lemmas shm_run_defs =
  run_shm_server_def daemon_shm_server_def task_invoke_def shm_server_run_def shm_bound_def unlink_stale_def
  on_world_def log_event_def run_deferred_def await_def throwing_def throw_def

lemma shm_bound_cases:
  assumes "shm_bound S serve fd p (w, evs) = (c, (w', evs'))"
  shows "evs' = evs @ [PathUnlinked p] \<and> c \<noteq> Value () \<or>
    (\<exists>w0. evs' = evs @ [PathServed, PathUnlinked p] \<and> c = fst (serve fd w0))"
proof (cases "sk_listen S fd 128 w")
  case (Pair l w1)
  note defs = shm_bound_def run_deferred_def await_def throwing_def on_world_def log_event_def
  show ?thesis
  proof (cases l)
    case (Value r)
    obtain d w2 where d: "serve fd w1 = (d, w2)" by fastforce
    with Pair Value assms have "c = d" "evs' = evs @ [PathServed, PathUnlinked p]" by (simp_all add: defs)
    moreover have "d = fst (serve fd w1)" using d by simp
    ultimately show ?thesis by blast
  qed (use Pair assms in \<open>auto simp: defs\<close>)
qed

lemma shm_server_run_cases:
  assumes "shm_server_run S serve path (w, []) = (c, (w', evs))"
  obtains (no_socket) "evs = []" "c \<noteq> Value ()"
  | (too_long) fd where "evs = [SocketOpened fd, SocketClosed fd]" "108 \<le> length path"
      "c = Error (LengthError ''unix path too long'')" "w' = snd (sk_socket S w)"
  | (no_path) fd where "evs = [SocketOpened fd, SocketClosed fd]" "length path < 108" "c \<noteq> Value ()"
  | (bound) fd p evs' w1 w2 where "p = c_str (path @ [CHR 0x00])" "length path < 108"
      "shm_bound S serve fd p (w1, [SocketOpened fd, PathBound p]) = (c, (w2, evs'))" "evs = evs' @ [SocketClosed fd]"
proof (cases "sk_socket S w")
  case (Pair so w1)
  show ?thesis
  proof (cases so)
    case (Value fd)
    let ?p = "c_str (path @ [CHR 0x00])"
    show ?thesis
    proof (cases "108 \<le> length path")
      case True
      with Pair Value assms show ?thesis
        by (intro too_long [of fd])
          (auto simp: shm_server_run_def await_def throwing_def on_world_def run_deferred_def log_event_def throw_def
            sizeof_sun_path_def)
    next
      case False
      obtain u w2 where u: "sk_unlink S ?p w1 = (u, w2)" by fastforce
      obtain b w3 where b: "sk_bind S fd ?p w2 = (b, w3)" by fastforce
      obtain d w4 evs' where d: "shm_bound S serve fd ?p (w3, [SocketOpened fd, PathBound ?p]) = (d, (w4, evs'))"
        by (metis prod_cases3)
      let ?ok = "(u = Error ENOENT \<or> (\<exists>r. u = Value r)) \<and> (\<exists>r. b = Value r)"
      have run: "(c, (w', evs)) = (if ?ok then (d, (w4, evs' @ [SocketClosed fd])) else (c, (w', evs)))"
        "\<not> ?ok \<Longrightarrow> evs = [SocketOpened fd, SocketClosed fd] \<and> c \<noteq> Value ()"
        using Pair Value False assms u b d
        by (cases u; cases b; auto simp: shm_server_run_def await_def throwing_def on_world_def run_deferred_def
            log_event_def unlink_stale_def sizeof_sun_path_def Let_def split: if_splits)+
      show ?thesis
      proof (cases ?ok)
        case True
        with run(1) d False show ?thesis by (intro bound [of ?p fd w3 w4 evs']) auto
      next
        case no: False
        from run(2) [OF this] False show ?thesis by (intro no_path [of fd]) auto
      qed
    qed
  qed (use Pair assms in \<open>auto simp: shm_server_run_def await_def throwing_def on_world_def intro: no_socket\<close>)
qed

text \<open>
  C36. The service leaves neither its socket nor its path behind: on every path through the start-up
  the socket that was opened is closed last, the path is removed exactly if it was bound, and
  clients are served only on a bound path shorter than the address field; a longer path is
  refused before the file system is touched.
\<close>

theorem shm_service_leaves_nothing:
  assumes "run_shm_server S serve env control_fd dev_id path flags (w, []) = (c, (w', evs))"
  shows "evs = [] \<and> c \<noteq> Value () \<or>
    (\<exists>fd. evs = [SocketOpened fd, SocketClosed fd] \<and> c \<noteq> Value () \<and>
       (length path \<ge> 108 \<longrightarrow> c = Error (LengthError ''unix path too long'') \<and> w' = snd (sk_socket S w))) \<or>
    (\<exists>fd p. length path < 108 \<and> p = c_str (path @ [CHR 0x00]) \<and>
       (evs = [SocketOpened fd, PathBound p, PathUnlinked p, SocketClosed fd] \<and> c \<noteq> Value () \<or>
        (\<exists>w0. evs = [SocketOpened fd, PathBound p, PathServed, PathUnlinked p, SocketClosed fd] \<and>
           c = fst (serve (Session control_fd dev_id flags) fd w0))))"
proof -
  have "shm_server_run S (serve (Session control_fd dev_id flags)) path (w, []) = (c, (w', evs))"
    using assms by (simp add: run_shm_server_def daemon_shm_server_def task_invoke_def)
  then show ?thesis
  proof (cases rule: shm_server_run_cases)
    case (bound fd p evs' w1 w2)
    with shm_bound_cases [OF bound(3)] show ?thesis by fastforce
  qed simp_all
qed

definition sample_sockets :: "unit socket_ops" where
  "sample_sockets = \<lparr>sk_socket = (\<lambda>w. (Value 6, w)), sk_unlink = (\<lambda>p w. (Error 2, w)),
     sk_bind = (\<lambda>fd p w. (Value 0, w)), sk_listen = (\<lambda>fd n w. (Value 0, w))\<rparr>"

theorem shm_service_leaves_nothing_witness:
  "snd (snd (run_shm_server sample_sockets (\<lambda>_ _ w. (Value (), w)) NoQuery 3 0 ''/s'' 0 ((), []))) =
     [SocketOpened 6, PathBound ''/s'', PathServed, PathUnlinked ''/s'', SocketClosed 6]"
proof -
  obtain c w evs where r: "run_shm_server sample_sockets (\<lambda>_ _ w. (Value (), w)) NoQuery 3 0 ''/s'' 0 ((), []) = (c, (w, evs))"
    by (metis prod_cases3)
  have "PathServed \<in> set evs" "SocketOpened 6 \<in> set evs"
    using r by (auto simp: shm_run_defs sample_sockets_def sizeof_sun_path_def Let_def consts_simps)
  with shm_service_leaves_nothing [OF r] r show ?thesis by (auto simp: c_str_def)
qed

end
