(* ===== verification/Ublk_Shm_Runs.thy ===== *)
theory Ublk_Shm_Runs
  imports Ublk_Shm
begin

text \<open>
  The end of the shared memory service of \<^verbatim>\<open>detail/shm.hpp\<close>, modelled in \<open>Ublk_Shm\<close>: after a stop request
  the runs of \<open>server_step\<close> are finite and lead to the join of the scope.
\<close>

section \<open>Stopping the service\<close>

text \<open>
  After a stop request the service accepts no further client (a client that was accepted before
  counts as a session); every other step brings the end closer: a session suspends at most seven
  times and spawns a clean-up of at most two steps.
\<close>

fun shm_pc_rank :: "shm_pc \<Rightarrow> nat" where
  "shm_pc_rank ShmStart = 7"
| "shm_pc_rank AwaitRecvmsg = 6"
| "shm_pc_rank (AwaitStatx _) = 5"
| "shm_pc_rank (AwaitRegisterShm _) = 4"
| "shm_pc_rank (AwaitHandleReg _) = 3"
| "shm_pc_rank (AwaitSend _ _) = 2"
| "shm_pc_rank (AwaitRecv _ _) = 1"
| "shm_pc_rank (ShmDone _) = 0"
| "shm_pc_rank ShmDropped = 0"

fun cleanup_rank :: "cleanup_pc \<Rightarrow> nat" where
  "cleanup_rank CleanupReady = 2"
| "cleanup_rank AwaitUnregisterShm = 1"
| "cleanup_rank (CleanupDone _) = 0"

definition session_rank :: "shm_session \<Rightarrow> nat" where
  "session_rank s = 3 * shm_pc_rank (se_pc s) + (\<Sum>c\<leftarrow>se_cleanups s. cleanup_rank (fst c))"

definition server_rank :: "shm_server \<Rightarrow> nat" where
  "server_rank v = (if sv_accept v = Accepting then 1 else 0) + (\<Sum>s\<leftarrow>sv_sessions v. session_rank s)"

definition quiet_step :: "shm_obj \<Rightarrow> shm_server \<Rightarrow> shm_server \<Rightarrow> bool" where
  "quiet_step session v v' \<longleftrightarrow>
     server_step session v v' \<and> length (sv_sessions v') = length (sv_sessions v) \<and> v' \<noteq> v"

lemma shm_resume_rank: "shm_resume client_fd obj pc c = Some r \<Longrightarrow> shm_pc_rank (fst r) < shm_pc_rank pc"
  by (cases "(client_fd, obj, pc, c)" rule: shm_resume.cases)
    (auto simp: session_end_def handle_end_def handle_mapped_def Let_def split: outcome.splits sum.splits if_splits)

lemma cleanup_apply_rank:
  "i < length (se_cleanups s) \<Longrightarrow> cleanup_rank (fst r) < cleanup_rank (fst (se_cleanups s ! i)) \<Longrightarrow>
   session_rank (cleanup_apply s i r) < session_rank s"
  by (cases r) (simp add: session_rank_def cleanup_apply_def sum_list_update_less)

lemma session_step_rank:
  assumes "session_step stopping s s'"
  shows "session_rank s' < session_rank s"
  using assms
proof (induction rule: session_step.induct)
  case (resume s c r)
  then show ?case using shm_resume_rank [OF resume(1)] by (cases r) (auto simp: session_rank_def session_apply_def)
next
  case (begin_cleanup i s self)
  then show ?case by (intro cleanup_apply_rank) (simp_all add: cleanup_def cleanup_unmap_def)
next
  case (unregistered i s self c)
  then show ?case by (intro cleanup_apply_rank) (simp_all add: cleanup_resume_def cleanup_unmap_def split: option.splits)
next
  case (drop_cleanup i s self)
  then show ?case by (intro cleanup_apply_rank) simp_all
qed (simp_all add: session_rank_def)

lemma quiet_step_rank:
  assumes "quiet_step session v v'" and "sv_stopping v"
  shows "server_rank v' < server_rank v"
proof -
  from assms(1) have "server_step session v v'" "length (sv_sessions v') = length (sv_sessions v)" "v' \<noteq> v"
    by (simp_all add: quiet_step_def)
  then show ?thesis
  proof cases
    case (session_steps i s')
    then show ?thesis
      using sum_list_update_less [of i "sv_sessions v" session_rank s'] session_step_rank by (simp add: server_rank_def)
  qed (use assms(2) in \<open>auto simp: server_rank_def\<close>)
qed

lemma cleanup_can_step:
  assumes "i < length (se_cleanups s)" and "\<nexists>c. fst (se_cleanups s ! i) = CleanupDone c"
  shows "\<exists>s'. session_step stopping s s'"
proof (cases "fst (se_cleanups s ! i)")
  case CleanupReady
  then show ?thesis using session_step.begin_cleanup [OF assms(1)] by (metis prod.collapse)
next
  case AwaitUnregisterShm
  then show ?thesis using session_step.unregistered [OF assms(1)] by (metis prod.collapse)
qed (use assms(2) in auto)

lemma session_can_step:
  assumes "\<not> session_over s" and "se_pc s \<noteq> ShmDropped"
  shows "\<exists>s'. session_step stopping s s'"
proof (cases "se_pc s = ShmStart \<or> (\<exists>c. se_pc s = ShmDone c)")
  case True
  then show ?thesis
  proof (elim disjE)
    assume "\<exists>c. se_pc s = ShmDone c"
    with assms(1) obtain i where "i < length (se_cleanups s)" "\<nexists>c. fst (se_cleanups s ! i) = CleanupDone c"
      by (auto simp: session_over_def list_all_length case_prod_unfold)
    then show ?thesis by (rule cleanup_can_step)
  qed (use session_step.begin_session in blast)
next
  case False
  define c where "c = (case se_pc s of AwaitRecvmsg \<Rightarrow> RecvmsgDone Stopped | AwaitStatx _ \<Rightarrow> StatxDone Stopped (Inl 1)
    | AwaitRegisterShm _ \<Rightarrow> RegisterDone Stopped | AwaitHandleReg _ \<Rightarrow> HandleRegDone Stopped
    | AwaitSend _ _ \<Rightarrow> SendDone Stopped | _ \<Rightarrow> RecvDone Stopped)"
  have "shm_resume (se_client s) (se_obj s) (se_pc s) c \<noteq> None \<and> shm_answer c"
    using False assms(2) by (cases "se_pc s") (auto simp: c_def)
  then show ?thesis using session_step.resume by blast
qed

lemma quiet_stuck_joined:
  assumes "sv_stopping v" and "\<nexists>v'. quiet_step session v v'"
  shows "server_joined v"
proof -
  have "sv_accept v \<noteq> Accepting"
  proof
    assume a: "sv_accept v = Accepting"
    then have "quiet_step session v (v\<lparr>sv_accept := AcceptDone Stopped\<rparr>)"
      using server_step.accept_stopped [OF a assms(1)] by (cases v) (auto simp: quiet_step_def)
    with assms(2) show False by blast
  qed
  moreover have "session_over s \<or> se_pc s = ShmDropped" if s: "s \<in> set (sv_sessions v)" for s
  proof (rule ccontr)
    assume n: "\<not> (session_over s \<or> se_pc s = ShmDropped)"
    obtain i where i: "i < length (sv_sessions v)" "s = sv_sessions v ! i" using s by (auto simp: in_set_conv_nth)
    from n obtain s' where s': "session_step (sv_stopping v) s s'" using session_can_step by blast
    then have "s' \<noteq> s" using session_step_rank by blast
    then have "(sv_sessions v)[i := s'] \<noteq> sv_sessions v" using i by (metis nth_list_update_eq)
    with server_step.session_steps [of i v s' session] i s' have "quiet_step session v (v\<lparr>sv_sessions := (sv_sessions v)[i := s']\<rparr>)"
      by (cases v) (auto simp: quiet_step_def)
    with assms(2) show False by blast
  qed
  ultimately show ?thesis by (simp add: server_joined_def list_all_iff)
qed

interpretation shm_drain: draining "\<lambda>v. v = new_server" "server_step (Session control_fd dev_id flags)" server_inv
    "quiet_step (Session control_fd dev_id flags)" sv_stopping server_rank server_joined for control_fd dev_id flags
proof unfold_locales
  show "sv_stopping v'" if "quiet_step (Session control_fd dev_id flags) v v'" "sv_stopping v" for v v'
    using that by (auto simp: quiet_step_def elim: server_step.cases)
qed (simp add: quiet_step_def, (blast intro: quiet_step_rank quiet_stuck_joined)+)

text \<open>
  C20. Once the service has been asked to stop, by its owner or because the accept failed, it comes
  to its end: after the last accepted client every run has at most \<open>server_rank\<close> steps, one
  that cannot continue has ended the accept and every session with its clean-ups, so that the
  join of the scope completes, and every run can be continued to that point.
\<close>

theorem shm_server_drains:
  assumes "(server_step (Session control_fd dev_id flags))\<^sup>*\<^sup>* new_server v" and "sv_stopping v"
    and "(quiet_step (Session control_fd dev_id flags) ^^ n) v v'"
  shows "n \<le> server_rank v \<and>
    ((\<nexists>u. quiet_step (Session control_fd dev_id flags) v' u) \<longrightarrow> server_joined v') \<and>
    (\<exists>u. (quiet_step (Session control_fd dev_id flags))\<^sup>*\<^sup>* v' u \<and> server_joined u)"
  by (rule shm_drain.drains [OF refl assms])

theorem shm_server_drains_witness:
  "server_rank (new_server\<lparr>sv_stopping := True\<rparr>) = 1 \<and>
   (\<exists>u. (quiet_step (Session 3 0 0))\<^sup>*\<^sup>* (new_server\<lparr>sv_stopping := True, sv_accept := AcceptDone Stopped\<rparr>) u \<and> server_joined u)"
proof -
  let ?v = "new_server\<lparr>sv_stopping := True\<rparr>" and ?v' = "new_server\<lparr>sv_stopping := True, sv_accept := AcceptDone Stopped\<rparr>"
  have r: "(server_step (Session 3 0 0))\<^sup>*\<^sup>* new_server ?v" by (rule r_into_rtranclp, rule server_step.stop_request)
  have "server_step (Session 3 0 0) ?v ?v'"
    using server_step.accept_stopped [of ?v "Session 3 0 0"] by (simp add: new_server_def)
  then have "(quiet_step (Session 3 0 0) ^^ 1) ?v ?v'"
    by (auto simp: quiet_step_def new_server_def)
  from shm_server_drains [OF r _ this] show ?thesis by (simp add: server_rank_def new_server_def)
qed

end
