(* ===== verification/Ublk_Ctl.thy ===== *)
theory Ublk_Ctl
  imports Ublk_Io
begin

text \<open>
  The command line tool \<^verbatim>\<open>bin/ublkctl.cpp\<close>: its commands, the formatting of device information,
  flags and CPU sets, the dispatch of a command to the control operations, the registered options
  and the selection of the command, and the exit status.
  Standard output is a string in the state of a task. The argument parser CLI11, the directory
  listing and the opening of the control device are parameters.
\<close>

section \<open>Commands\<close>

record AddCmd =
  ac_dev_id :: u32
  ac_nr_queues :: u16
  ac_queue_depth :: u16
  ac_max_io_buf_bytes :: u32
  ac_flags :: u64

definition default_AddCmd :: AddCmd where
  "default_AddCmd = \<lparr>ac_dev_id = - 1, ac_nr_queues = 1, ac_queue_depth = 32, ac_max_io_buf_bytes = 0, ac_flags = 0\<rparr>"

datatype Cmd =
    CmdAdd AddCmd
  | CmdDel u32 bool
  | CmdStart u32 s32
  | CmdStop u32 bool
  | CmdList
  | CmdGet u32
  | CmdStartRecovery u32
  | CmdRecover u32 s32
  | CmdFeatures
  | CmdQuiesce u32 u64

section \<open>Formatting\<close>

definition state_str :: "u32 \<Rightarrow> string" where
  "state_str state =
     (if state = ucast UBLK_S_DEV_DEAD then ''DEAD''
      else if state = ucast UBLK_S_DEV_LIVE then ''LIVE''
      else if state = ucast UBLK_S_DEV_QUIESCED then ''QUIESCED''
      else if state = ucast UBLK_S_DEV_FAIL_IO then ''FAIL_IO''
      else ''UNKNOWN'')"

definition FLAG_TABLE :: "(u64 \<times> string \<times> string) list" where
  "FLAG_TABLE =
     [(UBLK_F_SUPPORT_ZERO_COPY, ''SUPPORT_ZERO_COPY'', ''ZERO_COPY''),
      (UBLK_F_URING_CMD_COMP_IN_TASK, ''URING_CMD_COMP_IN_TASK'', ''COMP_IN_TASK''),
      (UBLK_F_NEED_GET_DATA, ''NEED_GET_DATA'', ''GET_DATA''),
      (UBLK_F_USER_RECOVERY, ''USER_RECOVERY'', ''USER_RECOVERY''),
      (UBLK_F_USER_RECOVERY_REISSUE, ''USER_RECOVERY_REISSUE'', ''RECOVERY_REISSUE''),
      (UBLK_F_UNPRIVILEGED_DEV, ''UNPRIVILEGED_DEV'', ''UNPRIVILEGED_DEV''),
      (UBLK_F_CMD_IOCTL_ENCODE, ''CMD_IOCTL_ENCODE'', ''CMD_IOCTL_ENCODE''),
      (UBLK_F_USER_COPY, ''USER_COPY'', ''USER_COPY''),
      (UBLK_F_ZONED, ''ZONED'', ''ZONED''),
      (UBLK_F_USER_RECOVERY_FAIL_IO, ''USER_RECOVERY_FAIL_IO'', ''RECOVERY_FAIL_IO''),
      (UBLK_F_UPDATE_SIZE, ''UPDATE_SIZE'', ''UPDATE_SIZE''),
      (UBLK_F_AUTO_BUF_REG, ''AUTO_BUF_REG'', ''AUTO_ZC''),
      (UBLK_F_QUIESCE, ''QUIESCE'', ''QUIESCE''),
      (UBLK_F_PER_IO_DAEMON, ''PER_IO_DAEMON'', ''PER_IO_DAEMON''),
      (UBLK_F_BUF_REG_OFF_DAEMON, ''BUF_REG_OFF_DAEMON'', ''BUF_REG_OFF_DAEMON''),
      (UBLK_F_BATCH_IO, ''BATCH_IO'', ''BATCH_IO''),
      (UBLK_F_INTEGRITY, ''INTEGRITY'', ''INTEGRITY''),
      (UBLK_F_SAFE_STOP_DEV, ''SAFE_STOP_DEV'', ''SAFE_STOP_DEV''),
      (UBLK_F_NO_AUTO_PART_SCAN, ''NO_AUTO_PART_SCAN'', ''NO_AUTO_PART_SCAN''),
      (UBLK_F_SHMEM_ZC, ''SHMEM_ZC'', ''SHMEM_ZC'')]"

text \<open>Appending a word to a string of words, as the loops of \<^verbatim>\<open>flags_str\<close> and \<^verbatim>\<open>cpu_str\<close> do.\<close>

definition add_word :: "string \<Rightarrow> string \<Rightarrow> string" where
  "add_word s w = (if s \<noteq> [] then s @ '' '' @ w else w)"

definition flags_str :: "u64 \<Rightarrow> string" where
  "flags_str flags =
     foldl (\<lambda>s (flag, name, short_name). if has_flag flags flag then add_word s name else s) [] FLAG_TABLE"

text \<open>Decimal output of a signed integer and the format \<^verbatim>\<open>{:x}\<close>.\<close>

definition int_str :: "int \<Rightarrow> string" where
  "int_str i = (if i < 0 then ''-'' @ dec_str (nat (- i)) else dec_str (nat i))"

definition hex_digit :: "nat \<Rightarrow> char" where
  "hex_digit d = (if d < 10 then char_of (48 + d) else char_of (87 + d))"

fun hex_str :: "nat \<Rightarrow> string" where
  "hex_str n = (if n < 16 then [hex_digit n] else hex_str (n div 16) @ [hex_digit (n mod 16)])"

declare hex_str.simps [simp del]

definition nl :: string where
  "nl = [CHR 0x0A]"

definition tab :: string where
  "tab = [CHR 0x09]"

definition dump_dev_info :: "u32 \<Rightarrow> ublksrv_ctrl_dev_info \<Rightarrow> ublk_params \<Rightarrow> string" where
  "dump_dev_info dev_id info params =
     ''dev id '' @ dec_str (unat dev_id) @ '': nr_hw_queues '' @ dec_str (unat (di_nr_hw_queues info)) @
     '' queue_depth '' @ dec_str (unat (di_queue_depth info)) @ '' block size '' @
     dec_str (unat (push_bit (unat (pb_logical_bs_shift (pr_basic params))) 1 :: u32)) @ '' dev_capacity '' @
     dec_str (unat (pb_dev_sectors (pr_basic params))) @ nl @
     tab @ ''max rq size '' @ dec_str (unat (di_max_io_buf_bytes info)) @ '' daemon pid '' @
     int_str (di_ublksrv_pid info) @ '' state '' @ state_str (ucast (di_state info)) @ nl @
     tab @ ''flags 0x'' @ hex_str (unat (di_flags info)) @ '' ['' @ flags_str (di_flags info) @ '']'' @ nl @
     tab @ ''ublkc: '' @ dec_str (unat (pv_char_major (pr_devt params))) @ '':'' @
     dec_str (unat (pv_char_minor (pr_devt params))) @ '' ublkb: '' @
     dec_str (unat (pv_disk_major (pr_devt params))) @ '':'' @ dec_str (unat (pv_disk_minor (pr_devt params))) @
     '' owner: '' @ dec_str (unat (di_owner_uid info)) @ '':'' @ dec_str (unat (di_owner_gid info)) @ nl"

text \<open>
  The two loops of \<^verbatim>\<open>cpu_str\<close>: \<open>run_end\<close> is the inner \<^verbatim>\<open>do ... while\<close>, which is entered with a member
  of the set and leaves behind the run; \<^verbatim>\<open>CPU_ISSET\<close> reads one bit.
\<close>

definition CPU_SETSIZE :: nat where
  "CPU_SETSIZE = 1024"

function run_end :: "cpu_set_t \<Rightarrow> nat \<Rightarrow> nat" where
  "run_end cpuset i =
     (let i' = i + 1 in if i' < CPU_SETSIZE \<and> bit cpuset i' then run_end cpuset i' else i')"
  by pat_completeness auto
termination by (relation "measure (\<lambda>(_, i). CPU_SETSIZE - i)") auto

declare run_end.simps [simp del]

lemma run_end_greater: "i < run_end cpuset i"
proof (induction cpuset i rule: run_end.induct)
  case (1 cpuset i)
  then show ?case by (subst run_end.simps) (auto simp: Let_def)
qed

definition range_str :: "nat \<Rightarrow> nat \<Rightarrow> string" where
  "range_str lo hi = dec_str lo @ (if hi > lo then ''-'' @ dec_str hi else [])"

function cpu_loop :: "cpu_set_t \<Rightarrow> nat \<Rightarrow> string \<Rightarrow> string" where
  "cpu_loop cpuset i s =
     (if i < CPU_SETSIZE
      then if \<not> bit cpuset i then cpu_loop cpuset (i + 1) s
        else cpu_loop cpuset (run_end cpuset i) (add_word s (range_str i (run_end cpuset i - 1)))
      else s)"
  by pat_completeness auto
termination
  by (relation "measure (\<lambda>(_, i, _). CPU_SETSIZE - i)") (auto simp: diff_less_mono2 run_end_greater)

declare cpu_loop.simps [simp del]

definition cpu_str :: "cpu_set_t \<Rightarrow> string" where
  "cpu_str cpuset = cpu_loop cpuset 0 []"

section \<open>Running a command\<close>

type_synonym 'w ctl_world = "'w \<times> string"

definition print :: "string \<Rightarrow> ('w ctl_world, unit) task" where
  "print text' = (\<lambda>(w, out). (Value (), (w, out @ text')))"

definition kernel_call :: "('w, 'a) task \<Rightarrow> ('w ctl_world, 'a) task" where
  "kernel_call t = (\<lambda>(w, out). case t w of (c, w') \<Rightarrow> (c, (w', out)))"

text \<open>Awaiting \<^verbatim>\<open>ublk::add_dev\<close> or \<^verbatim>\<open>ublk::get_features\<close>, whose error channel carries an error code.\<close>

definition plain_call :: "('w \<Rightarrow> ((error_code, unit) outcome \<times> 'a) \<times> 'w) \<Rightarrow> ('w ctl_world, 'a) task" where
  "plain_call s = kernel_call (\<lambda>w. case s w of
       ((Value _, a), w') \<Rightarrow> (Value a, w')
     | ((Error ec, _), w') \<Rightarrow> (Error (SystemError ec ''''), w')
     | ((Stopped, _), w') \<Rightarrow> (Stopped, w'))"

fun dump_queues :: "'w kernel \<Rightarrow> int \<Rightarrow> ublksrv_ctrl_dev_info \<Rightarrow> nat \<Rightarrow> nat \<Rightarrow> ('w ctl_world, unit) task" where
  "dump_queues K ctrl_fd info q_id 0 = co_return ()"
| "dump_queues K ctrl_fd info q_id (Suc n) =
     await (kernel_call (get_queue_affinity K NoQuery ctrl_fd (di_dev_id info) (of_nat q_id) 0)) (\<lambda>cpuset.
     await (print (tab @ ''queue '' @ dec_str q_id @ '': affinity('' @ cpu_str cpuset @ '')'' @ nl)) (\<lambda>_.
     dump_queues K ctrl_fd info (Suc q_id) n))"

definition dump_queue_affinity :: "'w kernel \<Rightarrow> int \<Rightarrow> ublksrv_ctrl_dev_info \<Rightarrow> ('w ctl_world, unit) task" where
  "dump_queue_affinity K ctrl_fd info = dump_queues K ctrl_fd info 0 (unat (di_nr_hw_queues info))"

definition empty_params :: ublk_params where
  "empty_params = zero_params\<lparr>pr_len := of_nat sizeof_ublk_params\<rparr>"

definition run_add :: "'w kernel \<Rightarrow> int \<Rightarrow> AddCmd \<Rightarrow> ('w ctl_world, unit) task" where
  "run_add K ctrl_fd cmd =
     (let info = zero_info\<lparr>di_dev_id := ac_dev_id cmd, di_nr_hw_queues := ac_nr_queues cmd,
            di_queue_depth := ac_queue_depth cmd, di_max_io_buf_bytes := ac_max_io_buf_bytes cmd,
            di_flags := ac_flags cmd\<rparr> in
      await (plain_call (add_dev K ctrl_fd info)) (\<lambda>info'.
      await (kernel_call (get_params K NoQuery ctrl_fd (di_dev_id info') empty_params)) (\<lambda>params.
      await (print (dump_dev_info (di_dev_id info') info' params)) (\<lambda>_.
      dump_queue_affinity K ctrl_fd info'))))"

text \<open>What \<^verbatim>\<open>get\<close> does for its device and \<^verbatim>\<open>list\<close> for each device.\<close>

definition show_dev :: "'w kernel \<Rightarrow> int \<Rightarrow> u32 \<Rightarrow> ('w ctl_world, unit) task" where
  "show_dev K ctrl_fd dev_id =
     await (kernel_call (get_dev_info K NoQuery ctrl_fd dev_id zero_info)) (\<lambda>info.
     await (kernel_call (get_params K NoQuery ctrl_fd dev_id empty_params)) (\<lambda>params.
     await (print (dump_dev_info dev_id info params)) (\<lambda>_.
     dump_queue_affinity K ctrl_fd info)))"

text \<open>
  The name filter of \<^verbatim>\<open>list\<close>: \<^verbatim>\<open>starts_with\<close> and \<^verbatim>\<open>std::from_chars\<close> into a \<open>size_t\<close>, which accepts decimal
  digits only and fails when there are none or the number does not fit.
\<close>

definition is_digit :: "char \<Rightarrow> bool" where
  "is_digit c \<longleftrightarrow> 48 \<le> (of_char c :: nat) \<and> (of_char c :: nat) \<le> 57"

definition from_chars :: "string \<Rightarrow> (nat \<times> string) option" where
  "from_chars s =
     (let ds = takeWhile is_digit s in
      if ds = [] \<or> parse_dec ds \<ge> 2 ^ 64 then None else Some (parse_dec ds, dropWhile is_digit s))"

definition list_id :: "string \<Rightarrow> nat option" where
  "list_id name =
     (if take 5 name \<noteq> ''ublkc'' then None
      else case from_chars (drop 5 name) of
          None \<Rightarrow> None
        | Some (id', rest) \<Rightarrow> if rest \<noteq> [] then None else Some id')"

fun run_list :: "'w kernel \<Rightarrow> int \<Rightarrow> string list \<Rightarrow> ('w ctl_world, unit) task" where
  "run_list K ctrl_fd [] = co_return ()"
| "run_list K ctrl_fd (name # names) =
     (case list_id name of
        None \<Rightarrow> run_list K ctrl_fd names
      | Some id' \<Rightarrow> await (show_dev K ctrl_fd (of_nat id')) (\<lambda>_. run_list K ctrl_fd names))"

definition pad :: "nat \<Rightarrow> string \<Rightarrow> string" where
  "pad n s = s @ replicate (n - length s) CHR '' ''"

definition run_features :: "'w kernel \<Rightarrow> int \<Rightarrow> ('w ctl_world, unit) task" where
  "run_features K ctrl_fd =
     await (plain_call (get_features K ctrl_fd 0)) (\<lambda>features.
     await (print (''ublk_drv features: 0x'' @ hex_str (unat features) @ nl)) (\<lambda>_.
     print (concat (map (\<lambda>(flag, name, short_name).
       if has_flag features flag then tab @ pad 20 short_name @ '': 0x'' @ hex_str (unat flag) @ nl else [])
       FLAG_TABLE))))"

fun run_cmd :: "'w kernel \<Rightarrow> exn + string list \<Rightarrow> int \<Rightarrow> Cmd \<Rightarrow> ('w ctl_world, unit) task" where
  "run_cmd K dir ctrl_fd (CmdAdd cmd) = run_add K ctrl_fd cmd"
| "run_cmd K dir ctrl_fd (CmdDel dev_id async) =
     kernel_call (if async then del_dev_async K NoQuery ctrl_fd dev_id else del_dev K NoQuery ctrl_fd dev_id)"
| "run_cmd K dir ctrl_fd (CmdStart dev_id daemon_pid) = kernel_call (start_dev K NoQuery ctrl_fd dev_id daemon_pid)"
| "run_cmd K dir ctrl_fd (CmdStop dev_id try_stop) =
     kernel_call (if try_stop then try_stop_dev K NoQuery ctrl_fd dev_id else stop_dev K NoQuery ctrl_fd dev_id)"
| "run_cmd K dir ctrl_fd CmdList = (case dir of Inl e \<Rightarrow> throw e | Inr names \<Rightarrow> run_list K ctrl_fd names)"
| "run_cmd K dir ctrl_fd (CmdGet dev_id) = show_dev K ctrl_fd dev_id"
| "run_cmd K dir ctrl_fd (CmdStartRecovery dev_id) = kernel_call (start_user_recovery K NoQuery ctrl_fd dev_id)"
| "run_cmd K dir ctrl_fd (CmdRecover dev_id daemon_pid) =
     kernel_call (end_user_recovery K NoQuery ctrl_fd dev_id daemon_pid)"
| "run_cmd K dir ctrl_fd CmdFeatures = run_features K ctrl_fd"
| "run_cmd K dir ctrl_fd (CmdQuiesce dev_id timeout_ms) = kernel_call (quiesce_dev K NoQuery ctrl_fd dev_id timeout_ms)"

section \<open>Arguments and exit status\<close>

text \<open>
  \<^verbatim>\<open>parse_args\<close>. The options are registered with CLI11 together with the member each of them is
  stored into, or the flag that its callback adds; \<open>co_required\<close> is \<^verbatim>\<open>->required()\<close>. The members
  without an initialiser are \<open>None\<close> until they are stored.
\<close>

datatype opt_target =
    AddDevId | AddNrQueues | AddQueueDepth | AddMaxIoBufBytes | AddFlags u64
  | DelDevId | DelAsync | StartDevId | StartPid | StopDevId | StopTry | GetDevId
  | StartRecoveryDevId | RecoverDevId | RecoverPid | QuiesceDevId | QuiesceTimeout

record cli_option =
  co_subcommand :: string
  co_name :: string
  co_target :: opt_target
  co_required :: bool

definition cli_subcommands :: "string list" where
  "cli_subcommands =
     [''add'', ''del'', ''start'', ''stop'', ''list'', ''get'', ''start-recovery'', ''recover'', ''features'', ''quiesce'']"

definition add_options :: "cli_option list" where
  "add_options =
     [\<lparr>co_subcommand = ''add'', co_name = ''-n'', co_target = AddDevId, co_required = False\<rparr>,
      \<lparr>co_subcommand = ''add'', co_name = ''-q'', co_target = AddNrQueues, co_required = False\<rparr>,
      \<lparr>co_subcommand = ''add'', co_name = ''-d'', co_target = AddQueueDepth, co_required = False\<rparr>,
      \<lparr>co_subcommand = ''add'', co_name = ''-b'', co_target = AddMaxIoBufBytes, co_required = False\<rparr>,
      \<lparr>co_subcommand = ''add'', co_name = ''--zerocopy'', co_target = AddFlags UBLK_F_SUPPORT_ZERO_COPY, co_required = False\<rparr>,
      \<lparr>co_subcommand = ''add'', co_name = ''--batch'', co_target = AddFlags UBLK_F_BATCH_IO, co_required = False\<rparr>,
      \<lparr>co_subcommand = ''add'', co_name = ''--user-recovery'', co_target = AddFlags UBLK_F_USER_RECOVERY, co_required = False\<rparr>,
      \<lparr>co_subcommand = ''add'', co_name = ''--user-recovery-fail-io'', co_target = AddFlags UBLK_F_USER_RECOVERY_FAIL_IO,
        co_required = False\<rparr>,
      \<lparr>co_subcommand = ''add'', co_name = ''--user-recovery-reissue'', co_target = AddFlags UBLK_F_USER_RECOVERY_REISSUE,
        co_required = False\<rparr>,
      \<lparr>co_subcommand = ''add'', co_name = ''--unprivileged'', co_target = AddFlags UBLK_F_UNPRIVILEGED_DEV, co_required = False\<rparr>,
      \<lparr>co_subcommand = ''add'', co_name = ''--usercopy'', co_target = AddFlags UBLK_F_USER_COPY, co_required = False\<rparr>]"

definition cli_options :: "cli_option list" where
  "cli_options = add_options @
     [\<lparr>co_subcommand = ''del'', co_name = ''-n'', co_target = DelDevId, co_required = True\<rparr>,
      \<lparr>co_subcommand = ''del'', co_name = ''--async'', co_target = DelAsync, co_required = False\<rparr>,
      \<lparr>co_subcommand = ''start'', co_name = ''-n'', co_target = StartDevId, co_required = True\<rparr>,
      \<lparr>co_subcommand = ''start'', co_name = ''--pid'', co_target = StartPid, co_required = True\<rparr>,
      \<lparr>co_subcommand = ''stop'', co_name = ''-n'', co_target = StopDevId, co_required = True\<rparr>,
      \<lparr>co_subcommand = ''stop'', co_name = ''--try'', co_target = StopTry, co_required = False\<rparr>,
      \<lparr>co_subcommand = ''get'', co_name = ''-n'', co_target = GetDevId, co_required = True\<rparr>,
      \<lparr>co_subcommand = ''start-recovery'', co_name = ''-n'', co_target = StartRecoveryDevId, co_required = True\<rparr>,
      \<lparr>co_subcommand = ''recover'', co_name = ''-n'', co_target = RecoverDevId, co_required = True\<rparr>,
      \<lparr>co_subcommand = ''recover'', co_name = ''--pid'', co_target = RecoverPid, co_required = True\<rparr>,
      \<lparr>co_subcommand = ''quiesce'', co_name = ''-n'', co_target = QuiesceDevId, co_required = True\<rparr>,
      \<lparr>co_subcommand = ''quiesce'', co_name = ''timeout_ms'', co_target = QuiesceTimeout, co_required = True\<rparr>]"

record cmd_opts =
  op_add :: AddCmd
  op_del_dev_id :: "u32 option"
  op_del_async :: bool
  op_start_dev_id :: "u32 option"
  op_start_pid :: "s32 option"
  op_stop_dev_id :: "u32 option"
  op_stop_try :: bool
  op_get_dev_id :: "u32 option"
  op_start_recovery_dev_id :: "u32 option"
  op_recover_dev_id :: "u32 option"
  op_recover_pid :: "s32 option"
  op_quiesce_dev_id :: "u32 option"
  op_quiesce_timeout_ms :: "u64 option"

definition default_opts :: cmd_opts where
  "default_opts =
     \<lparr>op_add = default_AddCmd, op_del_dev_id = None, op_del_async = False, op_start_dev_id = None, op_start_pid = None,
      op_stop_dev_id = None, op_stop_try = False, op_get_dev_id = None, op_start_recovery_dev_id = None,
      op_recover_dev_id = None, op_recover_pid = None, op_quiesce_dev_id = None, op_quiesce_timeout_ms = None\<rparr>"

text \<open>Storing a parsed value, whose range CLI11 has checked against the type of the member.\<close>

fun store_option :: "opt_target \<Rightarrow> int \<Rightarrow> cmd_opts \<Rightarrow> cmd_opts" where
  "store_option AddDevId v opts = opts\<lparr>op_add := (op_add opts)\<lparr>ac_dev_id := of_int v\<rparr>\<rparr>"
| "store_option AddNrQueues v opts = opts\<lparr>op_add := (op_add opts)\<lparr>ac_nr_queues := of_int v\<rparr>\<rparr>"
| "store_option AddQueueDepth v opts = opts\<lparr>op_add := (op_add opts)\<lparr>ac_queue_depth := of_int v\<rparr>\<rparr>"
| "store_option AddMaxIoBufBytes v opts = opts\<lparr>op_add := (op_add opts)\<lparr>ac_max_io_buf_bytes := of_int v\<rparr>\<rparr>"
| "store_option (AddFlags f) v opts = opts\<lparr>op_add := (op_add opts)\<lparr>ac_flags := ac_flags (op_add opts) OR f\<rparr>\<rparr>"
| "store_option DelDevId v opts = opts\<lparr>op_del_dev_id := Some (of_int v)\<rparr>"
| "store_option DelAsync v opts = opts\<lparr>op_del_async := (v \<noteq> 0)\<rparr>"
| "store_option StartDevId v opts = opts\<lparr>op_start_dev_id := Some (of_int v)\<rparr>"
| "store_option StartPid v opts = opts\<lparr>op_start_pid := Some v\<rparr>"
| "store_option StopDevId v opts = opts\<lparr>op_stop_dev_id := Some (of_int v)\<rparr>"
| "store_option StopTry v opts = opts\<lparr>op_stop_try := (v \<noteq> 0)\<rparr>"
| "store_option GetDevId v opts = opts\<lparr>op_get_dev_id := Some (of_int v)\<rparr>"
| "store_option StartRecoveryDevId v opts = opts\<lparr>op_start_recovery_dev_id := Some (of_int v)\<rparr>"
| "store_option RecoverDevId v opts = opts\<lparr>op_recover_dev_id := Some (of_int v)\<rparr>"
| "store_option RecoverPid v opts = opts\<lparr>op_recover_pid := Some v\<rparr>"
| "store_option QuiesceDevId v opts = opts\<lparr>op_quiesce_dev_id := Some (of_int v)\<rparr>"
| "store_option QuiesceTimeout v opts = opts\<lparr>op_quiesce_timeout_ms := Some (of_int v)\<rparr>"

definition store_options :: "(opt_target \<times> int) list \<Rightarrow> cmd_opts" where
  "store_options stores = foldl (\<lambda>opts (t, v). store_option t v opts) default_opts stores"

text \<open>The selected command; \<open>Inr None\<close> is a command with a member that was never given a value.\<close>

definition with_both :: "('a \<Rightarrow> 'b \<Rightarrow> 'c) \<Rightarrow> 'a option \<Rightarrow> 'b option \<Rightarrow> 'c option" where
  "with_both f a b = Option.bind a (\<lambda>x. map_option (f x) b)"

definition select_cmd :: "(string \<Rightarrow> bool) \<Rightarrow> cmd_opts \<Rightarrow> exn + Cmd option" where
  "select_cmd got_subcommand opts =
     (if got_subcommand ''add'' then Inr (Some (CmdAdd (op_add opts)))
      else if got_subcommand ''del'' then Inr (map_option (\<lambda>d. CmdDel d (op_del_async opts)) (op_del_dev_id opts))
      else if got_subcommand ''start'' then Inr (with_both CmdStart (op_start_dev_id opts) (op_start_pid opts))
      else if got_subcommand ''stop'' then Inr (map_option (\<lambda>d. CmdStop d (op_stop_try opts)) (op_stop_dev_id opts))
      else if got_subcommand ''list'' then Inr (Some CmdList)
      else if got_subcommand ''get'' then Inr (map_option CmdGet (op_get_dev_id opts))
      else if got_subcommand ''start-recovery'' then Inr (map_option CmdStartRecovery (op_start_recovery_dev_id opts))
      else if got_subcommand ''recover'' then Inr (with_both CmdRecover (op_recover_dev_id opts) (op_recover_pid opts))
      else if got_subcommand ''features'' then Inr (Some CmdFeatures)
      else if got_subcommand ''quiesce'' then Inr (with_both CmdQuiesce (op_quiesce_dev_id opts) (op_quiesce_timeout_ms opts))
      else Inl (RuntimeError ''unhandled subcommand''))"

text \<open>
  CLI11 is the parameter \<open>cli\<close>: from the registered subcommands and options and the arguments to
  the exit status of a parse error, or to the subcommands that were given and the stores and
  callbacks to run, in order.
\<close>

type_synonym cli =
  "string list \<Rightarrow> cli_option list \<Rightarrow> string list \<Rightarrow> int + string list \<times> (opt_target \<times> int) list"

datatype parsed_args = ParseExit int | ParseThrow exn | ParseIndeterminate | ParseCmd Cmd

definition parse_args :: "cli \<Rightarrow> string list \<Rightarrow> parsed_args" where
  "parse_args cli argv = (case cli cli_subcommands cli_options argv of
       Inl status \<Rightarrow> ParseExit status
     | Inr (got, stores) \<Rightarrow> (case select_cmd (\<lambda>c. c \<in> set got) (store_options stores) of
           Inl e \<Rightarrow> ParseThrow e
         | Inr None \<Rightarrow> ParseIndeterminate
         | Inr (Some cmd) \<Rightarrow> ParseCmd cmd))"

text \<open>
  Descriptors are opened one after the other and closed by deferred clean-up when \<^verbatim>\<open>main\<close> leaves
  the scope, whether normally or by an exception. The state has the open descriptors, the latest
  first, beside the world.
\<close>

type_synonym 'w host = "int list \<times> 'w ctl_world"

definition host_task :: "('w ctl_world, 'a) task \<Rightarrow> ('w host, 'a) task" where
  "host_task t = (\<lambda>(fds, w). case t w of (c, w') \<Rightarrow> (c, (fds, w')))"

definition open_scoped :: "int + int \<Rightarrow> string \<Rightarrow> (int \<Rightarrow> ('w host, 'a) task) \<Rightarrow> ('w host, 'a) task" where
  "open_scoped opened what scope = (case opened of
       Inl errno \<Rightarrow> throw (SystemError errno what)
     | Inr fd \<Rightarrow> (\<lambda>(fds, w). run_deferred (\<lambda>(fds', w'). (remove1 fd fds', w')) (scope fd) (fd # fds, w)))"

text \<open>
  \<^verbatim>\<open>main\<close> with the answer of opening the control device and the loop it creates: the return value,
  \<open>None\<close> for a command with an indeterminate member, and the world with what was printed. A stopped
  command makes \<^verbatim>\<open>sync_wait\<close> return nothing, which is ignored.
\<close>

fun exit_code :: "(exn, unit) outcome \<Rightarrow> int" where
  "exit_code (Value _) = 0"
| "exit_code Stopped = 0"
| "exit_code (Error (SystemError ec what)) = ec"
| "exit_code (Error _) = 1"

definition ctl_scope :: "'w kernel \<Rightarrow> 'r runtime_ops \<Rightarrow> int + int \<Rightarrow> exn + string list \<Rightarrow> Cmd \<Rightarrow> ('w host, unit) task" where
  "ctl_scope K R opened dir cmd =
     open_scoped opened ''open /dev/ublk-control'' (\<lambda>ctrl_fd.
     case IoLoop R \<lparr>lo_sq_size = 0, lo_cq_size = 0, lo_attach_wq = False\<rparr> 0 0 0 of
       Inl e \<Rightarrow> throw e
     | Inr loop \<Rightarrow> host_task (run_cmd K dir ctrl_fd cmd))"

definition ctl_main ::
  "'w kernel \<Rightarrow> 'r runtime_ops \<Rightarrow> cli \<Rightarrow> string list \<Rightarrow> int + int \<Rightarrow> exn + string list \<Rightarrow> 'w host \<Rightarrow> int option \<times> 'w host" where
  "ctl_main K R cli argv opened dir w = (case parse_args cli argv of
       ParseExit status \<Rightarrow> (Some status, w)
     | ParseThrow e \<Rightarrow> (Some (exit_code (Error e)), w)
     | ParseIndeterminate \<Rightarrow> (None, w)
     | ParseCmd cmd \<Rightarrow> (case ctl_scope K R opened dir cmd w of (c, w') \<Rightarrow> (Some (exit_code c), w')))"

section \<open>Words of the output\<close>

text \<open>Splitting a string at its spaces; the empty string has no words.\<close>

fun split_sp :: "string \<Rightarrow> string list" where
  "split_sp [] = [[]]"
| "split_sp (c # s) = (if c = CHR '' '' then [] # split_sp s else (c # hd (split_sp s)) # tl (split_sp s))"

definition words :: "string \<Rightarrow> string list" where
  "words s = (if s = [] then [] else split_sp s)"

definition is_word :: "string \<Rightarrow> bool" where
  "is_word w \<longleftrightarrow> w \<noteq> [] \<and> CHR '' '' \<notin> set w"

lemma split_sp_nonempty [simp]: "split_sp s \<noteq> []"
  by (cases s) auto

lemma split_sp_append: "split_sp (s @ CHR '' '' # t) = split_sp s @ split_sp t"
  by (induction s) (auto simp: hd_append)

lemma split_sp_word: "CHR '' '' \<notin> set w \<Longrightarrow> split_sp w = [w]"
  by (induction w) auto

lemma words_add_word: "is_word w \<Longrightarrow> words (add_word s w) = words s @ [w]"
  by (auto simp: words_def add_word_def is_word_def split_sp_append split_sp_word)

subsection \<open>Flags\<close>

lemma words_flags:
  assumes "list_all (\<lambda>(flag, name, short_name). is_word name) T"
  shows "words (foldl (\<lambda>s (flag, name, short_name). if has_flag flags flag then add_word s name else s) s T) =
    words s @ map (fst \<circ> snd) (filter (\<lambda>e. has_flag flags (fst e)) T)"
  using assms by (induction T arbitrary: s) (auto simp: words_add_word)

lemma flag_table_flags: "map fst FLAG_TABLE = map (\<lambda>k. push_bit k 1) [0..<20]"
  by (simp add: FLAG_TABLE_def flag_consts upt_rec [of _ 20] eval_nat_numeral)

lemma flag_table_names:
  "list_all (\<lambda>(flag, name, short_name). is_word name) FLAG_TABLE" "distinct (map (fst \<circ> snd) FLAG_TABLE)"
  by (simp_all add: FLAG_TABLE_def is_word_def)

lemma flag_table_nth: "k < 20 \<Longrightarrow> fst (FLAG_TABLE ! k) = push_bit k 1" and flag_table_length: "length FLAG_TABLE = 20"
proof -
  show len: "length FLAG_TABLE = 20" using arg_cong [OF flag_table_flags, of length] by simp
  show "fst (FLAG_TABLE ! k) = push_bit k 1" if "k < 20"
    using arg_cong [OF flag_table_flags, of "\<lambda>xs. xs ! k"] that len by simp
qed

lemma filter_eq_iff: "filter P xs = filter Q xs \<longleftrightarrow> (\<forall>x \<in> set xs. P x = Q x)"
proof
  assume "filter P xs = filter Q xs"
  then have "set (filter P xs) = set (filter Q xs)" by simp
  then show "\<forall>x \<in> set xs. P x = Q x" by auto
qed (auto intro: filter_cong)

lemma filter_flags_eq:
  "filter (\<lambda>e. has_flag f (fst e)) FLAG_TABLE = filter (\<lambda>e. has_flag g (fst e)) FLAG_TABLE \<longleftrightarrow>
   (\<forall>k < 20. bit f k = bit g k)"
proof -
  have h: "has_flag w (fst (FLAG_TABLE ! k)) \<longleftrightarrow> bit w k" if "k < 20" for w k
    unfolding flag_table_nth [OF that] by (rule has_flag_bit)
  have "filter (\<lambda>e. has_flag f (fst e)) FLAG_TABLE = filter (\<lambda>e. has_flag g (fst e)) FLAG_TABLE \<longleftrightarrow>
      (\<forall>e \<in> set FLAG_TABLE. has_flag f (fst e) = has_flag g (fst e))"
    by (rule filter_eq_iff)
  also have "\<dots> \<longleftrightarrow> (\<forall>k < 20. has_flag f (fst (FLAG_TABLE ! k)) = has_flag g (fst (FLAG_TABLE ! k)))"
    by (simp add: all_set_conv_all_nth flag_table_length)
  finally show ?thesis using h by simp
qed

text \<open>
  C33. The flags that \<^verbatim>\<open>ublkctl\<close> prints are exactly the known flags that are set, in the order of
  their bits and separated by single spaces, so that the text determines the lowest 20 bits of
  the flag word and nothing else: two flag words are printed alike if and only if they agree on
  these bits.
\<close>

theorem flags_str_faithful:
  "words (flags_str f) = map (fst \<circ> snd) (filter (\<lambda>e. has_flag f (fst e)) FLAG_TABLE) \<and>
   (flags_str f = flags_str g \<longleftrightarrow> take_bit 20 f = take_bit 20 g)"
proof -
  have w: "words (flags_str f) = map (fst \<circ> snd) (filter (\<lambda>e. has_flag f (fst e)) FLAG_TABLE)" for f
    using words_flags [OF flag_table_names(1), of f "[]"] by (simp add: flags_str_def words_def)
  have inj: "inj_on (fst \<circ> snd) (set FLAG_TABLE)" using flag_table_names(2) by (simp add: distinct_map)
  have "flags_str f = flags_str g \<longleftrightarrow>
      filter (\<lambda>e. has_flag f (fst e)) FLAG_TABLE = filter (\<lambda>e. has_flag g (fst e)) FLAG_TABLE"
  proof
    assume "flags_str f = flags_str g"
    with w have "map (fst \<circ> snd) (filter (\<lambda>e. has_flag f (fst e)) FLAG_TABLE) =
        map (fst \<circ> snd) (filter (\<lambda>e. has_flag g (fst e)) FLAG_TABLE)" by metis
    then show "filter (\<lambda>e. has_flag f (fst e)) FLAG_TABLE = filter (\<lambda>e. has_flag g (fst e)) FLAG_TABLE"
      by (rule map_inj_on) (rule inj_on_subset [OF inj], auto)
  next
    have fold: "foldl (\<lambda>s (flag, name, short_name). if has_flag f flag then add_word s name else s) s T =
        foldl (\<lambda>s (flag, name, short_name). add_word s name) s (filter (\<lambda>e. has_flag f (fst e)) T)" for f s T
      by (induction T arbitrary: s) auto
    assume "filter (\<lambda>e. has_flag f (fst e)) FLAG_TABLE = filter (\<lambda>e. has_flag g (fst e)) FLAG_TABLE"
    then show "flags_str f = flags_str g" by (simp add: flags_str_def fold)
  qed
  also have "\<dots> \<longleftrightarrow> (\<forall>k < 20. bit f k = bit g k)" by (rule filter_flags_eq)
  also have "\<dots> \<longleftrightarrow> take_bit 20 f = take_bit 20 g"
  proof
    assume "take_bit 20 f = take_bit 20 g"
    then have "bit (take_bit 20 f) k = bit (take_bit 20 g) k" for k by simp
    then show "\<forall>k < 20. bit f k = bit g k" by (simp add: bit_take_bit_iff) blast
  qed (auto simp: bit_eq_iff bit_take_bit_iff)
  finally show ?thesis using w [of f] by blast
qed

subsection \<open>CPU sets\<close>

text \<open>
  The reference: a set of CPUs is written as its maximal runs of consecutive numbers, found by
  grouping the ascending list of its members.
\<close>

fun runs :: "nat list \<Rightarrow> (nat \<times> nat) list" where
  "runs [] = []"
| "runs (x # xs) = (case runs xs of
       (a, b) # rs \<Rightarrow> if a = Suc x then (x, b) # rs else (x, x) # (a, b) # rs
     | [] \<Rightarrow> [(x, x)])"

definition members :: "cpu_set_t \<Rightarrow> nat list" where
  "members cpuset = filter (bit cpuset) [0..<CPU_SETSIZE]"

definition cpu_ref :: "cpu_set_t \<Rightarrow> string" where
  "cpu_ref cpuset = foldl (\<lambda>s (lo, hi). add_word s (range_str lo hi)) [] (runs (members cpuset))"

lemma runs_Cons: "xs \<noteq> [] \<Longrightarrow> \<exists>b rs. runs xs = (hd xs, b) # rs"
  by (cases xs) (auto split: list.splits)

lemma upt_Cons_filter:
  "i < n \<Longrightarrow> filter P [i..<n] = (if P i then i # filter P [Suc i..<n] else filter P [Suc i..<n])"
  by (simp add: upt_conv_Cons)

lemma runs_run_end:
  assumes "i < CPU_SETSIZE" and "bit cpuset i"
  shows "runs (filter (bit cpuset) [i..<CPU_SETSIZE]) =
    (i, run_end cpuset i - 1) # runs (filter (bit cpuset) [run_end cpuset i..<CPU_SETSIZE])"
  using assms
proof (induction cpuset i rule: run_end.induct)
  case (1 cpuset i)
  let ?f = "\<lambda>i. filter (bit cpuset) [i..<CPU_SETSIZE]"
  have f: "?f i = i # ?f (Suc i)" using "1.prems" by (simp add: upt_Cons_filter)
  show ?case
  proof (cases "i + 1 < CPU_SETSIZE \<and> bit cpuset (i + 1)")
    case True
    then have "run_end cpuset i = run_end cpuset (Suc i)" by (subst run_end.simps) (simp add: Let_def)
    with 1 True f show ?thesis by simp
  next
    case False
    then have e: "run_end cpuset i = Suc i" by (auto simp: run_end.simps [of cpuset i] Let_def)
    have "\<forall>x \<in> set (?f (Suc i)). x \<noteq> Suc i" using False by auto
    then have "runs (i # ?f (Suc i)) = (i, i) # runs (?f (Suc i))"
      using runs_Cons [of "?f (Suc i)"] hd_in_set [of "?f (Suc i)"]
      by (cases "?f (Suc i) = []") (auto split: list.splits)
    with e f show ?thesis by simp
  qed
qed

lemma cpu_loop_runs:
  "cpu_loop cpuset i s =
     foldl (\<lambda>s (lo, hi). add_word s (range_str lo hi)) s (runs (filter (bit cpuset) [i..<CPU_SETSIZE]))"
proof (induction cpuset i s rule: cpu_loop.induct)
  case (1 cpuset i s)
  then show ?case
    by (cases "i < CPU_SETSIZE"; cases "bit cpuset i")
      (simp_all add: cpu_loop.simps [of cpuset i] runs_run_end, simp add: upt_Cons_filter)
qed

text \<open>
  C32. The two nested scanning loops of \<^verbatim>\<open>cpu_str\<close> compute the reference: for every
  CPU set they print the maximal runs of its members, ascending and separated by
  single spaces.
\<close>

theorem cpu_str_equivalent: "cpu_str cpuset = cpu_ref cpuset"
  by (simp add: cpu_str_def cpu_ref_def members_def cpu_loop_runs)

text \<open>Reading a CPU list back: the words, each a number or two numbers with a dash.\<close>

definition parse_range :: "string \<Rightarrow> nat \<times> nat" where
  "parse_range w =
     (let lo = takeWhile (\<lambda>c. c \<noteq> CHR ''-'') w; rest = dropWhile (\<lambda>c. c \<noteq> CHR ''-'') w
      in (parse_dec lo, parse_dec (if rest = [] then lo else tl rest)))"

definition parse_cpus :: "string \<Rightarrow> nat set" where
  "parse_cpus s = (\<Union>w \<in> set (words s). case parse_range w of (lo, hi) \<Rightarrow> {lo..hi})"

lemma dec_str_digits: "c \<in> set (dec_str n) \<Longrightarrow> is_digit c"
proof (induction n rule: dec_str.induct)
  case (1 n)
  then show ?case
    by (cases "n < 10") (auto simp: dec_str.simps [of n] is_digit_def)
qed

lemma dec_str_nonempty [simp]: "dec_str n \<noteq> []"
  by (simp add: dec_str.simps [of n])

lemma digit_plain: "is_digit c \<Longrightarrow> c \<noteq> CHR '' '' \<and> c \<noteq> CHR ''-''"
  by (auto simp: is_digit_def)

lemma range_str_word: "is_word (range_str lo hi)"
  by (auto simp: is_word_def range_str_def dest!: dec_str_digits digit_plain)

lemma parse_range_str: "lo \<le> hi \<Longrightarrow> parse_range (range_str lo hi) = (lo, hi)"
proof -
  assume "lo \<le> hi"
  have d: "\<forall>c \<in> set (dec_str n). c \<noteq> CHR ''-''" for n by (auto dest: dec_str_digits digit_plain)
  show ?thesis
  proof (cases "hi > lo")
    case True
    with d [of lo] show ?thesis
      by (simp add: parse_range_def range_str_def Let_def parse_dec_str takeWhile_append2 dropWhile_append2)
  next
    case False
    with d [of lo] \<open>lo \<le> hi\<close> show ?thesis
      by (simp add: parse_range_def range_str_def Let_def parse_dec_str takeWhile_eq_all_conv [THEN iffD2]
          dropWhile_eq_Nil_conv [THEN iffD2])
  qed
qed

lemma runs_denote: "(\<Union>(lo, hi) \<in> set (runs xs). {lo..hi}) = set xs" and runs_order: "\<forall>(lo, hi) \<in> set (runs xs). lo \<le> hi"
proof -
  have "(\<Union>(lo, hi) \<in> set (runs xs). {lo..hi}) = set xs \<and> (\<forall>(lo, hi) \<in> set (runs xs). lo \<le> hi)"
  proof (induction xs)
    case (Cons x xs)
    show ?case
    proof (cases "runs xs")
      case Nil
      with Cons show ?thesis by simp
    next
      case (Cons r rs)
      obtain a b where r: "r = (a, b)" by fastforce
      have m: "{x..b} = insert x {Suc x..b}" if "Suc x \<le> b" using that by auto
      show ?thesis
        using \<open>(\<Union>(lo, hi) \<in> set (runs xs). {lo..hi}) = set xs \<and> (\<forall>(lo, hi) \<in> set (runs xs). lo \<le> hi)\<close> Cons r m
        by auto
    qed
  qed simp
  then show "(\<Union>(lo, hi) \<in> set (runs xs). {lo..hi}) = set xs" "\<forall>(lo, hi) \<in> set (runs xs). lo \<le> hi" by auto
qed

lemma words_cpu_str: "words (cpu_str cpuset) = map (\<lambda>(lo, hi). range_str lo hi) (runs (members cpuset))"
proof -
  have "words (foldl (\<lambda>s (lo, hi). add_word s (range_str lo hi)) s rs) =
      words s @ map (\<lambda>(lo, hi). range_str lo hi) rs" for s rs
    by (induction rs arbitrary: s) (auto simp: words_add_word range_str_word)
  then show ?thesis by (simp add: cpu_str_def cpu_loop_runs members_def words_def)
qed

lemma parse_cpu_str: "parse_cpus (cpu_str cpuset) = {i. bit cpuset i}"
proof -
  have "parse_cpus (cpu_str cpuset) = (\<Union>r \<in> set (runs (members cpuset)). case r of (lo, hi) \<Rightarrow> {lo..hi})"
    unfolding parse_cpus_def words_cpu_str set_map image_image
    using runs_order [of "members cpuset"] by (intro SUP_cong) (auto simp: parse_range_str)
  also have "\<dots> = set (members cpuset)" by (rule runs_denote)
  also have "\<dots> = {i. bit cpuset i}"
    using bit_imp_le_length [of cpuset] by (fastforce simp: members_def CPU_SETSIZE_def)
  finally show ?thesis .
qed

text \<open>
  The printed CPU list loses nothing: reading it back gives exactly the CPUs of the set, so
  that different sets are printed differently.
\<close>

theorem cpu_str_roundtrip:
  "parse_cpus (cpu_str cpuset) = {i. bit cpuset i} \<and> (cpu_str cpuset = cpu_str cpuset' \<longleftrightarrow> cpuset = cpuset')"
proof -
  have "cpuset = cpuset'" if "cpu_str cpuset = cpu_str cpuset'"
  proof -
    have "{i. bit cpuset i} = {i. bit cpuset' i}" using that parse_cpu_str by metis
    then show ?thesis by (auto intro: bit_word_eqI)
  qed
  then show ?thesis using parse_cpu_str by blast
qed

section \<open>What the commands send\<close>

text \<open>
  The control command behind each command that changes the life cycle of a device, with its inline
  data; the others query and print.
\<close>

fun lifecycle_command :: "Cmd \<Rightarrow> (u32 \<times> u32 \<times> u64) option" where
  "lifecycle_command (CmdDel dev_id async) =
     Some (dev_id, if async then UBLK_U_CMD_DEL_DEV_ASYNC else UBLK_U_CMD_DEL_DEV, 0)"
| "lifecycle_command (CmdStart dev_id pid) = Some (dev_id, UBLK_U_CMD_START_DEV, of_int pid)"
| "lifecycle_command (CmdStop dev_id try_stop) =
     Some (dev_id, if try_stop then UBLK_U_CMD_TRY_STOP_DEV else UBLK_U_CMD_STOP_DEV, 0)"
| "lifecycle_command (CmdStartRecovery dev_id) = Some (dev_id, UBLK_U_CMD_START_USER_RECOVERY, 0)"
| "lifecycle_command (CmdRecover dev_id pid) = Some (dev_id, UBLK_U_CMD_END_USER_RECOVERY, of_int pid)"
| "lifecycle_command (CmdQuiesce dev_id timeout_ms) = Some (dev_id, UBLK_U_CMD_QUIESCE_DEV, timeout_ms)"
| "lifecycle_command _ = None"

lemma lifecycle_fetched:
  assumes "cached_get_dev_info K (TaskEnv NoQuery) fd dev_id zero_info w = (Value info, w')" and "di_dev_id info = dev_id"
    and "lifecycle_command cmd = Some (dev_id, op, data0)"
  shows "run_cmd K dir fd cmd (w, out) = (case send_path K info fd op data0 w' of (c, w'') \<Rightarrow> (c, (w'', out)))"
proof -
  note fetched =
    del_dev.with_dev_path_fetched [OF assms(1,2)] start_dev.with_dev_path_fetched [OF assms(1,2)]
    stop_dev.with_dev_path_fetched [OF assms(1,2)] start_user_recovery.with_dev_path_fetched [OF assms(1,2)]
    end_user_recovery.with_dev_path_fetched [OF assms(1,2)] del_dev_async.with_dev_path_fetched [OF assms(1,2)]
    quiesce_dev.with_dev_path_fetched [OF assms(1,2)] try_stop_dev.with_dev_path_fetched [OF assms(1,2)]
  show ?thesis
    using assms(3)
    by (cases cmd rule: lifecycle_command.cases)
      (auto simp del: TaskEnv.simps simp: kernel_call_def send_path_def path_operation_defs fetched)
qed

lemma lifecycle_ops_ne:
  assumes "lifecycle_command cmd = Some (dev_id, op, data0)"
  shows "op \<noteq> UBLK_U_CMD_ADD_DEV \<and> op \<noteq> UBLK_U_CMD_GET_DEV_INFO2"
  using assms
  by (cases cmd rule: lifecycle_command.cases) (auto simp: consts_simps command_numbers split: if_splits)

text \<open>
  C37. A life cycle command of the tool (delete, start, stop, start recovery, recover, quiesce)
  issued for a device the driver knows first queries the device of its options and then sends exactly
  the one control command that belongs to it, with the number of the device, the process id or
  timeout of its options as inline data, and the path of an unprivileged device; it prints nothing,
  the tool exits with status 0 and the control device is closed again.
\<close>

theorem ctl_lifecycle_commands:
  assumes "knows_device i drv" and "parse_args cli argv = ParseCmd cmd"
    and "lifecycle_command cmd = Some (di_dev_id i, op, data0)"
    and "IoLoop R \<lparr>lo_sq_size = 0, lo_cq_size = 0, lo_attach_wq = False\<rparr> 0 0 0 = Inr loop"
  shows "ctl_main (logging drv) R cli argv (Inr fd) dir (fds, ([], [])) =
    (Some 0, (fds, ([info_sqe fd (di_dev_id i), path_sqe i fd op data0], [])))"
proof -
  have "cached_get_dev_info (logging drv) (TaskEnv NoQuery) fd (di_dev_id i) zero_info [] =
      (Value i, [info_sqe fd (di_dev_id i)])"
    using knows_device_get_dev_info [OF assms(1), of fd "di_dev_id i" zero_info "[]"]
    by (simp add: cached_get_dev_info_def)
  from lifecycle_fetched [OF this refl assms(3), of dir "[]"]
    knows_device_send_path [OF assms(1), of op i fd data0] lifecycle_ops_ne [OF assms(3)] assms(2,4)
  show ?thesis by (simp add: ctl_main_def ctl_scope_def open_scoped_def host_task_def run_deferred_def)
qed

theorem ctl_lifecycle_commands_witness:
  "ctl_main (logging quiesced_driver) table_runtime (\<lambda>_ _ _. Inr ([''quiesce''], [(QuiesceDevId, 0), (QuiesceTimeout, 5000)]))
     [''quiesce'', ''-n'', ''0'', ''5000''] (Inr 3) (Inr []) ([], ([], [])) =
     (Some 0, ([], ([info_sqe 3 0, path_sqe (zero_info\<lparr>di_state := 2, di_flags := 8\<rparr>) 3 UBLK_U_CMD_QUIESCE_DEV 5000], [])))"
  (is "ctl_main _ _ ?cli ?argv _ _ _ = _")
proof -
  have k: "knows_device (zero_info\<lparr>di_state := 2, di_flags := 8\<rparr>) quiesced_driver"
    by (simp add: knows_device_def quiesced_driver_def)
  have p: "parse_args ?cli ?argv = ParseCmd (CmdQuiesce 0 5000)"
    by (simp add: parse_args_def select_cmd_def store_options_def with_both_def)
  have l: "lifecycle_command (CmdQuiesce 0 5000) =
      Some (di_dev_id (zero_info\<lparr>di_state := 2, di_flags := 8\<rparr>), UBLK_U_CMD_QUIESCE_DEV, 5000)"
    by (simp add: zero_info_def)
  have "\<exists>loop. IoLoop table_runtime \<lparr>lo_sq_size = 0, lo_cq_size = 0, lo_attach_wq = False\<rparr> 0 0 0 = Inr loop"
    by (simp add: IoLoop_def table_runtime_def)
  then show ?thesis using ctl_lifecycle_commands [OF k p l, of table_runtime _ 3 "Inr []" "[]"] by (auto simp: zero_info_def)
qed

subsection \<open>The command line\<close>

text \<open>
  A member without an initialiser: it holds the last value stored into it, and nothing else
  changes it. One interpretation per member.
\<close>

locale option_member =
  fixes target :: opt_target and member :: "cmd_opts \<Rightarrow> 'a option" and conv :: "int \<Rightarrow> 'a"
  assumes unset: "member default_opts = None"
    and stored: "member (store_option target v opts) = Some (conv v)"
    and kept: "t \<noteq> target \<Longrightarrow> member (store_option t v opts) = member opts"
begin

lemma member_given: "target \<in> fst ` set stores \<Longrightarrow>
  \<exists>v. (target, v) \<in> set stores \<and> member (store_options stores) = Some (conv v)"
proof (induction stores rule: rev_induct)
  case (snoc s stores)
  obtain t v where s: "s = (t, v)" by (cases s)
  show ?case
  proof (cases "t = target")
    case True
    then show ?thesis using s by (auto simp: store_options_def stored)
  next
    case False
    with snoc s show ?thesis by (auto simp: store_options_def kept)
  qed
qed simp

lemma member_not_given: "target \<notin> fst ` set stores \<Longrightarrow> member (store_options stores) = None"
  by (induction stores rule: rev_induct) (auto simp: store_options_def unset kept)

end

lemma store_keeps:
  "t \<noteq> DelDevId \<Longrightarrow> op_del_dev_id (store_option t v opts) = op_del_dev_id opts"
  "t \<noteq> StartDevId \<Longrightarrow> op_start_dev_id (store_option t v opts) = op_start_dev_id opts"
  "t \<noteq> StartPid \<Longrightarrow> op_start_pid (store_option t v opts) = op_start_pid opts"
  "t \<noteq> StopDevId \<Longrightarrow> op_stop_dev_id (store_option t v opts) = op_stop_dev_id opts"
  "t \<noteq> GetDevId \<Longrightarrow> op_get_dev_id (store_option t v opts) = op_get_dev_id opts"
  "t \<noteq> StartRecoveryDevId \<Longrightarrow> op_start_recovery_dev_id (store_option t v opts) = op_start_recovery_dev_id opts"
  "t \<noteq> RecoverDevId \<Longrightarrow> op_recover_dev_id (store_option t v opts) = op_recover_dev_id opts"
  "t \<noteq> RecoverPid \<Longrightarrow> op_recover_pid (store_option t v opts) = op_recover_pid opts"
  "t \<noteq> QuiesceDevId \<Longrightarrow> op_quiesce_dev_id (store_option t v opts) = op_quiesce_dev_id opts"
  "t \<noteq> QuiesceTimeout \<Longrightarrow> op_quiesce_timeout_ms (store_option t v opts) = op_quiesce_timeout_ms opts"
  by (cases t; simp)+

interpretation del_dev_id: option_member DelDevId op_del_dev_id of_int
  by unfold_locales (simp_all add: default_opts_def store_keeps)

interpretation start_dev_id: option_member StartDevId op_start_dev_id of_int
  by unfold_locales (simp_all add: default_opts_def store_keeps)

interpretation start_pid: option_member StartPid op_start_pid "\<lambda>v. v"
  by unfold_locales (simp_all add: default_opts_def store_keeps)

interpretation stop_dev_id: option_member StopDevId op_stop_dev_id of_int
  by unfold_locales (simp_all add: default_opts_def store_keeps)

interpretation get_dev_id: option_member GetDevId op_get_dev_id of_int
  by unfold_locales (simp_all add: default_opts_def store_keeps)

interpretation start_recovery_dev_id: option_member StartRecoveryDevId op_start_recovery_dev_id of_int
  by unfold_locales (simp_all add: default_opts_def store_keeps)

interpretation recover_dev_id: option_member RecoverDevId op_recover_dev_id of_int
  by unfold_locales (simp_all add: default_opts_def store_keeps)

interpretation recover_pid: option_member RecoverPid op_recover_pid "\<lambda>v. v"
  by unfold_locales (simp_all add: default_opts_def store_keeps)

interpretation quiesce_dev_id: option_member QuiesceDevId op_quiesce_dev_id of_int
  by unfold_locales (simp_all add: default_opts_def store_keeps)

interpretation quiesce_timeout_ms: option_member QuiesceTimeout op_quiesce_timeout_ms of_int
  by unfold_locales (simp_all add: default_opts_def store_keeps)

lemmas members_given =
  del_dev_id.member_given start_dev_id.member_given start_pid.member_given stop_dev_id.member_given
  get_dev_id.member_given start_recovery_dev_id.member_given recover_dev_id.member_given
  recover_pid.member_given quiesce_dev_id.member_given quiesce_timeout_ms.member_given

text \<open>The feature flags that the callbacks add.\<close>

definition flags_given :: "(opt_target \<times> int) list \<Rightarrow> u64" where
  "flags_given stores = foldl (\<lambda>w (t, v). case t of AddFlags f \<Rightarrow> w OR f | _ \<Rightarrow> w) 0 stores"

lemma store_flags: "ac_flags (op_add (store_options stores)) = flags_given stores"
proof (induction stores rule: rev_induct)
  case (snoc s stores)
  obtain t v where "s = (t, v)" by (cases s)
  with snoc show ?case by (cases t) (simp_all add: store_options_def flags_given_def)
qed (simp add: store_options_def flags_given_def default_opts_def default_AddCmd_def)

text \<open>
  What CLI11 guarantees when it accepts a command line: \<^verbatim>\<open>require_subcommand()\<close> asks for at least one of
  the registered subcommands, and a required option of a subcommand that was given has a value.
\<close>

definition cli_accepts :: "string list \<Rightarrow> (opt_target \<times> int) list \<Rightarrow> bool" where
  "cli_accepts got stores \<longleftrightarrow> got \<noteq> [] \<and> set got \<subseteq> set cli_subcommands \<and>
     list_all (\<lambda>opt. co_required opt \<and> co_subcommand opt \<in> set got \<longrightarrow> co_target opt \<in> fst ` set stores) cli_options"

text \<open>The subcommand of a command, and that its members are those given on the command line.\<close>

fun subcommand_of :: "Cmd \<Rightarrow> string" where
  "subcommand_of (CmdAdd _) = ''add''"
| "subcommand_of (CmdDel _ _) = ''del''"
| "subcommand_of (CmdStart _ _) = ''start''"
| "subcommand_of (CmdStop _ _) = ''stop''"
| "subcommand_of CmdList = ''list''"
| "subcommand_of (CmdGet _) = ''get''"
| "subcommand_of (CmdStartRecovery _) = ''start-recovery''"
| "subcommand_of (CmdRecover _ _) = ''recover''"
| "subcommand_of CmdFeatures = ''features''"
| "subcommand_of (CmdQuiesce _ _) = ''quiesce''"

definition given :: "(opt_target \<times> int) list \<Rightarrow> opt_target \<Rightarrow> (int \<Rightarrow> bool) \<Rightarrow> bool" where
  "given stores t P \<longleftrightarrow> list_ex (\<lambda>(t', v). t' = t \<and> P v) stores"

fun members_from :: "(opt_target \<times> int) list \<Rightarrow> Cmd \<Rightarrow> bool" where
  "members_from st (CmdAdd c) \<longleftrightarrow> ac_flags c = flags_given st"
| "members_from st (CmdDel d _) \<longleftrightarrow> given st DelDevId (\<lambda>v. d = of_int v)"
| "members_from st (CmdStart d pid) \<longleftrightarrow> given st StartDevId (\<lambda>v. d = of_int v) \<and> given st StartPid (\<lambda>v. pid = v)"
| "members_from st (CmdStop d _) \<longleftrightarrow> given st StopDevId (\<lambda>v. d = of_int v)"
| "members_from st (CmdGet d) \<longleftrightarrow> given st GetDevId (\<lambda>v. d = of_int v)"
| "members_from st (CmdStartRecovery d) \<longleftrightarrow> given st StartRecoveryDevId (\<lambda>v. d = of_int v)"
| "members_from st (CmdRecover d pid) \<longleftrightarrow> given st RecoverDevId (\<lambda>v. d = of_int v) \<and> given st RecoverPid (\<lambda>v. pid = v)"
| "members_from st (CmdQuiesce d ms) \<longleftrightarrow> given st QuiesceDevId (\<lambda>v. d = of_int v) \<and> given st QuiesceTimeout (\<lambda>v. ms = of_int v)"
| "members_from st _ \<longleftrightarrow> True"

lemma givenI: "(t, v) \<in> set stores \<Longrightarrow> P v \<Longrightarrow> given stores t P"
  by (auto simp: given_def list_ex_iff)

text \<open>The chain of \<^verbatim>\<open>got_subcommand\<close> tests selects the first of the registered subcommands that was given.\<close>

definition cmd_for :: "cmd_opts \<Rightarrow> string \<Rightarrow> Cmd option" where
  "cmd_for opts c =
     (if c = ''add'' then Some (CmdAdd (op_add opts))
      else if c = ''del'' then map_option (\<lambda>d. CmdDel d (op_del_async opts)) (op_del_dev_id opts)
      else if c = ''start'' then with_both CmdStart (op_start_dev_id opts) (op_start_pid opts)
      else if c = ''stop'' then map_option (\<lambda>d. CmdStop d (op_stop_try opts)) (op_stop_dev_id opts)
      else if c = ''list'' then Some CmdList
      else if c = ''get'' then map_option CmdGet (op_get_dev_id opts)
      else if c = ''start-recovery'' then map_option CmdStartRecovery (op_start_recovery_dev_id opts)
      else if c = ''recover'' then with_both CmdRecover (op_recover_dev_id opts) (op_recover_pid opts)
      else if c = ''features'' then Some CmdFeatures
      else with_both CmdQuiesce (op_quiesce_dev_id opts) (op_quiesce_timeout_ms opts))"

lemma select_first:
  "select_cmd got opts = (case find got cli_subcommands of
     None \<Rightarrow> Inl (RuntimeError ''unhandled subcommand'') | Some c \<Rightarrow> Inr (cmd_for opts c))"
  by (simp add: select_cmd_def cmd_for_def cli_subcommands_def)

lemma cmd_for_given:
  assumes "cli_accepts got stores" and "c \<in> set got" and "c \<in> set cli_subcommands"
  shows "\<exists>cmd. cmd_for (store_options stores) c = Some cmd \<and> subcommand_of cmd = c \<and> members_from stores cmd"
proof -
  let ?opts = "store_options stores" and ?given = "\<lambda>t P. \<exists>v. (t, v) \<in> set stores \<and> P v"
  have required: "''del'' \<in> set got \<Longrightarrow> ?given DelDevId (\<lambda>v. op_del_dev_id ?opts = Some (of_int v))"
    "''start'' \<in> set got \<Longrightarrow> ?given StartDevId (\<lambda>v. op_start_dev_id ?opts = Some (of_int v))"
    "''start'' \<in> set got \<Longrightarrow> ?given StartPid (\<lambda>v. op_start_pid ?opts = Some v)"
    "''stop'' \<in> set got \<Longrightarrow> ?given StopDevId (\<lambda>v. op_stop_dev_id ?opts = Some (of_int v))"
    "''get'' \<in> set got \<Longrightarrow> ?given GetDevId (\<lambda>v. op_get_dev_id ?opts = Some (of_int v))"
    "''start-recovery'' \<in> set got \<Longrightarrow> ?given StartRecoveryDevId (\<lambda>v. op_start_recovery_dev_id ?opts = Some (of_int v))"
    "''recover'' \<in> set got \<Longrightarrow> ?given RecoverDevId (\<lambda>v. op_recover_dev_id ?opts = Some (of_int v))"
    "''recover'' \<in> set got \<Longrightarrow> ?given RecoverPid (\<lambda>v. op_recover_pid ?opts = Some v)"
    "''quiesce'' \<in> set got \<Longrightarrow> ?given QuiesceDevId (\<lambda>v. op_quiesce_dev_id ?opts = Some (of_int v))"
    "''quiesce'' \<in> set got \<Longrightarrow> ?given QuiesceTimeout (\<lambda>v. op_quiesce_timeout_ms ?opts = Some (of_int v))"
    by (rule members_given, use assms(1) in \<open>simp add: cli_accepts_def cli_options_def add_options_def\<close>)+
  have "c = ''add'' \<or> c = ''del'' \<or> c = ''start'' \<or> c = ''stop'' \<or> c = ''list'' \<or> c = ''get'' \<or> c = ''start-recovery'' \<or>
      c = ''recover'' \<or> c = ''features'' \<or> c = ''quiesce''"
    using assms(3) by (simp add: cli_subcommands_def)
  then show ?thesis
    using assms(2) required(3,8,10)
    by (elim disjE) (auto simp: cmd_for_def with_both_def store_flags intro: givenI dest!: required(1,2,4-7,9))
qed

text \<open>
  C31. On a command line that CLI11 accepts, \<^verbatim>\<open>parse_args\<close> returns a command, which is that of the first
  subcommand, in the order of the registration, that was given; no member of it is left
  uninitialised: its identifiers, process numbers and times are values given on the command line,
  and the flags of \<^verbatim>\<open>add\<close> are exactly those whose options were given. It never reaches the
  exception for an unhandled subcommand.
\<close>

theorem parse_args_complete:
  assumes "cli cli_subcommands cli_options argv = Inr (got, stores)" and "cli_accepts got stores"
  shows "\<exists>cmd. parse_args cli argv = ParseCmd cmd \<and>
    find (\<lambda>c. c \<in> set got) cli_subcommands = Some (subcommand_of cmd) \<and> members_from stores cmd"
proof -
  have "\<exists>c. c \<in> set got \<and> c \<in> set cli_subcommands" using assms(2) by (cases got) (auto simp: cli_accepts_def)
  then obtain c where c: "find (\<lambda>c. c \<in> set got) cli_subcommands = Some c"
    by (cases "find (\<lambda>c. c \<in> set got) cli_subcommands") (auto simp: find_None_iff)
  then have "c \<in> set got" "c \<in> set cli_subcommands" by (auto simp: find_Some_iff)
  from cmd_for_given [OF assms(2) this] c assms(1) show ?thesis by (auto simp: parse_args_def select_first)
qed

theorem parse_args_complete_witness:
  "\<exists>cmd. parse_args (\<lambda>_ _ argv. if argv = [''start'', ''-n'', ''3'', ''--pid'', ''77'']
     then Inr ([''start''], [(StartDevId, 3), (StartPid, 77)]) else Inl 106) [''start'', ''-n'', ''3'', ''--pid'', ''77''] = ParseCmd cmd \<and>
     subcommand_of cmd = ''start''"
  (is "\<exists>cmd. parse_args ?cli ?argv = _ \<and> _")
proof -
  have c: "?cli cli_subcommands cli_options ?argv = Inr ([''start''], [(StartDevId, 3), (StartPid, 77)])" by simp
  have "cli_accepts [''start''] [(StartDevId, 3), (StartPid, 77)]"
    by (simp add: cli_accepts_def cli_subcommands_def cli_options_def add_options_def)
  from parse_args_complete [of ?cli ?argv, OF c this] show ?thesis by (auto simp: cli_subcommands_def)
qed

subsection \<open>Recognising devices\<close>

text \<open>
  The \<^verbatim>\<open>list\<close> command recognises exactly the names of character devices: a name is accepted with
  number \<open>n\<close> if and only if it is \<^verbatim>\<open>ublkc\<close> followed by digits, and nothing else, whose value is
  \<open>n\<close> and fits 64 bits; in particular the name of every device is accepted with its own number.
\<close>

theorem list_recognises_devices:
  "(list_id name = Some n \<longleftrightarrow>
      (\<exists>ds. name = ''ublkc'' @ ds \<and> ds \<noteq> [] \<and> list_all is_digit ds \<and> parse_dec ds = n \<and> n < 2 ^ 64)) \<and>
   list_id (drop 5 (dev_path dev_id)) = Some (unat dev_id)"
proof -
  have fc: "from_chars ds = Some (m, []) \<longleftrightarrow> ds \<noteq> [] \<and> list_all is_digit ds \<and> parse_dec ds = m \<and> m < 2 ^ 64" for ds m
    by (auto simp: from_chars_def Let_def list_all_iff dropWhile_eq_Nil_conv takeWhile_eq_all_conv [THEN iffD2] not_le)
  have iff: "list_id name = Some n \<longleftrightarrow>
      (\<exists>ds. name = ''ublkc'' @ ds \<and> ds \<noteq> [] \<and> list_all is_digit ds \<and> parse_dec ds = n \<and> n < 2 ^ 64)" for name n
  proof
    assume l: "list_id name = Some n"
    then have "take 5 name = ''ublkc''" "from_chars (drop 5 name) = Some (n, [])"
      by (auto simp: list_id_def split: if_splits option.splits)
    with fc [of "drop 5 name" n] show "\<exists>ds. name = ''ublkc'' @ ds \<and> ds \<noteq> [] \<and> list_all is_digit ds \<and>
        parse_dec ds = n \<and> n < 2 ^ 64"
      by (metis append_take_drop_id)
  next
    assume "\<exists>ds. name = ''ublkc'' @ ds \<and> ds \<noteq> [] \<and> list_all is_digit ds \<and> parse_dec ds = n \<and> n < 2 ^ 64"
    then obtain ds where "name = ''ublkc'' @ ds" "from_chars ds = Some (n, [])" using fc by blast
    then show "list_id name = Some n" by (simp add: list_id_def)
  qed
  have "unat dev_id < 4294967296" using unsigned_less [of dev_id] by simp
  moreover have "list_all is_digit (dec_str m)" for m using dec_str_digits by (auto simp: list_all_iff)
  ultimately have "list_id (''ublkc'' @ dec_str (unat dev_id)) = Some (unat dev_id)"
    using iff by (auto simp: parse_dec_str)
  with iff show ?thesis by (simp add: dev_path_def)
qed

end
