(* ===== verification/Ublk_Examples.thy ===== *)
theory Ublk_Examples
  imports Ublk_Ctl
begin

text \<open>
  The two servers under \<^verbatim>\<open>examples\<close>: \<^verbatim>\<open>nop.cpp\<close>, which completes every request at once, and
  \<^verbatim>\<open>loop.cpp\<close>, which maps requests to reads and writes of a backing file. They share the way a
  device is set up, served until a signal arrives, stopped and deleted.
\<close>

definition SECTOR_SIZE :: nat where [consts_simps]:
  "SECTOR_SIZE = 512"

definition DEFAULT_QUEUE_DEPTH :: u16 where [consts_simps]:
  "DEFAULT_QUEUE_DEPTH = 64"

definition DEFAULT_IO_BUF_BYTES :: u32 where [consts_simps]:
  "DEFAULT_IO_BUF_BYTES = push_bit 10 512"

definition UBLK_PARAM_TYPE_BASIC :: u32 where [consts_simps]:
  "UBLK_PARAM_TYPE_BASIC = 1"

definition UBLK_ATTR_VOLATILE_CACHE :: u32 where [consts_simps]:
  "UBLK_ATTR_VOLATILE_CACHE = 4"

section \<open>The backing file of the loop server\<close>

record FileInfo =
  fi_size :: u64
  fi_logical_bs_shift :: u8
  fi_physical_bs_shift :: u8

text \<open>\<^verbatim>\<open>std::bit_width\<close>.\<close>

fun bit_width :: "nat \<Rightarrow> nat" where
  "bit_width n = (if n = 0 then 0 else Suc (bit_width (n div 2)))"

declare bit_width.simps [simp del]

definition bs_shift_of :: "u64 \<Rightarrow> u8" where
  "bs_shift_of v = (if v > 0 \<and> v AND (v - 1) = 0 then of_nat (bit_width (unat v) - 1) else 9)"

text \<open>What the kernel tells about a descriptor; \<open>Inl\<close> is an errno.\<close>

datatype file_kind = BlockDevice | RegularFile | OtherFile

record file_system =
  fs_stat :: "int \<Rightarrow> int + file_kind \<times> int"
  fs_blkgetsize64 :: "int \<Rightarrow> int + u64"
  fs_blksszget :: "int \<Rightarrow> int + int"
  fs_blkpbszget :: "int \<Rightarrow> int + int"

definition lo_file_size :: "file_system \<Rightarrow> int \<Rightarrow> exn + FileInfo" where
  "lo_file_size F fd = (case fs_stat F fd of
       Inl errno \<Rightarrow> Inl (SystemError errno ''fstat backing file'')
     | Inr (kind, st_size) \<Rightarrow> (case kind of
           BlockDevice \<Rightarrow> (case fs_blkgetsize64 F fd of
               Inl errno \<Rightarrow> Inl (SystemError errno ''BLKGETSIZE64'')
             | Inr sz \<Rightarrow> (case fs_blksszget F fd of
                   Inl errno \<Rightarrow> Inl (SystemError errno ''BLKSSZGET'')
                 | Inr lsz \<Rightarrow> (case fs_blkpbszget F fd of
                       Inl errno \<Rightarrow> Inl (SystemError errno ''BLKPBSZGET'')
                     | Inr psz \<Rightarrow> Inr \<lparr>fi_size = sz, fi_logical_bs_shift = bs_shift_of (of_int lsz),
                         fi_physical_bs_shift = bs_shift_of (of_int psz)\<rparr>)))
         | RegularFile \<Rightarrow> Inr \<lparr>fi_size = of_int st_size, fi_logical_bs_shift = 9, fi_physical_bs_shift = 12\<rparr>
         | OtherFile \<Rightarrow> Inl (RuntimeError ''unsupported backing file type'')))"

section \<open>Device information and parameters\<close>

definition loop_prep_dev_info :: "u32 \<Rightarrow> u16 \<Rightarrow> u16 \<Rightarrow> u32 \<Rightarrow> u64 \<Rightarrow> ublksrv_ctrl_dev_info" where
  "loop_prep_dev_info dev_id nr_queues depth buf_bytes flags =
     zero_info\<lparr>di_dev_id := dev_id, di_nr_hw_queues := nr_queues, di_queue_depth := depth,
       di_max_io_buf_bytes := buf_bytes, di_flags := flags\<rparr>"

definition loop_prep_params :: "ublksrv_ctrl_dev_info \<Rightarrow> u64 \<Rightarrow> u8 \<Rightarrow> u8 \<Rightarrow> ublk_params" where
  "loop_prep_params info dev_sectors logical_bs_shift physical_bs_shift =
     zero_params\<lparr>pr_len := of_nat sizeof_ublk_params, pr_types := UBLK_PARAM_TYPE_BASIC,
       pr_basic := (pr_basic zero_params)\<lparr>pb_attrs := UBLK_ATTR_VOLATILE_CACHE,
         pb_logical_bs_shift := logical_bs_shift, pb_physical_bs_shift := physical_bs_shift,
         pb_io_opt_shift := 12, pb_io_min_shift := 9,
         pb_max_sectors := drop_bit 9 (di_max_io_buf_bytes info), pb_dev_sectors := dev_sectors\<rparr>\<rparr>"

definition nop_prep_dev_info :: "u32 \<Rightarrow> u64 \<Rightarrow> ublksrv_ctrl_dev_info" where
  "nop_prep_dev_info dev_id flags =
     zero_info\<lparr>di_dev_id := dev_id, di_nr_hw_queues := 1, di_queue_depth := 128,
       di_max_io_buf_bytes := push_bit 10 512, di_flags := flags\<rparr>"

definition nop_prep_params :: "ublksrv_ctrl_dev_info \<Rightarrow> ublk_params" where
  "nop_prep_params info =
     zero_params\<lparr>pr_len := of_nat sizeof_ublk_params, pr_types := UBLK_PARAM_TYPE_BASIC,
       pr_basic := (pr_basic zero_params)\<lparr>
         pb_logical_bs_shift := 9, pb_physical_bs_shift := 12, pb_io_opt_shift := 12, pb_io_min_shift := 9,
         pb_max_sectors := drop_bit 9 (di_max_io_buf_bytes info),
         pb_dev_sectors := drop_bit 9 (250 * 1024 * 1024 * 1024)\<rparr>\<rparr>"

section \<open>Handlers\<close>

definition BACKING_FD :: nat where
  "BACKING_FD = 1"

datatype backing_op =
    AsyncRead uring_fd u64 u32 u64
  | AsyncWrite uring_fd u64 u32 u64
  | AsyncFdatasync uring_fd

text \<open>
  The handlers up to their completion: either a result at once or an operation on the backing file
  whose result is passed on. The number of bytes is computed in 64 bits by the loop server and cut
  to 32; the nop server multiplies in 32 bits.
\<close>

definition loop_handle_io :: "IoData \<Rightarrow> s32 + backing_op" where
  "loop_handle_io data =
     (let op = ublksrv_get_op (io_iod data);
          off = iod_start_sector (io_iod data) * of_nat SECTOR_SIZE;
          bytes = ucast (ucast (iod_nr_sectors (io_iod data)) * of_nat SECTOR_SIZE :: u64) :: u32
      in if op = UBLK_IO_OP_READ then Inr (AsyncRead (FixedFd (int BACKING_FD)) (io_buf data) bytes off)
         else if op = UBLK_IO_OP_WRITE then Inr (AsyncWrite (FixedFd (int BACKING_FD)) (io_buf data) bytes off)
         else if op = UBLK_IO_OP_FLUSH then Inr (AsyncFdatasync (FixedFd (int BACKING_FD)))
         else Inl (- EINVAL))"

definition loop_init_queue :: "'r runtime_ops \<Rightarrow> int \<Rightarrow> 'r \<Rightarrow> (exn, unit) outcome \<times> 'r" where
  "loop_init_queue R backing_fd r = (case rt_update_file R BACKING_FD backing_fd r of
     (n, r') \<Rightarrow> (if n \<noteq> 1 then Error (SystemError (- n) ''ublk-loop: register backing file'') else Value (), r'))"

definition loop_destroy_queue :: "'r runtime_ops \<Rightarrow> 'r \<Rightarrow> 'r" where
  "loop_destroy_queue R r = snd (rt_update_file R BACKING_FD (- 1) r)"

definition nop_handle_io :: "IoData \<Rightarrow> io_result" where
  "nop_handle_io data = IntResult (uint (iod_nr_sectors (io_iod data) * 512))"

section \<open>Command line\<close>

text \<open>
  \<^verbatim>\<open>std::stoul\<close> in base 10: white space, an optional sign, digits; a minus sign negates in 64 bits.
  \<open>Inl\<close> is the exception, which \<^verbatim>\<open>main\<close> does not catch at this place.
\<close>

definition is_space :: "char \<Rightarrow> bool" where
  "is_space c \<longleftrightarrow> of_char c \<in> {9, 10, 11, 12, 13, 32 :: nat}"

definition stoul :: "string \<Rightarrow> exn + u64" where
  "stoul s =
     (let s1 = dropWhile is_space s;
          neg = (s1 \<noteq> [] \<and> hd s1 = CHR ''-'');
          s2 = (if s1 \<noteq> [] \<and> hd s1 \<in> {CHR ''-'', CHR ''+''} then tl s1 else s1);
          ds = takeWhile is_digit s2
      in if ds = [] then Inl OtherException
         else if parse_dec ds \<ge> 2 ^ 64 then Inl (OutOfRange ''stoul'')
         else Inr (if neg then - of_nat (parse_dec ds) else of_nat (parse_dec ds)))"

record loop_args =
  la_dev_id :: u32
  la_nr_queues :: u16
  la_queue_depth :: u16
  la_buf_bytes :: u32
  la_unprivileged :: bool
  la_backing_path :: string

definition default_loop_args :: loop_args where
  "default_loop_args = \<lparr>la_dev_id = - 1, la_nr_queues = 1, la_queue_depth = DEFAULT_QUEUE_DEPTH,
     la_buf_bytes = DEFAULT_IO_BUF_BYTES, la_unprivileged = False, la_backing_path = []\<rparr>"

text \<open>
  What \<^verbatim>\<open>getopt\<close> returns is a parameter: a list of options with their arguments, an unknown option
  being a question mark. The result is an exception, the exit status after the usage text, or the
  arguments.
\<close>

datatype 'a parse_result = Uncaught exn | ExitStatus int | Parsed 'a

definition with_stoul :: "string \<Rightarrow> (u64 \<Rightarrow> 'a parse_result) \<Rightarrow> 'a parse_result" where
  "with_stoul s k = (case stoul s of Inl e \<Rightarrow> Uncaught e | Inr v \<Rightarrow> k v)"

fun loop_getopt :: "(char \<times> string) list \<Rightarrow> loop_args \<Rightarrow> loop_args parse_result" where
  "loop_getopt [] args = (if la_backing_path args = [] then ExitStatus 1 else Parsed args)"
| "loop_getopt ((opt, optarg) # opts) args =
     (if opt = CHR ''f'' then loop_getopt opts (args\<lparr>la_backing_path := optarg\<rparr>)
      else if opt = CHR ''n'' then with_stoul optarg (\<lambda>v. loop_getopt opts (args\<lparr>la_dev_id := ucast v\<rparr>))
      else if opt = CHR ''q'' then with_stoul optarg (\<lambda>v. loop_getopt opts (args\<lparr>la_nr_queues := ucast v\<rparr>))
      else if opt = CHR ''d'' then with_stoul optarg (\<lambda>v. loop_getopt opts (args\<lparr>la_queue_depth := ucast v\<rparr>))
      else if opt = CHR ''b'' then with_stoul optarg (\<lambda>v. loop_getopt opts (args\<lparr>la_buf_bytes := ucast v\<rparr>))
      else if opt = CHR ''p'' then loop_getopt opts (args\<lparr>la_unprivileged := True\<rparr>)
      else ExitStatus (if opt = CHR ''h'' then 0 else 1))"

fun nop_getopt :: "(char \<times> string) list \<Rightarrow> u32 \<Rightarrow> u32 parse_result" where
  "nop_getopt [] dev_id = Parsed dev_id"
| "nop_getopt ((opt, optarg) # opts) dev_id =
     (if opt = CHR ''n'' then with_stoul optarg (\<lambda>v. nop_getopt opts (ucast v))
      else ExitStatus (if opt = CHR ''h'' then 0 else 1))"

section \<open>Serving until a signal\<close>

text \<open>
  The two branches of \<^verbatim>\<open>when_all\<close>: the daemon, whose outcome is a parameter here (its model is
  \<open>run_daemon\<close>), and starting the device followed by \<^verbatim>\<open>wait_signal\<close>, where \<open>signal\<close> is the outcome
  of reading the signal descriptor. \<^verbatim>\<open>when_all\<close> succeeds if both do; otherwise it fails with an
  error of one of them, the first in time, or is stopped.
\<close>

definition running_text :: "string \<Rightarrow> u32 \<Rightarrow> string" where
  "running_text prog dev_id = prog @ '': ublk device '' @ dec_str (unat dev_id) @ '' is running...'' @ nl"

definition received_text :: "string \<Rightarrow> u32 \<Rightarrow> string" where
  "received_text prog signo = prog @ '': received signal '' @ dec_str (unat signo) @ '', shutting down...'' @ nl"

definition wait_signal :: "'w kernel \<Rightarrow> int \<Rightarrow> u32 \<Rightarrow> (error_code, u32) outcome \<Rightarrow> string \<Rightarrow> ('w ctl_world, unit) task" where
  "wait_signal K ctrl_fd dev_id signal prog =
     await (print (running_text prog dev_id)) (\<lambda>_.
     await (throwing (\<lambda>w. (signal, w))) (\<lambda>signo.
     await (print (received_text prog signo)) (\<lambda>_.
     kernel_call (stop_dev K NoQuery ctrl_fd dev_id))))"

inductive when_all :: "(exn, unit) outcome \<Rightarrow> (exn, unit) outcome \<Rightarrow> (exn, unit) outcome \<Rightarrow> bool" where
  both: "when_all (Value ()) (Value ()) (Value ())"
| first_error: "when_all (Error e) b (Error e)"
| second_error: "when_all a (Error e) (Error e)"
| one_stopped: "a = Stopped \<or> b = Stopped \<Longrightarrow> (\<forall>e. a \<noteq> Error e \<and> b \<noteq> Error e) \<Longrightarrow> when_all a b Stopped"

definition example_start ::
  "'w kernel \<Rightarrow> int \<Rightarrow> u32 \<Rightarrow> s32 \<Rightarrow> (error_code, u32) outcome \<Rightarrow> string \<Rightarrow> ('w ctl_world, unit) task" where
  "example_start K ctrl_fd dev_id pid signal prog =
     await (kernel_call (start K NoQuery ctrl_fd dev_id pid)) (\<lambda>_. wait_signal K ctrl_fd dev_id signal prog)"

text \<open>
  The senders up to \<^verbatim>\<open>when_all\<close>, and the whole chain as a relation between the outcome of the
  daemon, the world before, and the outcome and world after.
\<close>

definition example_setup ::
  "'w kernel \<Rightarrow> int \<Rightarrow> (u64 \<Rightarrow> ublksrv_ctrl_dev_info) \<Rightarrow> (ublksrv_ctrl_dev_info \<Rightarrow> ublk_params) \<Rightarrow>
   ('w ctl_world, u32) task" where
  "example_setup K ctrl_fd prep_info prep =
     await (plain_call (get_features K ctrl_fd 0)) (\<lambda>features.
     let flags = (if has_flag features UBLK_F_USER_RECOVERY then UBLK_F_USER_RECOVERY else 0) in
     await (kernel_call (setup_device K NoQuery ctrl_fd (prep_info flags))) (\<lambda>(_, info).
     await (kernel_call (configure K NoQuery ctrl_fd (di_dev_id info) (prep info))) (\<lambda>_.
     co_return (di_dev_id info))))"

inductive example_app ::
  "'w kernel \<Rightarrow> int \<Rightarrow> (u64 \<Rightarrow> ublksrv_ctrl_dev_info) \<Rightarrow> (ublksrv_ctrl_dev_info \<Rightarrow> ublk_params) \<Rightarrow> s32 \<Rightarrow>
   (error_code, u32) outcome \<Rightarrow> string \<Rightarrow> (exn, unit) outcome \<Rightarrow> 'w ctl_world \<Rightarrow> (exn, unit) outcome \<times> 'w ctl_world \<Rightarrow> bool"
  for K ctrl_fd prep_info prep pid signal prog daemon w where
  setup_failed: "example_setup K ctrl_fd prep_info prep w = (Error e, w') \<Longrightarrow>
    example_app K ctrl_fd prep_info prep pid signal prog daemon w (Error e, w')"
| setup_stopped: "example_setup K ctrl_fd prep_info prep w = (Stopped, w') \<Longrightarrow>
    example_app K ctrl_fd prep_info prep pid signal prog daemon w (Stopped, w')"
| served: "example_setup K ctrl_fd prep_info prep w = (Value dev_id, w1) \<Longrightarrow>
    example_start K ctrl_fd dev_id pid signal prog w1 = (c, w2) \<Longrightarrow> when_all daemon c r \<Longrightarrow> r \<noteq> Value () \<Longrightarrow>
    example_app K ctrl_fd prep_info prep pid signal prog daemon w (r, w2)"
| deleted: "example_setup K ctrl_fd prep_info prep w = (Value dev_id, w1) \<Longrightarrow>
    example_start K ctrl_fd dev_id pid signal prog w1 = (c, w2) \<Longrightarrow> when_all daemon c (Value ()) \<Longrightarrow>
    kernel_call (del_dev K NoQuery ctrl_fd dev_id) w2 = r \<Longrightarrow>
    example_app K ctrl_fd prep_info prep pid signal prog daemon w r"

definition loop_flags :: "bool \<Rightarrow> u64 \<Rightarrow> u64" where
  "loop_flags unprivileged flags = (if unprivileged then flags OR UBLK_F_UNPRIVILEGED_DEV else flags)"

definition loop_app ::
  "'w kernel \<Rightarrow> int \<Rightarrow> loop_args \<Rightarrow> FileInfo \<Rightarrow> s32 \<Rightarrow> (error_code, u32) outcome \<Rightarrow> (exn, unit) outcome \<Rightarrow>
   'w ctl_world \<Rightarrow> (exn, unit) outcome \<times> 'w ctl_world \<Rightarrow> bool" where
  "loop_app K ctrl_fd args file_info pid signal =
     example_app K ctrl_fd
       (\<lambda>flags. loop_prep_dev_info (la_dev_id args) (la_nr_queues args) (la_queue_depth args) (la_buf_bytes args)
          (loop_flags (la_unprivileged args) flags))
       (\<lambda>info. loop_prep_params info (fi_size file_info div of_nat SECTOR_SIZE)
          (fi_logical_bs_shift file_info) (fi_physical_bs_shift file_info))
       pid signal ''ublk-loop''"

definition nop_app ::
  "'w kernel \<Rightarrow> int \<Rightarrow> u32 \<Rightarrow> s32 \<Rightarrow> (error_code, u32) outcome \<Rightarrow> (exn, unit) outcome \<Rightarrow>
   'w ctl_world \<Rightarrow> (exn, unit) outcome \<times> 'w ctl_world \<Rightarrow> bool" where
  "nop_app K ctrl_fd dev_id pid signal =
     example_app K ctrl_fd (nop_prep_dev_info dev_id) nop_prep_params pid signal ''ublk-nop''"

section \<open>The main functions\<close>

text \<open>
  As in \<^verbatim>\<open>ublkctl\<close>, descriptors are closed by deferred clean-up. A failure to set \<^verbatim>\<open>O_DIRECT\<close> is only
  reported and has no effect here.
\<close>

text \<open>The answers of the operating system; \<open>os_runtime\<close> is the construction of the event loop.\<close>

record example_os =
  os_backing :: "string \<Rightarrow> int + int"
  os_signalfd :: "int + int"
  os_control :: "int + int"
  os_runtime :: "exn + unit"

definition serve_scope ::
  "example_os \<Rightarrow> (int \<Rightarrow> int \<Rightarrow> ('w ctl_world, unit) task) \<Rightarrow> ('w host, unit) task" where
  "serve_scope os app =
     open_scoped (os_signalfd os) ''signalfd'' (\<lambda>signal_fd.
     open_scoped (os_control os) ''open /dev/ublk-control'' (\<lambda>ctrl_fd.
     case os_runtime os of Inl e \<Rightarrow> throw e | Inr _ \<Rightarrow> host_task (app signal_fd ctrl_fd)))"

definition loop_scope ::
  "file_system \<Rightarrow> example_os \<Rightarrow> (loop_args \<Rightarrow> FileInfo \<Rightarrow> int \<Rightarrow> int \<Rightarrow> int \<Rightarrow> ('w ctl_world, unit) task) \<Rightarrow>
   loop_args \<Rightarrow> ('w host, unit) task" where
  "loop_scope F os app args =
     open_scoped (os_backing os (la_backing_path args)) ''open backing file'' (\<lambda>backing_fd.
     case lo_file_size F backing_fd of
       Inl e \<Rightarrow> throw e
     | Inr file_info \<Rightarrow>
         await (host_task (print (''ublk-loop: backing file '' @ la_backing_path args @ '' ('' @
             dec_str (unat (fi_size file_info)) @ '' bytes, '' @
             dec_str (unat (fi_size file_info) div SECTOR_SIZE) @ '' sectors, logical '' @
             dec_str (2 ^ unat (fi_logical_bs_shift file_info)) @ ''B, physical '' @
             dec_str (2 ^ unat (fi_physical_bs_shift file_info)) @ ''B)'' @ nl))) (\<lambda>_.
         serve_scope os (app args file_info backing_fd)))"

text \<open>
  The usage texts, and the common end of the two functions: \<open>None\<close> is the end of the program by an
  exception that \<^verbatim>\<open>main\<close> does not catch; an exit status is preceded by the usage text.
\<close>

definition loop_print_usage :: "string \<Rightarrow> string" where
  "loop_print_usage prog = concat (map (\<lambda>l. l @ nl)
     [''Usage: '' @ prog @ '' [OPTIONS] -f <backing_file>'',
      ''Run a ublk loop device backed by a regular file or block device.'',
      [],
      ''Options:'',
      ''  -f <file>     backing file or block device (required)'',
      ''  -n <dev_id>   ublk device id, -1: auto-allocation (default)'',
      ''  -q <queues>   nr_hw_queues (default: 1)'',
      ''  -d <depth>    queue depth, max in-flight io commands (default: 64)'',
      ''  -b <bytes>    io buffer size (default: 524288)'',
      ''  -p            enable UBLK_F_UNPRIVILEGED_DEV (unprivileged mode)'',
      ''  -h            show this help and exit''])"

definition nop_print_usage :: "string \<Rightarrow> string" where
  "nop_print_usage prog = concat (map (\<lambda>l. l @ nl)
     [''Usage: '' @ prog @ '' -n <dev_id>'',
      ''Run a no-op ublk block device.'',
      [],
      ''Options:'',
      ''  -n <dev_id>  ublk device id to use'',
      ''  -h           show this help and exit''])"

definition main_status ::
  "string \<Rightarrow> 'a parse_result \<Rightarrow> ('a \<Rightarrow> ('w host, unit) task) \<Rightarrow> 'w host \<Rightarrow> int option \<times> 'w host" where
  "main_status usage parsed scope w = (case parsed of
       Uncaught e \<Rightarrow> (None, w)
     | ExitStatus n \<Rightarrow> (Some n, snd (host_task (print usage) w))
     | Parsed args \<Rightarrow> (case scope args w of (c, w') \<Rightarrow> (Some (exit_code c), w')))"

definition loop_main where
  "loop_main F os app prog opts = main_status (loop_print_usage prog) (loop_getopt opts default_loop_args) (loop_scope F os app)"

definition nop_main where
  "nop_main os app prog opts = main_status (nop_print_usage prog) (nop_getopt opts (- 1))
     (\<lambda>dev_id. serve_scope os (app dev_id))"

section \<open>Block sizes and arguments\<close>

lemma bit_width_pow2: "bit_width (2 ^ k) = Suc k"
  by (induction k) (simp_all add: bit_width.simps)

lemma pow2_and_pred: "k < 64 \<Longrightarrow> (push_bit k 1 :: u64) AND (push_bit k 1 - 1) = 0"
proof -
  have "push_bit k 1 - 1 = (mask k :: u64)" by (simp add: mask_eq_exp_minus_1 push_bit_eq_mult)
  then show ?thesis by (intro bit_word_eqI) (auto simp: bit_simps)
qed

text \<open>The shift of a block size that is a power of two; other values fall back to a sector.\<close>

lemma bs_shift_of_pow2: "k < 64 \<Longrightarrow> bs_shift_of (push_bit k 1) = of_nat k"
proof -
  assume k: "k < 64"
  have "(2::nat) ^ k < 2 ^ 64" using k by (rule power_strict_increasing) simp
  then have "unat (word_of_nat (2 ^ k) :: u64) = 2 ^ k" by (simp only: unsigned_of_nat) (simp add: take_bit_nat_eq_self k)
  then have u: "unat (push_bit k 1 :: u64) = 2 ^ k" by (simp add: push_bit_eq_mult)
  then have "(push_bit k 1 :: u64) > 0" by (simp add: word_less_nat_alt)
  then show ?thesis using pow2_and_pred [OF k] by (simp add: bs_shift_of_def u bit_width_pow2 del: push_bit_of_1)
qed

text \<open>
  Numbers on the command line: a decimal number is read back, and a minus sign negates it in 64 bits,
  so that the documented \<^verbatim>\<open>-n -1\<close> means automatic allocation.
\<close>

lemma dec_str_hd: "is_digit (hd (dec_str n))"
  by (rule dec_str_digits [of _ n]) simp

lemma digit_no_sign: "is_digit c \<Longrightarrow> c \<noteq> CHR ''-'' \<and> c \<noteq> CHR ''+'' \<and> \<not> is_space c"
  by (auto simp: is_digit_def is_space_def)

lemma stoul_digits:
  assumes "n < 2 ^ 64"
  shows "stoul (dec_str n) = Inr (of_nat n)" and "stoul (CHR ''-'' # dec_str n) = Inr (- of_nat n)"
proof -
  have t: "takeWhile is_digit (dec_str n) = dec_str n" using dec_str_digits by (simp add: takeWhile_eq_all_conv)
  have d: "dropWhile is_space (dec_str n) = dec_str n"
    using digit_no_sign [OF dec_str_hd, of n] by (cases "dec_str n") auto
  show "stoul (dec_str n) = Inr (of_nat n)"
    using assms digit_no_sign [OF dec_str_hd, of n] by (simp add: stoul_def Let_def d t parse_dec_str)
  show "stoul (CHR ''-'' # dec_str n) = Inr (- of_nat n)"
    using assms by (simp add: stoul_def Let_def d t parse_dec_str is_space_def)
qed

lemma nop_auto_allocation: "nop_getopt [(CHR ''n'', ''-1'')] dev_id = Parsed (- 1)"
proof -
  have "''-1'' = CHR ''-'' # dec_str 1" by code_simp
  moreover have "ucast (- 1 :: u64) = (- 1 :: u32)" by (rule bit_word_eqI) (simp add: bit_simps)
  ultimately show ?thesis using stoul_digits(2) [of 1] by (simp add: with_stoul_def)
qed

section \<open>Requests of the loop server\<close>

lemma unat_times_512:
  fixes n :: "'a::len word"
  assumes "unat n * 512 < 2 ^ LENGTH('a)" and "9 < LENGTH('a)"
  shows "unat (n * 512) = unat n * 512"
proof -
  have "(512::nat) < 2 ^ LENGTH('a)"
    using power_strict_increasing [OF assms(2), of "2::nat"] by simp
  then have "unat (512 :: 'a word) = 512" by (simp add: unat_numeral take_bit_eq_mod)
  then show ?thesis using assms(1) by (simp add: unat_mult_lem [THEN iffD1])
qed

lemma bytes_narrow: "ucast (ucast (n :: u32) * 512 :: u64) = n * 512"
  by transfer (simp add: take_bit_eq_mod mod_mult_left_eq mod_mod_cancel)

lemma drop_bit_9_unat: "unat (drop_bit 9 w) * 512 \<le> unat w"
  unfolding unat_drop_bit_eq by (simp add: drop_bit_eq_div)

lemma loop_request_exact:
  assumes "unat (iod_start_sector (io_iod data)) + unat (iod_nr_sectors (io_iod data)) \<le>
      unat (pb_dev_sectors (pr_basic (loop_prep_params info (fi_size fi div of_nat SECTOR_SIZE) l p)))"
    and "iod_nr_sectors (io_iod data) \<le>
      pb_max_sectors (pr_basic (loop_prep_params info (fi_size fi div of_nat SECTOR_SIZE) l p))"
  shows "unat (iod_start_sector (io_iod data) * 512) = 512 * unat (iod_start_sector (io_iod data))"
    and "unat (iod_nr_sectors (io_iod data) * 512) = 512 * unat (iod_nr_sectors (io_iod data))"
    and "512 * unat (iod_start_sector (io_iod data)) + 512 * unat (iod_nr_sectors (io_iod data)) \<le> unat (fi_size fi)"
    and "512 * unat (iod_nr_sectors (io_iod data)) \<le> unat (di_max_io_buf_bytes info)"
proof -
  let ?nr = "iod_nr_sectors (io_iod data)" and ?st = "iod_start_sector (io_iod data)"
  show nr: "512 * unat ?nr \<le> unat (di_max_io_buf_bytes info)"
    using assms(2) drop_bit_9_unat [of "di_max_io_buf_bytes info"]
    by (simp add: loop_prep_params_def word_le_nat_alt)
  show sz: "512 * unat ?st + 512 * unat ?nr \<le> unat (fi_size fi)"
  proof -
    have "unat (fi_size fi div 512) = unat (fi_size fi) div 512" by (simp add: unat_div)
    with assms(1) show ?thesis by (simp add: loop_prep_params_def SECTOR_SIZE_def)
  qed
  have "unat (?nr * 512) = unat ?nr * 512"
    by (rule unat_times_512) (use nr unsigned_less [of "di_max_io_buf_bytes info", where ?'a = nat] in simp_all)
  then show "unat (?nr * 512) = 512 * unat ?nr" by simp
  have "unat (?st * 512) = unat ?st * 512"
    by (rule unat_times_512) (use sz unsigned_less [of "fi_size fi", where ?'a = nat] in simp_all)
  then show "unat (?st * 512) = 512 * unat ?st" by simp
qed

text \<open>
  The parameters the loop server announces keep every request inside the backing file: for a
  request within the announced maximal request and device size, a read or write goes to the
  registered backing file with the request's buffer, the offset and length are exactly 512 times
  the sectors (no product wraps around), the access ends within the file and fits the buffer of the
  tag. The nop server's 32-bit product is exact for such a request as well.
\<close>

theorem loop_requests_in_bounds:
  assumes "unat (iod_start_sector (io_iod data)) + unat (iod_nr_sectors (io_iod data)) \<le>
      unat (pb_dev_sectors (pr_basic (loop_prep_params info (fi_size file div of_nat SECTOR_SIZE) l p)))"
    and "iod_nr_sectors (io_iod data) \<le>
      pb_max_sectors (pr_basic (loop_prep_params info (fi_size file div of_nat SECTOR_SIZE) l p))"
    and "loop_handle_io data = Inr (AsyncRead fd buf bytes off) \<or> loop_handle_io data = Inr (AsyncWrite fd buf bytes off)"
  shows "fd = FixedFd 1 \<and> buf = io_buf data \<and>
    unat off = 512 * unat (iod_start_sector (io_iod data)) \<and> unat bytes = 512 * unat (iod_nr_sectors (io_iod data)) \<and>
    unat off + unat bytes \<le> unat (fi_size file) \<and> bytes \<le> di_max_io_buf_bytes info \<and>
    nop_handle_io data = IntResult (512 * int (unat (iod_nr_sectors (io_iod data))))"
proof -
  note exact = loop_request_exact [OF assms(1,2)]
  have "fd = FixedFd 1" "buf = io_buf data" "bytes = iod_nr_sectors (io_iod data) * 512"
    "off = iod_start_sector (io_iod data) * 512"
    using assms(3) by (auto simp: loop_handle_io_def Let_def BACKING_FD_def SECTOR_SIZE_def bytes_narrow split: if_splits)
  moreover have "uint (iod_nr_sectors (io_iod data) * 512) = 512 * uint (iod_nr_sectors (io_iod data))"
    using arg_cong [OF exact(2), of int] by simp
  ultimately show ?thesis using exact by (simp add: nop_handle_io_def word_le_nat_alt)
qed

theorem loop_requests_in_bounds_witness:
  "loop_handle_io \<lparr>io_q_id = 0, io_tag = 3, io_iod = \<lparr>iod_op_flags = 0, iod_nr_sectors = 4, iod_start_sector = 2046, iod_addr = 0\<rparr>,
     io_buf = 4096\<rparr> = Inr (AsyncRead (FixedFd 1) 4096 2048 1047552) \<and>
   unat (1047552 :: u64) + unat (2048 :: u32) \<le> unat (fi_size \<lparr>fi_size = 1050000, fi_logical_bs_shift = 9, fi_physical_bs_shift = 12\<rparr>)"
  (is "loop_handle_io ?data = _ \<and> _ \<le> unat (fi_size ?file)")
proof -
  have h: "loop_handle_io ?data = Inr (AsyncRead (FixedFd 1) 4096 2048 1047552)"
    by (simp add: loop_handle_io_def SECTOR_SIZE_def BACKING_FD_def ublksrv_get_op_def consts_simps)
  show ?thesis
    using loop_requests_in_bounds [of ?data "zero_info\<lparr>di_max_io_buf_bytes := 524288\<rparr>" ?file 9 12 "FixedFd 1" 4096 2048 1047552] h
    by (simp add: loop_prep_params_def SECTOR_SIZE_def)
qed

section \<open>Until a signal arrives\<close>

definition features_sqe :: "int \<Rightarrow> ctrl_sqe" where
  "features_sqe fd = buf_sqe fd UBLK_U_CMD_GET_FEATURES (- 1) (PayloadPtr (PFeatures 0)) 8 0"

lemma knows_device_features:
  assumes "knows_device i drv"
  shows "plain_call (get_features (logging drv) fd 0) (log, out) =
    (Value (features_of 0 (snd (drv (features_sqe fd)))), (log @ [features_sqe fd], out))"
proof -
  have "UBLK_U_CMD_GET_FEATURES \<noteq> UBLK_U_CMD_ADD_DEV" "UBLK_U_CMD_GET_FEATURES \<noteq> UBLK_U_CMD_GET_DEV_INFO2"
    by (simp_all add: consts_simps command_numbers)
  with knows_device_command [OF assms, of "features_sqe fd" log]
  have "k_ctrl (logging drv) (features_sqe fd) log = ((Value 0, snd (drv (features_sqe fd))), log @ [features_sqe fd])"
    by (auto simp: features_sqe_def buf_sqe_def logging_def)
  moreover have "raw_get_features (logging drv) fd 0 = k_ctrl (logging drv) (features_sqe fd)"
    by (simp add: raw_simps ctrl_cmd_def features_sqe_def buf_sqe_def consts_simps)
  ultimately show ?thesis by (simp add: plain_call_def kernel_call_def get_features_def drop_result_def)
qed

lemma knows_device_path_operations:
  assumes "knows_device i drv"
  shows "stop_dev (logging drv) NoQuery fd (di_dev_id i) log =
      (Value (), log @ [info_sqe fd (di_dev_id i), path_sqe i fd UBLK_U_CMD_STOP_DEV 0])"
    and "del_dev (logging drv) NoQuery fd (di_dev_id i) log =
      (Value (), log @ [info_sqe fd (di_dev_id i), path_sqe i fd UBLK_U_CMD_DEL_DEV 0])"
proof -
  have c: "cached_get_dev_info (logging drv) (TaskEnv NoQuery) fd (di_dev_id i) zero_info log =
      (Value i, log @ [info_sqe fd (di_dev_id i)])"
    using knows_device_get_dev_info [OF assms] by (simp add: cached_get_dev_info_def)
  have ne: "UBLK_U_CMD_STOP_DEV \<noteq> UBLK_U_CMD_ADD_DEV" "UBLK_U_CMD_STOP_DEV \<noteq> UBLK_U_CMD_GET_DEV_INFO2"
    "UBLK_U_CMD_DEL_DEV \<noteq> UBLK_U_CMD_ADD_DEV" "UBLK_U_CMD_DEL_DEV \<noteq> UBLK_U_CMD_GET_DEV_INFO2"
    by (simp_all add: consts_simps command_numbers)
  show "stop_dev (logging drv) NoQuery fd (di_dev_id i) log =
      (Value (), log @ [info_sqe fd (di_dev_id i), path_sqe i fd UBLK_U_CMD_STOP_DEV 0])"
    using knows_device_send_path [OF assms ne(1,2), of i fd 0 "log @ [info_sqe fd (di_dev_id i)]"]
    by (simp del: TaskEnv.simps add: stop_dev.with_dev_path_fetched [OF c refl] send_path_def path_operation_defs)
  show "del_dev (logging drv) NoQuery fd (di_dev_id i) log =
      (Value (), log @ [info_sqe fd (di_dev_id i), path_sqe i fd UBLK_U_CMD_DEL_DEV 0])"
    using knows_device_send_path [OF assms ne(3,4), of i fd 0 "log @ [info_sqe fd (di_dev_id i)]"]
    by (simp del: TaskEnv.simps add: del_dev.with_dev_path_fetched [OF c refl] send_path_def path_operation_defs)
qed

text \<open>The device information the servers start from: with user recovery exactly if the driver has the feature.\<close>

definition recovery_flags :: "(ctrl_sqe \<Rightarrow> (error_code, s32) outcome \<times> ctrl_payload) \<Rightarrow> int \<Rightarrow> u64" where
  "recovery_flags drv fd = (if bit (features_of 0 (snd (drv (features_sqe fd)))) 3 then UBLK_F_USER_RECOVERY else 0)"

text \<open>The commands from the query of the features to the parameters.\<close>

definition setup_sqes ::
  "(ctrl_sqe \<Rightarrow> (error_code, s32) outcome \<times> ctrl_payload) \<Rightarrow> ublksrv_ctrl_dev_info \<Rightarrow> int \<Rightarrow>
   (u64 \<Rightarrow> ublksrv_ctrl_dev_info) \<Rightarrow> (ublksrv_ctrl_dev_info \<Rightarrow> ublk_params) \<Rightarrow> ctrl_sqe list" where
  "setup_sqes drv i fd prep_info prep =
     (let info = prep_info (recovery_flags drv fd) in
      [features_sqe fd, add_dev_sqe fd info, info_sqe fd (di_dev_id info)] @
      (if bit (di_flags i) 3 \<and> need_recovery i then [path_sqe i fd UBLK_U_CMD_START_USER_RECOVERY 0] else []) @
      [info_sqe fd (di_dev_id i),
       if di_state i = UBLK_S_DEV_DEAD then params_sqe i fd UBLK_U_CMD_SET_PARAMS (prep i)
       else params_sqe i fd UBLK_U_CMD_GET_PARAMS (if bit (di_flags i) 5 then zero_params else prep i)])"

lemma example_setup_known:
  assumes k: "knows_device i drv" and d: "\<And>flags. di_dev_id (prep_info flags) \<noteq> - 1"
  shows "example_setup (logging drv) fd prep_info prep ([], out) = (Value (di_dev_id i), (setup_sqes drv i fd prep_info prep, out))"
proof -
  let ?info = "prep_info (recovery_flags drv fd)"
  let ?log = "[features_sqe fd] @ [add_dev_sqe fd ?info, info_sqe fd (di_dev_id ?info)] @
      (if bit (di_flags i) 3 \<and> need_recovery i then [path_sqe i fd UBLK_U_CMD_START_USER_RECOVERY 0] else [])"
  obtain v where "configure (logging drv) NoQuery fd (di_dev_id i) (prep i) ?log = (Value v,
    ?log @ [info_sqe fd (di_dev_id i), configure_sqe i fd (prep i)])"
    using knows_device_configure [OF k] by blast
  moreover have "recovery_flags drv fd =
      (if has_flag (features_of 0 (snd (drv (features_sqe fd)))) UBLK_F_USER_RECOVERY then UBLK_F_USER_RECOVERY else 0)"
    by (simp add: recovery_flags_def flag_bits)
  ultimately show ?thesis
    using knows_device_features [OF k, of fd "[]"] knows_device_setup [OF k d, of fd _ "[features_sqe fd]"]
    by (simp add: example_setup_def await_def kernel_call_def Let_def co_return_def setup_sqes_def configure_sqe_def)
qed

lemma example_start_known:
  assumes k: "knows_device i drv"
  shows "\<exists>out'. example_start (logging drv) fd (di_dev_id i) pid signal prog (log, out) =
    (if need_recovery i \<and> \<not> bit (di_flags i) 3
     then (Error (RuntimeError ''device can neither be started nor recovered''), (log @ [info_sqe fd (di_dev_id i)], out'))
     else (case signal of Value n \<Rightarrow> Value () | Error ec \<Rightarrow> Error (SystemError ec '''') | Stopped \<Rightarrow> Stopped,
       (log @ [info_sqe fd (di_dev_id i)] @
        [path_sqe i fd (if need_recovery i then UBLK_U_CMD_END_USER_RECOVERY else UBLK_U_CMD_START_DEV) (of_int pid)] @
        (case signal of Value n \<Rightarrow> [info_sqe fd (di_dev_id i), path_sqe i fd UBLK_U_CMD_STOP_DEV 0] | _ \<Rightarrow> []), out')))"
  by (auto simp: example_start_def wait_signal_def await_def kernel_call_def knows_device_start [OF k] print_def
      throwing_def knows_device_path_operations [OF k] split: outcome.splits)

inductive_cases when_all_valueE: "when_all a b (Value u)"

text \<open>
  C34. A server of the examples for a device the driver knows (found dead, live, or recoverable):
  besides the commands of the running daemon itself, which are not recorded here, the device is set
  up, configured and started in this order, each command with the descriptions, parameters and
  process id of the server. It is stopped exactly when a signal was read, and deleted exactly when in
  addition the daemon has ended normally, as the last command and with success. A daemon that ends
  by itself stops the waiting, and then the device is neither stopped nor deleted and the server
  ends as stopped, although the guide says that the device is deleted once everything has finished.
\<close>

theorem example_deletes_after_signal:
  assumes "knows_device i drv" and "\<forall>flags. di_dev_id (prep_info flags) \<noteq> - 1"
    and "\<not> need_recovery i \<or> bit (di_flags i) 3"
    and "example_app (logging drv) fd prep_info prep pid signal prog daemon ([], out) (r, (log, out'))"
  shows "log = setup_sqes drv i fd prep_info prep @
      [info_sqe fd (di_dev_id i),
       path_sqe i fd (if need_recovery i then UBLK_U_CMD_END_USER_RECOVERY else UBLK_U_CMD_START_DEV) (of_int pid)] @
      (if \<exists>n. signal = Value n then [info_sqe fd (di_dev_id i), path_sqe i fd UBLK_U_CMD_STOP_DEV 0] else []) @
      (if daemon = Value () \<and> (\<exists>n. signal = Value n)
       then [info_sqe fd (di_dev_id i), path_sqe i fd UBLK_U_CMD_DEL_DEV 0] else []) \<and>
    (r = Value () \<longleftrightarrow> daemon = Value () \<and> (\<exists>n. signal = Value n)) \<and>
    (daemon = Value () \<and> signal = Stopped \<longrightarrow> r = Stopped)"
proof -
  let ?pre = "setup_sqes drv i fd prep_info prep"
  have prepared: "example_setup (logging drv) fd prep_info prep ([], out) = (Value (di_dev_id i), (?pre, out))"
    using example_setup_known [OF assms(1), of prep_info fd prep out] assms(2) by blast
  obtain out1 where start: "example_start (logging drv) fd (di_dev_id i) pid signal prog (?pre, out) =
    (case signal of Value n \<Rightarrow> Value () | Error ec \<Rightarrow> Error (SystemError ec []) | Stopped \<Rightarrow> Stopped,
       (?pre @ [info_sqe fd (di_dev_id i)] @
        [path_sqe i fd (if need_recovery i then UBLK_U_CMD_END_USER_RECOVERY else UBLK_U_CMD_START_DEV) (of_int pid)] @
        (case signal of Value n \<Rightarrow> [info_sqe fd (di_dev_id i), path_sqe i fd UBLK_U_CMD_STOP_DEV 0] | _ \<Rightarrow> []), out1))"
    using example_start_known [OF assms(1), of fd pid signal prog ?pre out] assms(3) by (auto split: if_splits)
  show ?thesis
    using assms(4)
  proof cases
    case served
    then show ?thesis using prepared start
      by (cases signal; cases daemon) (auto elim: when_all.cases)
  next
    case deleted
    then have "daemon = Value ()" "\<exists>n. signal = Value n"
      using prepared start by (cases signal; auto elim: when_all_valueE)+
    with deleted prepared start show ?thesis
      by (auto simp: kernel_call_def knows_device_path_operations(2) [OF assms(1)])
  qed (use prepared in auto)
qed

text \<open>The nop server serving a device that waits for recovery, until the user interrupts it.\<close>

definition recovered_info :: ublksrv_ctrl_dev_info where
  "recovered_info = zero_info\<lparr>di_state := 2, di_flags := 8\<rparr>"

lemma recovered_info_facts:
  "knows_device recovered_info quiesced_driver" "need_recovery recovered_info" "bit (di_flags recovered_info) 3"
  "di_dev_id recovered_info = 0" "di_state recovered_info \<noteq> UBLK_S_DEV_DEAD" "\<not> bit (di_flags recovered_info) 5"
  by (simp_all add: knows_device_def quiesced_driver_def recovered_info_def need_recovery_def zero_info_def consts_simps
      bit_numeral_word_iff)

lemma quiesced_flags: "recovery_flags quiesced_driver fd = 0"
  by (simp add: recovery_flags_def quiesced_driver_def features_sqe_def buf_sqe_def consts_simps command_numbers)

theorem example_deletes_after_signal_witness:
  "nop_app (logging quiesced_driver) 3 0 42 (Value 2) (Value ()) ([], [])
     (Value (), ([features_sqe 3, add_dev_sqe 3 (nop_prep_dev_info 0 0), info_sqe 3 0,
        path_sqe recovered_info 3 UBLK_U_CMD_START_USER_RECOVERY 0, info_sqe 3 0,
        params_sqe recovered_info 3 UBLK_U_CMD_GET_PARAMS (nop_prep_params recovered_info), info_sqe 3 0,
        path_sqe recovered_info 3 UBLK_U_CMD_END_USER_RECOVERY 42, info_sqe 3 0,
        path_sqe recovered_info 3 UBLK_U_CMD_STOP_DEV 0, info_sqe 3 0, path_sqe recovered_info 3 UBLK_U_CMD_DEL_DEV 0],
      ''ublk-nop: ublk device 0 is running...'' @ nl @ ''ublk-nop: received signal 2, shutting down...'' @ nl))"
proof -
  let ?i = recovered_info and ?K = "logging quiesced_driver"
  note k = recovered_info_facts(1) and i = recovered_info_facts(2-)
  have d: "\<forall>flags. di_dev_id (nop_prep_dev_info 0 flags) \<noteq> - 1" by (simp add: nop_prep_dev_info_def)
  obtain w1 where s1: "example_setup ?K 3 (nop_prep_dev_info 0) nop_prep_params ([], []) = (Value 0, (w1, []))"
    using example_setup_known [OF k, of "nop_prep_dev_info 0" 3 nop_prep_params "[]"] d i(3) by auto
  obtain w2 where s2: "example_start ?K 3 0 42 (Value 2) ''ublk-nop'' (w1, []) = (Value (), (w2,
      ''ublk-nop: ublk device 0 is running...'' @ nl @ ''ublk-nop: received signal 2, shutting down...'' @ nl))"
  proof -
    have "dec_str (unat (0::u32)) = ''0''" "dec_str (unat (2::u32)) = ''2''" by code_simp+
    then show thesis
      using that knows_device_start [OF k] knows_device_path_operations(1) [OF k] i
      by (simp add: example_start_def wait_signal_def running_text_def received_text_def await_def kernel_call_def print_def
          throwing_def)
  qed
  obtain w3 where "kernel_call (del_dev ?K NoQuery 3 0) (w2,
      ''ublk-nop: ublk device 0 is running...'' @ nl @ ''ublk-nop: received signal 2, shutting down...'' @ nl) =
      (Value (), (w3,
      ''ublk-nop: ublk device 0 is running...'' @ nl @ ''ublk-nop: received signal 2, shutting down...'' @ nl))"
    using knows_device_path_operations(2) [OF k] i(3) by (simp add: kernel_call_def)
  with s1 s2 have app: "example_app ?K 3 (nop_prep_dev_info 0) nop_prep_params 42 (Value 2) ''ublk-nop'' (Value ()) ([], [])
     (Value (), (w3, ''ublk-nop: ublk device 0 is running...'' @ nl @ ''ublk-nop: received signal 2, shutting down...'' @ nl))"
    by (intro example_app.deleted) (auto intro: when_all.both)
  have "di_dev_id (nop_prep_dev_info 0 0) = 0" by (simp add: nop_prep_dev_info_def)
  then show ?thesis
    using example_deletes_after_signal [OF k d _ app] app i
    by (simp add: nop_app_def setup_sqes_def Let_def quiesced_flags)
qed

section \<open>Leaving the main functions\<close>

lemma open_scoped_closes:
  assumes "\<And>fd fds w c fds' w'. scope fd (fds, w) = (c, (fds', w')) \<Longrightarrow> fds' = fds"
    and "open_scoped opened what scope (fds, w) = (c, (fds', w'))"
  shows "fds' = fds"
proof (cases opened)
  case (Inr fd)
  obtain c1 fds1 w1 where s: "scope fd (fd # fds, w) = (c1, (fds1, w1))" by (metis prod_cases3)
  then have "fds1 = fd # fds" by (rule assms(1))
  with s Inr assms(2) show ?thesis by (simp add: open_scoped_def run_deferred_def)
qed (use assms(2) in \<open>simp add: open_scoped_def throw_def\<close>)

lemma serve_scope_closes: "serve_scope os app (fds, w) = (c, (fds', w')) \<Longrightarrow> fds' = fds"
  unfolding serve_scope_def
  by (erule open_scoped_closes [rotated], erule open_scoped_closes [rotated])
    (auto simp: host_task_def throw_def split: sum.splits prod.splits)

lemma loop_scope_closes: "loop_scope F os app args (fds, w) = (c, (fds', w')) \<Longrightarrow> fds' = fds"
  unfolding loop_scope_def
  by (erule open_scoped_closes [rotated])
    (auto simp: await_def host_task_def print_def throw_def split: sum.splits prod.splits outcome.splits
      dest!: serve_scope_closes)

lemma main_status_closes:
  assumes "\<And>args fds w c fds' w'. scope args (fds, w) = (c, (fds', w')) \<Longrightarrow> fds' = fds"
  shows "fst (snd (main_status usage parsed scope (fds, w))) = fds"
proof (cases parsed)
  case (Parsed args)
  obtain c1 fds1 w1 where s: "scope args (fds, w) = (c1, (fds1, w1))" by (metis prod_cases3)
  then have "fds1 = fds" by (rule assms)
  with s Parsed show ?thesis by (simp add: main_status_def)
qed (simp_all add: main_status_def host_task_def split: prod.splits)

text \<open>
  However a server ends (help or wrong arguments, a number that cannot be read, a failing
  system call, an unusable backing file, an error of the device, or normally) every descriptor
  that \<^verbatim>\<open>main\<close> opened has been closed and no other; and without a backing file the loop server opens
  nothing, prints its usage and returns 1.
\<close>

theorem servers_close_descriptors:
  "fst (snd (loop_main F os app prog opts (fds, w))) = fds \<and> fst (snd (nop_main os app' prog opts' (fds, w))) = fds \<and>
   loop_main F os app prog [] (fds, (w', out)) = (Some 1, (fds, (w', out @ loop_print_usage prog)))"
proof (intro conjI)
  show "fst (snd (loop_main F os app prog opts (fds, w))) = fds"
    unfolding loop_main_def by (rule main_status_closes, erule loop_scope_closes)
  show "fst (snd (nop_main os app' prog opts' (fds, w))) = fds"
    unfolding nop_main_def by (rule main_status_closes, erule serve_scope_closes)
qed (simp add: loop_main_def main_status_def default_loop_args_def host_task_def print_def)

end
