(* ===== verification/Ublk_Worker_Runs.thy ===== *)
theory Ublk_Worker_Runs
  imports Ublk_Worker
begin

text \<open>
  What the runs of \<^verbatim>\<open>IoQueue::run\<close> (\<^verbatim>\<open>detail/queue.hpp\<close>, modelled in \<open>Ublk_Worker\<close>) add up to: once the
  device is gone a queue drains to its end, and the results a tag commits are those its handler
  gave for the requests it was handed, in order.
\<close>

section \<open>Draining a queue\<close>

text \<open>
  When the device is gone, every fetching command ends its worker: the moves of such a queue are
  its steps in which a worker that was waiting for the driver either stays or ends. Each worker has
  at most four steps left, and the run two more.
\<close>

fun worker_rank :: "worker_pc \<Rightarrow> nat" where
  "worker_rank (WorkerDone _) = 0"
| "worker_rank WorkerAssert = 0"
| "worker_rank AwaitFetch = 1"
| "worker_rank AwaitFetchData = 1"
| "worker_rank AwaitCommit = 1"
| "worker_rank AwaitCommitData = 1"
| "worker_rank WorkerStart = 2"
| "worker_rank (AwaitUnregister _ _) = 2"
| "worker_rank (AwaitHandler _) = 3"
| "worker_rank AwaitRegister = 4"

definition gone_step :: "bool \<Rightarrow> io_queue \<Rightarrow> io_run \<Rightarrow> io_run \<Rightarrow> bool" where
  "gone_step queue_handler q r r' \<longleftrightarrow> run_step queue_handler q r r' \<and>
     list_all2 (\<lambda>w w'. fetching (w_pc w) \<longrightarrow> w' = w \<or> worker_ended w') (r_workers r) (r_workers r')"

definition run_rank :: "io_run \<Rightarrow> nat" where
  "run_rank r = (\<Sum>w\<leftarrow>r_workers r. worker_rank (w_pc w)) +
     (case r_phase r of Initializing \<Rightarrow> 2 | Running \<Rightarrow> 1 | Finished _ \<Rightarrow> 0)"

definition run_over :: "io_queue \<Rightarrow> io_run \<Rightarrow> bool" where
  "run_over q r \<longleftrightarrow> (\<exists>c. r_phase r = Finished c) \<or>
     q_buf_bases q \<noteq> [] \<and> (\<exists>w \<in> set (r_workers r). w_pc w = WorkerAssert)"

lemma worker_step_rank:
  assumes "worker_step q tag buf w w'" and "fetching (w_pc w) \<longrightarrow> w' = w \<or> worker_ended w'"
  shows "worker_rank (w_pc w') < worker_rank (w_pc w)"
  using assms
proof cases
  case (start pc a)
  then show ?thesis by (auto simp: worker_start_def)
next
  case (resume iod c pc a)
  show ?thesis
  proof (cases "fetching (w_pc w)")
    case True
    have "w_trace w' \<noteq> w_trace w" using resume by simp
    with True assms(2) have "worker_ended w'" by auto
    with True show ?thesis by (auto simp: worker_ended_def fetching_def split: worker_pc.splits)
  next
    case False
    with resume show ?thesis
      by (cases "w_pc w"; cases c)
        (auto simp: fetching_def on_value_def worker_handle_def worker_commit_def Let_def
          split: outcome.splits prod.splits if_splits)
  qed
qed

lemma gone_step_rank:
  assumes "gone_step qh q r r'" and "run_inv qh q r"
  shows "run_rank r' < run_rank r"
proof -
  have s: "run_step qh q r r'" and a: "list_all2 (\<lambda>w w'. fetching (w_pc w) \<longrightarrow> w' = w \<or> worker_ended w') (r_workers r) (r_workers r')"
    using assms(1) by (simp_all add: gone_step_def)
  from s show ?thesis
  proof cases
    case (work tag w')
    have l: "unat tag < length (r_workers r)"
      using work assms(2) by (simp add: run_inv_def workers_conform_def word_less_nat_alt)
    with a work have "fetching (w_pc (r_workers r ! unat tag)) \<longrightarrow> w' = r_workers r ! unat tag \<or> worker_ended w'"
      by (auto simp: list_all2_conv_all_nth)
    with work l worker_step_rank sum_list_update_less [OF l, of "\<lambda>w. worker_rank (w_pc w)" w'] show ?thesis
      by (simp add: run_rank_def)
  qed (auto simp: run_rank_def)
qed

lemma worker_can_move:
  assumes "\<not> worker_ended w" and "w_pc w \<noteq> WorkerAssert"
  shows "\<exists>w'. worker_step q tag buf w w' \<and> (fetching (w_pc w) \<longrightarrow> worker_ended w')"
proof (cases "w_pc w = WorkerStart")
  case True
  then show ?thesis using worker_step.start [of w q tag buf] by (auto simp: worker_start_def fetching_def)
next
  case False
  define c where "c = (case w_pc w of AwaitHandler _ \<Rightarrow> HandlerDone Stopped | _ \<Rightarrow> CqeDone Stopped)"
  have "\<exists>x. worker_resume q tag buf (w_iod w) (w_pc w) c = Some x \<and> (fetching (w_pc w) \<longrightarrow> fst x = WorkerDone Stopped)"
    using assms False
    by (cases "w_pc w") (auto simp: c_def worker_ended_def fetching_def on_errno_result_def errno_result_def on_value_def
        simp del: split_paired_Ex)
  then obtain pc a where r: "worker_resume q tag buf (w_iod w) (w_pc w) c = Some (pc, a)"
    and e: "fetching (w_pc w) \<longrightarrow> pc = WorkerDone Stopped" by auto
  with worker_step.resume [OF _ r] show ?thesis
    by (intro exI [of _ "w\<lparr>w_pc := pc, w_iod := w_iod w, w_trace := w_trace w @ Complete c # started a\<rparr>"])
      (auto simp: worker_ended_def)
qed

lemma gone_stuck_over:
  assumes inv: "run_inv qh q r" and stuck: "\<nexists>r'. gone_step qh q r r'"
  shows "run_over q r"
proof (cases "r_phase r")
  case Initializing
  then have "gone_step qh q r (r\<lparr>r_phase := Running\<rparr>)"
    by (auto simp: gone_step_def list_all2_conv_all_nth intro: run_step.initialized)
  with stuck show ?thesis by blast
next
  case Running
  have "\<not> list_all worker_ended (r_workers r)"
  proof
    assume "list_all worker_ended (r_workers r)"
    from run_step.join [OF Running this, of qh q] have "\<exists>r'. gone_step qh q r r'"
      by (fastforce simp: gone_step_def list_all2_conv_all_nth)
    with stuck show False by blast
  qed
  then obtain i where i: "i < length (r_workers r)" "\<not> worker_ended (r_workers r ! i)" by (auto simp: list_all_length)
  have len: "length (r_workers r) = unat (q_queue_depth q)" using inv by (simp add: run_inv_def workers_conform_def)
  let ?tag = "of_nat i :: u16"
  have u: "unat ?tag = i"
    using i(1) len unsigned_less [of "q_queue_depth q", where ?'a = nat]
    by (simp add: unsigned_of_nat take_bit_nat_eq_self)
  have t: "?tag < q_queue_depth q" using u i(1) len by (simp add: word_less_nat_alt)
  show ?thesis
  proof (cases "w_pc (r_workers r ! i) = WorkerAssert")
    case True
    have "conforms q ?tag (get_buf (q_buf_bases q) ?tag) (r_workers r ! i)"
      using inv t u by (auto simp: run_inv_def workers_conform_def)
    with True have "q_buf_bases q \<noteq> []" by (auto simp: conforms_def get_buf_def)
    with True i(1) show ?thesis by (auto simp: run_over_def)
  next
    case False
    with worker_can_move [OF i(2)] obtain w' where
      w': "worker_step q ?tag (get_buf (q_buf_bases q) ?tag) (r_workers r ! i) w'"
        "fetching (w_pc (r_workers r ! i)) \<longrightarrow> worker_ended w'" by blast
    from run_step.work [OF Running t, of w' qh] w' u i(1)
    have "gone_step qh q r (r\<lparr>r_workers := (r_workers r)[i := w']\<rparr>)"
      by (auto simp: gone_step_def list_all2_conv_all_nth nth_list_update)
    with stuck show ?thesis by blast
  qed
qed (simp add: run_over_def)

interpretation io_drain: draining "new_run q" "run_step qh q" "run_inv qh q" "gone_step qh q" "\<lambda>_. True" run_rank "run_over q"
  for qh q
  by unfold_locales (simp_all add: gone_step_rank gone_stuck_over, simp add: gone_step_def)

text \<open>
  C8. A queue whose device is gone comes to its end, from every state it can be in and whatever its
  workers are doing: every sequence of its steps in which the driver answers no fetching command
  with a request is at most \<open>run_rank\<close> steps long, four for each worker and two for the run; one
  that cannot be continued has finished the run, and one that finishes it always exists. The only
  exception is a server with its own buffers that got a zone append, for which the assertion of the
  worker does not hold.
\<close>

theorem queue_drains:
  assumes "new_run q r" and "(run_step queue_handler q)\<^sup>*\<^sup>* r r'" and "(gone_step queue_handler q ^^ n) r' r''"
  shows "n \<le> run_rank r' \<and> run_rank r' \<le> 4 * unat (q_queue_depth q) + 2 \<and>
    ((\<nexists>t. gone_step queue_handler q r'' t) \<longrightarrow> run_over q r'') \<and>
    (\<exists>t. (gone_step queue_handler q)\<^sup>*\<^sup>* r'' t \<and> run_over q t)"
proof -
  have "run_inv queue_handler q r'" using assms(1,2) by (rule io_run.inv_reachable)
  then have len: "length (r_workers r') = unat (q_queue_depth q)" by (simp add: run_inv_def workers_conform_def)
  have "worker_rank (w_pc w) \<le> 4" for w by (cases "w_pc w") auto
  then have "(\<Sum>w\<leftarrow>r_workers r'. worker_rank (w_pc w)) \<le> (\<Sum>w\<leftarrow>r_workers r'. 4)" by (intro sum_list_mono)
  then have "run_rank r' \<le> 4 * unat (q_queue_depth q) + 2"
    by (auto simp: run_rank_def sum_list_triv len split: run_phase.splits)
  with io_drain.drains [OF assms(1,2) TrueI assms(3)] show ?thesis by blast
qed

theorem queue_drains_witness:
  "\<exists>t. (gone_step True sample_queue)\<^sup>*\<^sup>* sample_run t \<and> run_over sample_queue t"
proof -
  have n: "new_run sample_queue sample_run"
    by (simp add: new_run_def sample_run_def sample_queue_def sample_worker_def new_worker_def
        list_all_length)
  have "(gone_step True sample_queue ^^ 0) sample_run sample_run" by simp
  from queue_drains [OF n rtranclp.rtrancl_refl this] show ?thesis by blast
qed

subsection \<open>Requests and their results\<close>

text \<open>
  What a history says about requests: the handler calls with their completions, and the results
  with the address field of the committing commands, both in order.
\<close>

record tag_history =
  th_call :: "IoData option"
  th_handled :: "(IoData \<times> (handler_error, handler_value) outcome) list"
  th_commits :: "(s32 \<times> u64) list"

fun note_event :: "tag_history \<Rightarrow> event \<Rightarrow> tag_history" where
  "note_event h (Start (HandleIo d)) = h\<lparr>th_call := Some d\<rparr>"
| "note_event h (Complete (HandlerDone c)) =
     (case th_call h of Some d \<Rightarrow> h\<lparr>th_call := None, th_handled := th_handled h @ [(d, c)]\<rparr> | None \<Rightarrow> h)"
| "note_event h (Start (Uring s)) =
     (if io_op s = UBLK_U_IO_COMMIT_AND_FETCH_REQ
      then h\<lparr>th_commits := th_commits h @ [(ic_result (io_command s), ic_addr (io_command s))]\<rparr> else h)"
| "note_event h (Complete (CqeDone c)) = h"

definition history :: "event list \<Rightarrow> tag_history" where
  "history es = foldl note_event \<lparr>th_call = None, th_handled = [], th_commits = []\<rparr> es"

text \<open>The commit that belongs to a handled request.\<close>

definition commit_of :: "u64 \<Rightarrow> IoData \<times> (handler_error, handler_value) outcome \<Rightarrow> s32 \<times> u64" where
  "commit_of buf = (\<lambda>(d, c). (fst (io_outcome c),
     if ublksrv_get_op (io_iod d) = UBLK_IO_OP_ZONE_APPEND then snd (io_outcome c) else buf))"

definition request_of :: "io_queue \<Rightarrow> u16 \<Rightarrow> u64 \<Rightarrow> IoData \<Rightarrow> bool" where
  "request_of q tag buf d \<longleftrightarrow> io_q_id d = q_q_id q \<and> io_tag d = tag \<and> io_buf d = buf"

fun history_at :: "io_queue \<Rightarrow> u16 \<Rightarrow> u64 \<Rightarrow> tag_state \<Rightarrow> tag_history \<Rightarrow> bool" where
  "history_at q tag buf (Handling reg iod) h \<longleftrightarrow>
     (\<exists>d. th_call h = Some d \<and> io_iod d = iod \<and> request_of q tag buf d) \<and>
     th_commits h = map (commit_of buf) (th_handled h)"
| "history_at q tag buf (Handled reg iod r) h \<longleftrightarrow>
     th_commits h @ [(fst r, if ublksrv_get_op iod = UBLK_IO_OP_ZONE_APPEND then snd r else buf)] =
       map (commit_of buf) (th_handled h)"
| "history_at q tag buf (Unregistering iod r) h \<longleftrightarrow>
     th_commits h @ [(fst r, if ublksrv_get_op iod = UBLK_IO_OP_ZONE_APPEND then snd r else buf)] =
       map (commit_of buf) (th_handled h)"
| "history_at q tag buf Closed h \<longleftrightarrow> (\<exists>xs. th_commits h @ xs = map (commit_of buf) (th_handled h) \<and> length xs \<le> 1)"
| "history_at q tag buf _ h \<longleftrightarrow> th_commits h = map (commit_of buf) (th_handled h)"

lemma history_at_fetch_done:
  "th_commits h = map (commit_of buf) (th_handled h) \<Longrightarrow> history_at q tag buf (fetch_done r) h"
  by (auto simp: fetch_done_def split: option.splits)

lemma commands_no_commit:
  "UBLK_U_IO_FETCH_REQ \<noteq> UBLK_U_IO_COMMIT_AND_FETCH_REQ" "UBLK_U_IO_NEED_GET_DATA \<noteq> UBLK_U_IO_COMMIT_AND_FETCH_REQ"
  "UBLK_U_IO_REGISTER_IO_BUF \<noteq> UBLK_U_IO_COMMIT_AND_FETCH_REQ" "UBLK_U_IO_UNREGISTER_IO_BUF \<noteq> UBLK_U_IO_COMMIT_AND_FETCH_REQ"
  by (simp_all add: consts_simps command_numbers)

definition history_inv :: "io_queue \<Rightarrow> u16 \<Rightarrow> u64 \<Rightarrow> tag_state \<Rightarrow> tag_history \<Rightarrow> bool" where
  "history_inv q tag buf d h \<longleftrightarrow> history_at q tag buf d h \<and> list_all (request_of q tag buf \<circ> fst) (th_handled h)"

lemma note_event_history:
  "tag_step q tag buf d e = Some d' \<Longrightarrow> history_inv q tag buf d h \<Longrightarrow> history_inv q tag buf d' (note_event h e)"
  by (cases "(q, tag, buf, d, e)" rule: tag_step.cases)
    (auto simp: history_inv_def for_tag_def commands_no_commit request_of_def commit_of_def history_at_fetch_done
      split: if_splits outcome.splits)

lemma tag_run_history:
  "tag_run q tag buf d es = Some d' \<Longrightarrow> history_inv q tag buf d h \<Longrightarrow> history_inv q tag buf d' (foldl note_event h es)"
proof (induction es arbitrary: d h)
  case (Cons e es)
  then obtain d1 where "tag_step q tag buf d e = Some d1" "tag_run q tag buf d1 es = Some d'"
    by (auto split: option.splits)
  with Cons.IH note_event_history Cons.prems(2) show ?case by simp
qed simp

lemma history_at_prefix:
  "history_at q tag buf d h \<Longrightarrow> \<exists>xs. th_commits h @ xs = map (commit_of buf) (th_handled h) \<and> length xs \<le> 1"
  by (cases "(q, tag, buf, d, h)" rule: history_at.cases) auto

lemma worker_history:
  assumes "new_worker w" and "(worker_step q tag buf)\<^sup>*\<^sup>* w w'" and "h = history (w_trace w')"
  shows "\<exists>xs. th_commits h @ xs = map (commit_of buf) (th_handled h) \<and> length xs \<le> 1"
    and "list_all (request_of q tag buf \<circ> fst) (th_handled h)"
proof -
  obtain d where d: "tag_run q tag buf Idle (w_trace w') = Some d"
    using worker.inv_reachable [OF assms(1,2)] by (auto simp: conforms_def)
  have "history_inv q tag buf Idle \<lparr>th_call = None, th_handled = [], th_commits = []\<rparr>"
    by (simp add: history_inv_def)
  from tag_run_history [OF d this] have "history_inv q tag buf d h" by (simp add: history_def assms(3))
  then show "\<exists>xs. th_commits h @ xs = map (commit_of buf) (th_handled h) \<and> length xs \<le> 1"
    and "list_all (request_of q tag buf \<circ> fst) (th_handled h)"
    unfolding history_inv_def using history_at_prefix by blast+
qed

text \<open>
  C6. A worker commits what its handler answered: the results it has committed are, in order and
  without a gap or a repetition, those of its completed handler calls, of which at most the last
  one is still uncommitted; each carries the zone address the handler gave for a zone append and
  the buffer of the tag otherwise, and each call was for this queue, tag and buffer.
\<close>

theorem commits_are_handler_results:
  assumes "new_worker w" and "(worker_step q tag buf)\<^sup>*\<^sup>* w w'"
  shows "\<exists>xs. th_commits (history (w_trace w')) @ xs = map (commit_of buf) (th_handled (history (w_trace w'))) \<and>
      length xs \<le> 1 \<and> list_all (request_of q tag buf \<circ> fst) (th_handled (history (w_trace w')))"
  using worker_history [OF assms refl] by blast

text \<open>A worker that has served one request of eight sectors.\<close>

lemma sample_served:
  "\<exists>w d. (worker_step sample_queue 2 0)\<^sup>*\<^sup>* sample_worker w \<and> th_commits (history (w_trace w)) = [(4096, 0)] \<and>
     th_handled (history (w_trace w)) = [(d, Value (IoResult (IntResult 4096)))] \<and> io_iod d = idle_iod"
proof -
  let ?xs = "[(idle_iod, CqeDone (Value 0)), (idle_iod, CqeDone (Value 0)),
        (idle_iod, HandlerDone (Value (IoResult (IntResult 4096)))), (idle_iod, CqeDone (Value 0))]"
  have "\<exists>w d. worker_exec sample_queue 2 0 sample_running ?xs = Some w \<and> th_commits (history (w_trace w)) = [(4096, 0)] \<and>
      th_handled (history (w_trace w)) = [(d, Value (IoResult (IntResult 4096)))] \<and> io_iod d = idle_iod"
    by (simp add: worker_eval Let_def history_def started_def worker_start_def raw_simps command_numbers to_s32_def)
  then obtain w d where w: "worker_exec sample_queue 2 0 sample_running ?xs = Some w"
    and h: "th_commits (history (w_trace w)) = [(4096, 0)]"
      "th_handled (history (w_trace w)) = [(d, Value (IoResult (IntResult 4096)))]" "io_iod d = idle_iod" by blast
  have "(worker_step sample_queue 2 0)\<^sup>*\<^sup>* sample_worker w"
    using sample_step worker_exec_reachable [OF w] by (rule converse_rtranclp_into_rtranclp)
  with h show ?thesis by blast
qed

lemma sample_worker_new: "new_worker sample_worker"
  by (simp add: new_worker_def sample_worker_def)

theorem commits_are_handler_results_witness:
  "\<exists>w xs. (worker_step sample_queue 2 0)\<^sup>*\<^sup>* sample_worker w \<and> th_commits (history (w_trace w)) = [(4096, 0)] \<and>
     [(4096, 0)] @ xs = map (commit_of 0) (th_handled (history (w_trace w)))"
proof -
  obtain w where w: "(worker_step sample_queue 2 0)\<^sup>*\<^sup>* sample_worker w" "th_commits (history (w_trace w)) = [(4096, 0)]"
    using sample_served by blast
  from commits_are_handler_results [OF sample_worker_new w(1)] w show ?thesis by metis
qed

end
