(* ===== verification/Ublk_Servers.thy ===== *)
theory Ublk_Servers
  imports Ublk_Examples Ublk_Worker_Runs
begin

text \<open>
  The handlers of the example servers (\<^verbatim>\<open>examples/loop.cpp\<close> and \<^verbatim>\<open>examples/nop.cpp\<close>, modelled in
  \<open>Ublk_Examples\<close>) against what a client of the device relies on: the loop server against the
  specification of a block device, an array of sectors that reads return and writes replace, and
  the nop server, run by a worker, against the results it commits.
\<close>

section \<open>The loop server as a block device\<close>

text \<open>
  What the server relies on from the operating system for an operation on the backing file that
  lies within the file and is transferred completely: the bytes at the offset are copied to or
  from the buffer, the rest of the file and of the buffer is left alone, and the result is the
  number of bytes; a flush changes neither. The system itself is the parameter \<open>sys\<close>, from an
  operation, the bytes of the file and the bytes of the buffer to the result and the new bytes.
\<close>

definition pread :: "nat \<Rightarrow> nat \<Rightarrow> u8 list \<Rightarrow> u8 list" where
  "pread n off file = take n (drop off file)"

definition pwrite :: "u8 list \<Rightarrow> nat \<Rightarrow> u8 list \<Rightarrow> u8 list" where
  "pwrite data off file = take off file @ data @ drop (off + length data) file"

definition complete_transfers :: "(backing_op \<Rightarrow> u8 list \<times> u8 list \<Rightarrow> s32 \<times> u8 list \<times> u8 list) \<Rightarrow> bool" where
  "complete_transfers sys \<longleftrightarrow>
     (\<forall>fd addr n off file buf. unat off + unat n \<le> length file \<and> unat n \<le> length buf \<longrightarrow>
        sys (AsyncRead fd addr n off) (file, buf) =
          (int (unat n), file, pread (unat n) (unat off) file @ drop (unat n) buf) \<and>
        sys (AsyncWrite fd addr n off) (file, buf) =
          (int (unat n), pwrite (take (unat n) buf) (unat off) file, buf)) \<and>
     (\<forall>fd file buf. sys (AsyncFdatasync fd) (file, buf) = (0, file, buf))"

lemma complete_transfersD:
  assumes "complete_transfers sys"
  shows "unat off + unat n \<le> length file \<Longrightarrow> unat n \<le> length buf \<Longrightarrow>
      sys (AsyncRead fd addr n off) (file, buf) = (int (unat n), file, pread (unat n) (unat off) file @ drop (unat n) buf)"
    and "unat off + unat n \<le> length file \<Longrightarrow> unat n \<le> length buf \<Longrightarrow>
      sys (AsyncWrite fd addr n off) (file, buf) = (int (unat n), pwrite (take (unat n) buf) (unat off) file, buf)"
    and "sys (AsyncFdatasync fd) (file, buf) = (0, file, buf)"
  using assms by (simp_all add: complete_transfers_def)

text \<open>The abstract block device: an array of sectors, read and written by number.\<close>

definition sector :: "u8 list \<Rightarrow> nat \<Rightarrow> u8 list" where
  "sector bytes s = take SECTOR_SIZE (drop (SECTOR_SIZE * s) bytes)"

definition write_sectors :: "nat \<Rightarrow> nat \<Rightarrow> (nat \<Rightarrow> u8 list) \<Rightarrow> (nat \<Rightarrow> u8 list) \<Rightarrow> nat \<Rightarrow> u8 list" where
  "write_sectors first nr data dev s = (if first \<le> s \<and> s < first + nr then data (s - first) else dev s)"

definition read_sectors :: "nat \<Rightarrow> nat \<Rightarrow> (nat \<Rightarrow> u8 list) \<Rightarrow> u8 list" where
  "read_sectors first nr dev = concat (map dev [first..<first + nr])"

lemma pread_length: "off + n \<le> length file \<Longrightarrow> length (pread n off file) = n"
  by (simp add: pread_def)

lemma pwrite_length: "off + length data \<le> length file \<Longrightarrow> length (pwrite data off file) = length file"
  by (simp add: pwrite_def)

lemma pwrite_nth:
  "off + length data \<le> length file \<Longrightarrow> i < length file \<Longrightarrow>
   pwrite data off file ! i = (if off \<le> i \<and> i < off + length data then data ! (i - off) else file ! i)"
  by (auto simp: pwrite_def nth_append)

lemma sector_length: "SECTOR_SIZE * s + SECTOR_SIZE \<le> length bytes \<Longrightarrow> length (sector bytes s) = SECTOR_SIZE"
  by (simp add: sector_def)

lemma sector_nth:
  "SECTOR_SIZE * s + SECTOR_SIZE \<le> length bytes \<Longrightarrow> i < SECTOR_SIZE \<Longrightarrow> sector bytes s ! i = bytes ! (SECTOR_SIZE * s + i)"
  by (simp add: sector_def)

lemma pread_sectors:
  "pread (SECTOR_SIZE * nr) (SECTOR_SIZE * first) file = read_sectors first nr (sector file)"
proof (induction nr)
  case (Suc nr)
  have "take (SECTOR_SIZE * nr + SECTOR_SIZE) (drop (SECTOR_SIZE * first) file) =
      take (SECTOR_SIZE * nr) (drop (SECTOR_SIZE * first) file) @
      take SECTOR_SIZE (drop (SECTOR_SIZE * nr) (drop (SECTOR_SIZE * first) file))"
    by (rule take_add)
  moreover have "drop (SECTOR_SIZE * nr) (drop (SECTOR_SIZE * first) file) = drop (SECTOR_SIZE * (first + nr)) file"
    by (simp add: distrib_left add.commute)
  ultimately have "pread (SECTOR_SIZE * Suc nr) (SECTOR_SIZE * first) file =
      pread (SECTOR_SIZE * nr) (SECTOR_SIZE * first) file @ sector file (first + nr)"
    by (simp add: pread_def sector_def add.commute)
  with Suc show ?case by (simp add: read_sectors_def)
qed (simp add: pread_def read_sectors_def)

text \<open>Multiples of the sector size compare like the factors.\<close>

lemma sector_offset:
  assumes "i < SECTOR_SIZE"
  shows "SECTOR_SIZE * a \<le> SECTOR_SIZE * s + i \<longleftrightarrow> a \<le> s" and "SECTOR_SIZE * s + i < SECTOR_SIZE * a \<longleftrightarrow> s < a"
proof -
  show l: "SECTOR_SIZE * s + i < SECTOR_SIZE * a \<longleftrightarrow> s < a"
  proof
    assume "SECTOR_SIZE * s + i < SECTOR_SIZE * a"
    then have "SECTOR_SIZE * s < SECTOR_SIZE * a" by linarith
    then show "s < a" by simp
  next
    assume "s < a"
    then have "SECTOR_SIZE * Suc s \<le> SECTOR_SIZE * a" by (intro mult_le_mono2) simp
    with assms show "SECTOR_SIZE * s + i < SECTOR_SIZE * a" by simp
  qed
  then show "SECTOR_SIZE * a \<le> SECTOR_SIZE * s + i \<longleftrightarrow> a \<le> s" by linarith
qed

lemma sector_pwrite:
  assumes data: "length data = SECTOR_SIZE * nr" and fits: "SECTOR_SIZE * (first + nr) \<le> length file"
    and s: "SECTOR_SIZE * s + SECTOR_SIZE \<le> length file"
  shows "sector (pwrite data (SECTOR_SIZE * first) file) s = write_sectors first nr (sector data) (sector file) s"
proof -
  let ?z = SECTOR_SIZE
  have fits': "?z * first + length data \<le> length file" using data fits by (simp add: distrib_left)
  let ?file' = "pwrite data (?z * first) file"
  have s': "?z * s + ?z \<le> length ?file'" using s pwrite_length [OF fits'] by simp
  have in_data: "?z * (s - first) + ?z \<le> length data" if "first \<le> s" "s < first + nr"
  proof -
    have "?z * Suc (s - first) \<le> ?z * nr" using that by (intro mult_le_mono2) simp
    then show ?thesis by (simp add: data)
  qed
  have shift: "?z * s + i - ?z * first = ?z * (s - first) + i" if "first \<le> s" for i
    using that by (simp add: diff_mult_distrib2)
  have w: "?z * first + length data = ?z * (first + nr)" by (simp add: data distrib_left)
  show ?thesis
  proof (rule nth_equalityI)
    show "length (sector ?file' s) = length (write_sectors first nr (sector data) (sector file) s)"
      using sector_length [OF s'] sector_length [OF s] sector_length [OF in_data] by (simp add: write_sectors_def)
  next
    fix i assume "i < length (sector ?file' s)"
    then have i: "i < ?z" using sector_length [OF s'] by simp
    then have "?z * s + i < length file" using s by linarith
    then show "sector ?file' s ! i = write_sectors first nr (sector data) (sector file) s ! i"
      using sector_nth [OF s' i] sector_nth [OF s i] sector_nth [OF in_data i] pwrite_nth [OF fits'] shift
        sector_offset [OF i]
      by (simp add: write_sectors_def w)
  qed
qed

lemma sector_within: "s < length bytes div SECTOR_SIZE \<Longrightarrow> SECTOR_SIZE * s + SECTOR_SIZE \<le> length bytes"
proof -
  assume "s < length bytes div SECTOR_SIZE"
  then have "SECTOR_SIZE * Suc s \<le> SECTOR_SIZE * (length bytes div SECTOR_SIZE)" by (intro mult_le_mono2) simp
  also have "\<dots> \<le> length bytes" by simp
  finally show ?thesis by simp
qed

text \<open>
  A request with its buffer, served by the handler and the operation it starts: what the client
  gets (the result and the buffer afterwards) and the bytes of the file afterwards. The
  specification does the same on an array of sectors.
\<close>

definition serve_request ::
  "(backing_op \<Rightarrow> u8 list \<times> u8 list \<Rightarrow> s32 \<times> u8 list \<times> u8 list) \<Rightarrow> u8 list \<Rightarrow> IoData \<times> u8 list \<Rightarrow> (s32 \<times> u8 list) \<times> u8 list" where
  "serve_request sys bytes = (\<lambda>(data, buf). case loop_handle_io data of
       Inl r \<Rightarrow> ((r, buf), bytes)
     | Inr op \<Rightarrow> (case sys op (bytes, buf) of (r, bytes', buf') \<Rightarrow> ((r, buf'), bytes')))"

fun serve_requests ::
  "(backing_op \<Rightarrow> u8 list \<times> u8 list \<Rightarrow> s32 \<times> u8 list \<times> u8 list) \<Rightarrow> u8 list \<Rightarrow> (IoData \<times> u8 list) list \<Rightarrow>
   (s32 \<times> u8 list) list \<times> u8 list" where
  "serve_requests sys bytes [] = ([], bytes)"
| "serve_requests sys bytes (rq # rqs) = (case serve_request sys bytes rq of
     (r, bytes') \<Rightarrow> case serve_requests sys bytes' rqs of (rs, bytes'') \<Rightarrow> (r # rs, bytes''))"

definition device_request :: "(nat \<Rightarrow> u8 list) \<Rightarrow> IoData \<times> u8 list \<Rightarrow> (s32 \<times> u8 list) \<times> (nat \<Rightarrow> u8 list)" where
  "device_request dev = (\<lambda>(data, buf).
     let op = ublksrv_get_op (io_iod data); first = unat (iod_start_sector (io_iod data)); nr = unat (iod_nr_sectors (io_iod data))
     in if op = UBLK_IO_OP_READ then ((int (SECTOR_SIZE * nr), read_sectors first nr dev @ drop (SECTOR_SIZE * nr) buf), dev)
        else if op = UBLK_IO_OP_WRITE then ((int (SECTOR_SIZE * nr), buf), write_sectors first nr (sector buf) dev)
        else if op = UBLK_IO_OP_FLUSH then ((0, buf), dev)
        else ((- EINVAL, buf), dev))"

fun device_requests ::
  "(nat \<Rightarrow> u8 list) \<Rightarrow> (IoData \<times> u8 list) list \<Rightarrow> (s32 \<times> u8 list) list \<times> (nat \<Rightarrow> u8 list)" where
  "device_requests dev [] = ([], dev)"
| "device_requests dev (rq # rqs) = (case device_request dev rq of
     (r, dev') \<Rightarrow> case device_requests dev' rqs of (rs, dev'') \<Rightarrow> (r # rs, dev''))"

text \<open>The sectors of a file, and a request within what the server announces for a device on that file.\<close>

definition abs_device :: "u8 list \<Rightarrow> nat \<Rightarrow> u8 list" where
  "abs_device bytes s = (if s < length bytes div SECTOR_SIZE then sector bytes s else [])"

definition request_fits :: "ublk_params \<Rightarrow> IoData \<times> u8 list \<Rightarrow> bool" where
  "request_fits params = (\<lambda>(data, buf). ublksrv_get_op (io_iod data) \<in> {UBLK_IO_OP_READ, UBLK_IO_OP_WRITE} \<longrightarrow>
     unat (iod_start_sector (io_iod data)) + unat (iod_nr_sectors (io_iod data)) \<le> unat (pb_dev_sectors (pr_basic params)) \<and>
     iod_nr_sectors (io_iod data) \<le> pb_max_sectors (pr_basic params) \<and>
     SECTOR_SIZE * unat (iod_nr_sectors (io_iod data)) \<le> length buf)"

lemma sector_take: "s < nr \<Longrightarrow> sector (take (SECTOR_SIZE * nr) bytes) s = sector bytes s"
proof -
  assume "s < nr"
  then have "SECTOR_SIZE * Suc s \<le> SECTOR_SIZE * nr" by (intro mult_le_mono2) simp
  then show ?thesis by (simp add: sector_def drop_take min_def)
qed

lemma sectors_within: "SECTOR_SIZE * n \<le> length bytes \<longleftrightarrow> n \<le> length bytes div SECTOR_SIZE"
  by (simp add: less_eq_div_iff_mult_less_eq mult.commute SECTOR_SIZE_def)

lemma read_abs_device:
  assumes "SECTOR_SIZE * (first + nr) \<le> length bytes"
  shows "read_sectors first nr (abs_device bytes) = read_sectors first nr (sector bytes)"
proof -
  have "map (abs_device bytes) [first..<first + nr] = map (sector bytes) [first..<first + nr]"
    using assms [unfolded sectors_within] by (intro map_cong) (simp_all add: abs_device_def)
  then show ?thesis unfolding read_sectors_def by (rule arg_cong)
qed

lemma write_abs_device:
  assumes "SECTOR_SIZE * (first + nr) \<le> length bytes" and "SECTOR_SIZE * nr \<le> length buf"
  shows "abs_device (pwrite (take (SECTOR_SIZE * nr) buf) (SECTOR_SIZE * first) bytes) =
    write_sectors first nr (sector buf) (abs_device bytes)"
proof
  fix s
  let ?data = "take (SECTOR_SIZE * nr) buf"
  have d: "length ?data = SECTOR_SIZE * nr" using assms(2) by simp
  have l: "length (pwrite ?data (SECTOR_SIZE * first) bytes) = length bytes"
    using assms(1) d by (intro pwrite_length) (simp add: distrib_left)
  show "abs_device (pwrite ?data (SECTOR_SIZE * first) bytes) s =
    write_sectors first nr (sector buf) (abs_device bytes) s"
    using sector_pwrite [OF d assms(1) sector_within, of s] assms(1) [unfolded sectors_within] sector_take [of "s - first" nr buf]
    by (auto simp: abs_device_def l write_sectors_def)
qed

text \<open>A read or write within the announced limits goes to the backing file with exact offset and length.\<close>

lemma loop_read_write_exact:
  assumes fits: "request_fits (loop_prep_params info (fi_size fi div of_nat SECTOR_SIZE) l p) (data, buf)"
    and len: "length bytes = unat (fi_size fi)"
    and rw: "ublksrv_get_op (io_iod data) = UBLK_IO_OP_READ \<or> ublksrv_get_op (io_iod data) = UBLK_IO_OP_WRITE"
    and "first = unat (iod_start_sector (io_iod data))" and "nr = unat (iod_nr_sectors (io_iod data))"
  shows "\<exists>n off. loop_handle_io data = Inr (if ublksrv_get_op (io_iod data) = UBLK_IO_OP_READ
      then AsyncRead (FixedFd 1) (io_buf data) n off else AsyncWrite (FixedFd 1) (io_buf data) n off) \<and>
    unat n = SECTOR_SIZE * nr \<and> unat off = SECTOR_SIZE * first \<and>
    SECTOR_SIZE * (first + nr) \<le> length bytes \<and> SECTOR_SIZE * nr \<le> length buf"
proof -
  have f: "unat (iod_start_sector (io_iod data)) + unat (iod_nr_sectors (io_iod data))
      \<le> unat (pb_dev_sectors (pr_basic (loop_prep_params info (fi_size fi div of_nat SECTOR_SIZE) l p)))"
    "iod_nr_sectors (io_iod data) \<le> pb_max_sectors (pr_basic (loop_prep_params info (fi_size fi div of_nat SECTOR_SIZE) l p))"
    "SECTOR_SIZE * nr \<le> length buf"
    using fits rw assms(5) by (auto simp: request_fits_def)
  show ?thesis
    using rw f(3) loop_request_exact [OF f(1,2)] assms(4,5) len
    by (intro exI [of _ "iod_nr_sectors (io_iod data) * 512"] exI [of _ "iod_start_sector (io_iod data) * 512"])
      (auto simp: loop_handle_io_def Let_def BACKING_FD_def SECTOR_SIZE_def bytes_narrow split: if_splits)
qed

lemma serve_request_refines:
  assumes sys: "complete_transfers sys" and len: "length bytes = unat (fi_size fi)"
    and fits: "request_fits (loop_prep_params info (fi_size fi div of_nat SECTOR_SIZE) l p) rq"
    and run: "serve_request sys bytes rq = (r, bytes')"
  shows "device_request (abs_device bytes) rq = (r, abs_device bytes') \<and> length bytes' = length bytes"
proof -
  obtain data buf where rq: "rq = (data, buf)" by (rule prod.exhaust)
  let ?o = "ublksrv_get_op (io_iod data)" and ?z = SECTOR_SIZE
  let ?first = "unat (iod_start_sector (io_iod data))" and ?nr = "unat (iod_nr_sectors (io_iod data))"
  note defs = serve_request_def device_request_def rq Let_def
  note rw = loop_read_write_exact [OF fits [unfolded rq] len _ refl refl]
  consider "?o = UBLK_IO_OP_READ" | "?o \<noteq> UBLK_IO_OP_READ" "?o = UBLK_IO_OP_WRITE"
    | "?o \<noteq> UBLK_IO_OP_READ" "?o \<noteq> UBLK_IO_OP_WRITE" by blast
  then show ?thesis
  proof cases
    case 1
    with rw obtain n off where op: "loop_handle_io data = Inr (AsyncRead (FixedFd 1) (io_buf data) n off)"
      "unat n = ?z * ?nr" "unat off = ?z * ?first" "?z * (?first + ?nr) \<le> length bytes" "?z * ?nr \<le> length buf" by auto
    moreover have "unat off + unat n \<le> length bytes" using op by (simp add: distrib_left)
    ultimately show ?thesis using 1 run
      by (auto simp: defs complete_transfersD(1) [OF sys] pread_sectors read_abs_device)
  next
    case 2
    with rw obtain n off where op: "loop_handle_io data = Inr (AsyncWrite (FixedFd 1) (io_buf data) n off)"
      "unat n = ?z * ?nr" "unat off = ?z * ?first" "?z * (?first + ?nr) \<le> length bytes" "?z * ?nr \<le> length buf" by auto
    moreover have fit: "unat off + unat n \<le> length bytes" using op by (simp add: distrib_left)
    moreover have "length (pwrite (take (?z * ?nr) buf) (?z * ?first) bytes) = length bytes"
      using fit op(2,3,5) by (intro pwrite_length) simp
    ultimately show ?thesis using 2 run
      by (auto simp: defs complete_transfersD(2) [OF sys] write_abs_device)
  next
    case 3
    then show ?thesis using run
      by (auto simp: defs complete_transfersD(3) [OF sys] loop_handle_io_def split: if_splits)
  qed
qed

text \<open>
  C7. The loop server implements a block device on its backing file: for every sequence of requests
  within the announced limits, served one after the other by operations the system transfers
  completely, the client gets the results and buffers that an array of sectors gives, on which a
  read returns the requested sectors, a write replaces exactly these by the buffer, a flush changes
  nothing and every other operation is refused with \<^verbatim>\<open>-EINVAL\<close>; and the file holds the sectors of the
  array at the end, at its old size.
\<close>

theorem loop_refines_block_device:
  assumes "complete_transfers sys" and "length bytes = unat (fi_size fi)"
    and "list_all (request_fits (loop_prep_params info (fi_size fi div of_nat SECTOR_SIZE) l p)) rqs"
    and "serve_requests sys bytes rqs = (rs, bytes')"
  shows "device_requests (abs_device bytes) rqs = (rs, abs_device bytes') \<and> length bytes' = length bytes"
  using assms(2-4)
proof (induction rqs arbitrary: bytes rs bytes')
  case (Cons rq rqs)
  obtain r bytes1 where r: "serve_request sys bytes rq = (r, bytes1)" by (rule prod.exhaust)
  obtain rs1 bytes2 where rs1: "serve_requests sys bytes1 rqs = (rs1, bytes2)" by (rule prod.exhaust)
  have s: "device_request (abs_device bytes) rq = (r, abs_device bytes1)" "length bytes1 = length bytes"
    using serve_request_refines [OF assms(1) Cons.prems(1) _ r] Cons.prems(2) by auto
  moreover have "device_requests (abs_device bytes1) rqs = (rs1, abs_device bytes2) \<and> length bytes2 = length bytes1"
    using Cons.IH [OF _ _ rs1] Cons.prems(1,2) s(2) by simp
  ultimately show ?case using Cons.prems(3) r rs1 by simp
qed simp

text \<open>
  A system that transfers completely, and what it does for a write of the second sector of a file
  followed by a read of both sectors and a discard.
\<close>

fun copying_system :: "backing_op \<Rightarrow> u8 list \<times> u8 list \<Rightarrow> s32 \<times> u8 list \<times> u8 list" where
  "copying_system (AsyncRead fd addr n off) (file, buf) =
     (int (unat n), file, pread (unat n) (unat off) file @ drop (unat n) buf)"
| "copying_system (AsyncWrite fd addr n off) (file, buf) =
     (int (unat n), pwrite (take (unat n) buf) (unat off) file, buf)"
| "copying_system (AsyncFdatasync fd) (file, buf) = (0, file, buf)"

lemma copying_system_transfers: "complete_transfers copying_system"
  by (simp add: complete_transfers_def)

definition sample_request :: "u32 \<Rightarrow> u64 \<Rightarrow> u32 \<Rightarrow> IoData" where
  "sample_request op first nr = \<lparr>io_q_id = 0, io_tag = 3,
     io_iod = \<lparr>iod_op_flags = op, iod_nr_sectors = nr, iod_start_sector = first, iod_addr = 0\<rparr>, io_buf = 4096\<rparr>"

theorem loop_refines_block_device_witness:
  "serve_requests copying_system (replicate 1024 1)
     [(sample_request 1 1 1, replicate 512 7), (sample_request 0 0 2, replicate 1024 0), (sample_request 3 0 2, [])] =
     ([(512, replicate 512 7), (1024, replicate 512 1 @ replicate 512 7), (- EINVAL, [])], replicate 512 1 @ replicate 512 7) \<and>
   device_requests (abs_device (replicate 1024 1))
     [(sample_request 1 1 1, replicate 512 7), (sample_request 0 0 2, replicate 1024 0), (sample_request 3 0 2, [])] =
     ([(512, replicate 512 7), (1024, replicate 512 1 @ replicate 512 7), (- EINVAL, [])],
      abs_device (replicate 512 1 @ replicate 512 7))"
proof -
  let ?rqs = "[(sample_request 1 1 1, replicate 512 7), (sample_request 0 0 2, replicate 1024 0), (sample_request 3 0 2, [])]"
  let ?rs = "[(512, replicate 512 7), (1024, replicate 512 1 @ replicate 512 7), (- EINVAL, [])] :: (s32 \<times> u8 list) list"
  let ?file = "\<lparr>fi_size = 1024, fi_logical_bs_shift = 9, fi_physical_bs_shift = 12\<rparr>"
  have ops: "loop_handle_io (sample_request 1 1 1) = Inr (AsyncWrite (FixedFd 1) 4096 512 512)"
    "loop_handle_io (sample_request 0 0 2) = Inr (AsyncRead (FixedFd 1) 4096 1024 0)"
    "loop_handle_io (sample_request 3 0 2) = Inl (- EINVAL)"
    by (simp_all add: sample_request_def loop_handle_io_def SECTOR_SIZE_def BACKING_FD_def ublksrv_get_op_def consts_simps)
  have served: "serve_requests copying_system (replicate 1024 1) ?rqs = (?rs, replicate 512 1 @ replicate 512 7)"
    by (simp add: serve_request_def ops pwrite_def pread_def)
  have "list_all (request_fits (loop_prep_params (zero_info\<lparr>di_max_io_buf_bytes := 524288\<rparr>)
      (fi_size ?file div of_nat SECTOR_SIZE) 9 12)) ?rqs"
    by (simp add: request_fits_def sample_request_def loop_prep_params_def SECTOR_SIZE_def ublksrv_get_op_def consts_simps)
  from loop_refines_block_device [OF copying_system_transfers _ this served] served show ?thesis by simp
qed

section \<open>The nop server on a worker\<close>

lemma nop_outcome:
  assumes "iod_nr_sectors (io_iod d) \<le> pb_max_sectors (pr_basic (nop_prep_params info))"
    and "di_max_io_buf_bytes info \<le> di_max_io_buf_bytes (nop_prep_dev_info dev_id flags)"
  shows "io_outcome (Value (IoResult (nop_handle_io d))) = (512 * int (unat (iod_nr_sectors (io_iod d))), 0)"
proof -
  let ?nr = "iod_nr_sectors (io_iod d)"
  have le: "unat ?nr * 512 \<le> 524288"
    using assms drop_bit_9_unat [of "di_max_io_buf_bytes info"]
    by (simp add: nop_prep_params_def nop_prep_dev_info_def word_le_nat_alt)
  then have "unat (?nr * 512) = unat ?nr * 512" by (intro unat_times_512) simp_all
  then have "uint (?nr * 512) = 512 * int (unat ?nr)" using arg_cong [of _ _ int] by fastforce
  moreover have "in_s32 (512 * int n)" if "n * 512 \<le> 524288" for n using that by (simp add: in_s32_def)
  from this [OF le] have "in_s32 (512 * int (unat ?nr))" .
  ultimately show ?thesis by (simp add: io_outcome_def nop_handle_io_def)
qed

text \<open>
  The nop server accepts everything: on a worker whose handler it is, the results committed for
  the requests the driver sends within the announced maximal request are, in order, exactly the
  lengths of the requests in bytes, none of which wraps around or is taken for an error.
\<close>

theorem nop_commits_lengths:
  assumes "new_worker w" and "(worker_step q tag buf)\<^sup>*\<^sup>* w w'"
    and "di_max_io_buf_bytes info \<le> di_max_io_buf_bytes (nop_prep_dev_info dev_id flags)"
    and "list_all (\<lambda>(d, c). c = Value (IoResult (nop_handle_io d)) \<and>
      iod_nr_sectors (io_iod d) \<le> pb_max_sectors (pr_basic (nop_prep_params info))) (th_handled (history (w_trace w')))"
  shows "\<exists>xs. map fst (th_commits (history (w_trace w'))) @ xs =
      map (\<lambda>(d, c). 512 * int (unat (iod_nr_sectors (io_iod d)))) (th_handled (history (w_trace w'))) \<and> length xs \<le> 1"
proof -
  let ?h = "history (w_trace w')"
  obtain ys where ys: "th_commits ?h @ ys = map (commit_of buf) (th_handled ?h)" "length ys \<le> 1"
    using worker_history(1) [OF assms(1,2) refl] by blast
  have "map fst (map (commit_of buf) (th_handled ?h)) =
      map (\<lambda>(d, c). 512 * int (unat (iod_nr_sectors (io_iod d)))) (th_handled ?h)"
    using assms(4) nop_outcome [OF _ assms(3)] by (auto simp: list_all_iff commit_of_def)
  with ys show ?thesis by (intro exI [of _ "map fst ys"]) (metis length_map map_append)
qed

theorem nop_commits_lengths_witness:
  "\<exists>w xs. (worker_step sample_queue 2 0)\<^sup>*\<^sup>* sample_worker w \<and> map fst (th_commits (history (w_trace w))) @ xs = [4096]"
proof -
  obtain w d where w: "(worker_step sample_queue 2 0)\<^sup>*\<^sup>* sample_worker w" "th_commits (history (w_trace w)) = [(4096, 0)]"
      "th_handled (history (w_trace w)) = [(d, Value (IoResult (IntResult 4096)))]" "io_iod d = idle_iod"
    using sample_served by blast
  have "list_all (\<lambda>(d, c). c = Value (IoResult (nop_handle_io d)) \<and>
      iod_nr_sectors (io_iod d) \<le> pb_max_sectors (pr_basic (nop_prep_params (nop_prep_dev_info 0 0))))
      (th_handled (history (w_trace w)))"
    using w(3,4) by (simp add: nop_handle_io_def idle_iod_def nop_prep_params_def nop_prep_dev_info_def word_le_nat_alt)
  from nop_commits_lengths [OF sample_worker_new w(1) _ this, of 0 0] w show ?thesis by (auto simp: idle_iod_def)
qed

end
