(* ===== verification/Ublk_Signal.thy ===== *)
theory Ublk_Signal
  imports Ublk_Examples
begin

text \<open>
  How the two branches of the example servers (\<^verbatim>\<open>examples/loop.cpp\<close> and \<^verbatim>\<open>examples/nop.cpp\<close>) run side
  by side under \<^verbatim>\<open>when_all\<close>: the daemon, and the start of the device followed by \<^verbatim>\<open>wait_signal\<close>. They
  are coupled by two stop sources, the one of \<^verbatim>\<open>main\<close> that ends the waiting for a signal and the one
  of \<^verbatim>\<open>when_all\<close> that ends the other branch. The interleaved runs are shown to have the outcomes of
  the sequential description \<open>example_app\<close>, and never to wait for a signal in vain.
\<close>

section \<open>State and steps\<close>

text \<open>Where the second branch is: in \<^verbatim>\<open>daemon::start\<close>, at one of the two awaits of \<^verbatim>\<open>wait_signal\<close>, or at its end.\<close>

datatype starter_pc =
    StartingDevice
  | ReadingSignal
  | StoppingDevice
  | StarterEnded "(exn, unit) outcome"

record 'w serving =
  sp_daemon :: "(exn, unit) outcome option"
  sp_starter :: starter_pc
  sp_source :: bool
  sp_stop :: bool
  sp_result :: "(exn, unit) outcome"
  sp_world :: "'w ctl_world"

definition new_serving :: "'w ctl_world \<Rightarrow> 'w serving" where
  "new_serving w = \<lparr>sp_daemon = None, sp_starter = StartingDevice, sp_source = False, sp_stop = False,
     sp_result = Value (), sp_world = w\<rparr>"

text \<open>
  \<open>sp_source\<close> is the stop source of \<^verbatim>\<open>main\<close>, \<open>sp_stop\<close> that of \<^verbatim>\<open>when_all\<close>. \<^verbatim>\<open>wait_signal\<close> registers a
  callback that passes a stop of \<^verbatim>\<open>when_all\<close> on to \<^verbatim>\<open>main\<close>'s source while it lives, and at once if the
  stop came before. The first error decides the outcome of \<^verbatim>\<open>when_all\<close>; a stopped branch only
  decides it if none did before.
\<close>

fun in_wait_signal :: "starter_pc \<Rightarrow> bool" where
  "in_wait_signal ReadingSignal = True"
| "in_wait_signal StoppingDevice = True"
| "in_wait_signal _ = False"

definition request_stop_all :: "'w serving \<Rightarrow> 'w serving" where
  "request_stop_all s = s\<lparr>sp_stop := True, sp_source := sp_source s \<or> in_wait_signal (sp_starter s)\<rparr>"

definition child_ended :: "(exn, unit) outcome \<Rightarrow> 'w serving \<Rightarrow> 'w serving" where
  "child_ended c s = (case c of
       Value _ \<Rightarrow> s
     | Error e \<Rightarrow> (case sp_result s of Error _ \<Rightarrow> s | _ \<Rightarrow> request_stop_all (s\<lparr>sp_result := Error e\<rparr>))
     | Stopped \<Rightarrow> (case sp_result s of Value _ \<Rightarrow> request_stop_all (s\<lparr>sp_result := Stopped\<rparr>) | _ \<Rightarrow> s))"

definition daemon_ended :: "(exn, unit) outcome \<Rightarrow> 'w serving \<Rightarrow> 'w serving" where
  "daemon_ended c s = child_ended c (s\<lparr>sp_daemon := Some c, sp_source := sp_source s \<or> c = Value ()\<rparr>)"

definition starter_ended :: "(exn, unit) outcome \<Rightarrow> 'w serving \<Rightarrow> 'w serving" where
  "starter_ended c s = child_ended c (s\<lparr>sp_starter := StarterEnded c\<rparr>)"

definition enter_wait_signal :: "string \<Rightarrow> u32 \<Rightarrow> 'w serving \<Rightarrow> 'w serving" where
  "enter_wait_signal prog dev_id s = s\<lparr>sp_starter := ReadingSignal, sp_source := sp_source s \<or> sp_stop s,
     sp_world := snd (print (running_text prog dev_id) (sp_world s))\<rparr>"

definition signal_received :: "string \<Rightarrow> u32 \<Rightarrow> 'w serving \<Rightarrow> 'w serving" where
  "signal_received prog signo s = s\<lparr>sp_starter := StoppingDevice,
     sp_world := snd (print (received_text prog signo) (sp_world s))\<rparr>"

text \<open>
  What can happen: the daemon ends, a control operation returns, and the read of the signal
  descriptor returns a signal, fails, or is stopped through the token of \<^verbatim>\<open>main\<close>'s source. A control
  operation is one step; whether a stop request reaches one of its commands is up to the driver.
\<close>

datatype serving_event =
    DaemonEnds "(exn, unit) outcome"
  | StartReturns
  | SignalRead u32
  | SignalFailed error_code
  | SignalStopped
  | StopDevReturns

inductive serving_step ::
  "'w kernel \<Rightarrow> int \<Rightarrow> u32 \<Rightarrow> s32 \<Rightarrow> string \<Rightarrow> serving_event \<Rightarrow> 'w serving \<Rightarrow> 'w serving \<Rightarrow> bool"
  for K ctrl_fd dev_id pid prog where
  daemon_ends: "sp_daemon s = None \<Longrightarrow>
    serving_step K ctrl_fd dev_id pid prog (DaemonEnds c) s (daemon_ended c s)"
| started: "sp_starter s = StartingDevice \<Longrightarrow>
    kernel_call (start K NoQuery ctrl_fd dev_id pid) (sp_world s) = (Value (), w) \<Longrightarrow>
    serving_step K ctrl_fd dev_id pid prog StartReturns s (enter_wait_signal prog dev_id (s\<lparr>sp_world := w\<rparr>))"
| start_failed: "sp_starter s = StartingDevice \<Longrightarrow>
    kernel_call (start K NoQuery ctrl_fd dev_id pid) (sp_world s) = (c, w) \<Longrightarrow> c \<noteq> Value () \<Longrightarrow>
    serving_step K ctrl_fd dev_id pid prog StartReturns s (starter_ended c (s\<lparr>sp_world := w\<rparr>))"
| signal_read: "sp_starter s = ReadingSignal \<Longrightarrow>
    serving_step K ctrl_fd dev_id pid prog (SignalRead signo) s (signal_received prog signo s)"
| signal_failed: "sp_starter s = ReadingSignal \<Longrightarrow>
    serving_step K ctrl_fd dev_id pid prog (SignalFailed ec) s (starter_ended (Error (SystemError ec '''')) s)"
| signal_stopped: "sp_starter s = ReadingSignal \<Longrightarrow> sp_source s \<Longrightarrow>
    serving_step K ctrl_fd dev_id pid prog SignalStopped s (starter_ended Stopped s)"
| stop_dev_returns: "sp_starter s = StoppingDevice \<Longrightarrow>
    kernel_call (stop_dev K NoQuery ctrl_fd dev_id) (sp_world s) = (c, w) \<Longrightarrow>
    serving_step K ctrl_fd dev_id pid prog StopDevReturns s (starter_ended c (s\<lparr>sp_world := w\<rparr>))"

text \<open>The steps of a run; and those among them that need neither a signal nor the end of the daemon.\<close>

definition serving_run :: "'w kernel \<Rightarrow> int \<Rightarrow> u32 \<Rightarrow> s32 \<Rightarrow> string \<Rightarrow> 'w serving \<Rightarrow> 'w serving \<Rightarrow> bool" where
  "serving_run K ctrl_fd dev_id pid prog s t \<longleftrightarrow> (\<exists>ev. serving_step K ctrl_fd dev_id pid prog ev s t)"

definition own_run :: "'w kernel \<Rightarrow> int \<Rightarrow> u32 \<Rightarrow> s32 \<Rightarrow> string \<Rightarrow> 'w serving \<Rightarrow> 'w serving \<Rightarrow> bool" where
  "own_run K ctrl_fd dev_id pid prog s t \<longleftrightarrow>
     (\<exists>ev \<in> {StartReturns, SignalStopped, StopDevReturns}. serving_step K ctrl_fd dev_id pid prog ev s t)"

fun starter_over :: "starter_pc \<Rightarrow> bool" where
  "starter_over (StarterEnded _) = True"
| "starter_over _ = False"

definition serving_over :: "'w serving \<Rightarrow> bool" where
  "serving_over s \<longleftrightarrow> sp_daemon s \<noteq> None \<and> starter_over (sp_starter s)"

text \<open>What follows \<^verbatim>\<open>when_all\<close>: the device is deleted after a normal end of both branches.\<close>

definition serving_finish :: "'w kernel \<Rightarrow> int \<Rightarrow> u32 \<Rightarrow> 'w serving \<Rightarrow> (exn, unit) outcome \<times> 'w ctl_world" where
  "serving_finish K ctrl_fd dev_id s = (case sp_result s of
       Value _ \<Rightarrow> kernel_call (del_dev K NoQuery ctrl_fd dev_id) (sp_world s)
     | r \<Rightarrow> (r, sp_world s))"

section \<open>Invariants\<close>

text \<open>
  The result of \<^verbatim>\<open>when_all\<close> so far, from the outcomes of the branches that have ended, and the two
  stop sources: \<^verbatim>\<open>when_all\<close>'s is requested exactly when a branch has not ended normally, \<^verbatim>\<open>main\<close>'s only
  after the end of the daemon (apart from a starter that has ended), and always while a signal is
  awaited after that end.
\<close>

fun starter_result :: "starter_pc \<Rightarrow> (exn, unit) outcome option" where
  "starter_result (StarterEnded c) = Some c"
| "starter_result _ = None"

fun joined_result :: "(exn, unit) outcome option \<Rightarrow> (exn, unit) outcome option \<Rightarrow> (exn, unit) outcome \<Rightarrow> bool" where
  "joined_result None None r \<longleftrightarrow> r = Value ()"
| "joined_result (Some d) None r \<longleftrightarrow> r = d"
| "joined_result None (Some c) r \<longleftrightarrow> r = c"
| "joined_result (Some d) (Some c) r \<longleftrightarrow> when_all d c r"

definition stop_sources_inv :: "'w serving \<Rightarrow> bool" where
  "stop_sources_inv s \<longleftrightarrow>
     joined_result (sp_daemon s) (starter_result (sp_starter s)) (sp_result s) \<and>
     (sp_stop s \<longleftrightarrow> sp_result s \<noteq> Value ()) \<and>
     (sp_source s \<longrightarrow> sp_daemon s \<noteq> None) \<and>
     (sp_daemon s = Some (Value ()) \<longrightarrow> sp_source s) \<and>
     (in_wait_signal (sp_starter s) \<and> sp_stop s \<longrightarrow> sp_source s)"

lemmas serving_defs = daemon_ended_def starter_ended_def child_ended_def request_stop_all_def
  enter_wait_signal_def signal_received_def

inductive_cases serving_stepE: "serving_step K ctrl_fd dev_id pid prog ev s t"

lemma when_all_values [simp]: "when_all (Value ()) c c" "when_all d (Value ()) d"
  by (cases c, auto intro: when_all.intros) (cases d, auto intro: when_all.intros)

text \<open>The outcome of \<^verbatim>\<open>when_all\<close> after one more branch.\<close>

fun disposition :: "(exn, unit) outcome \<Rightarrow> (exn, unit) outcome \<Rightarrow> (exn, unit) outcome" where
  "disposition (Error e) c = Error e"
| "disposition Stopped (Error e) = Error e"
| "disposition Stopped c = Stopped"
| "disposition (Value _) c = c"

lemma disposition_value [simp]: "disposition r (Value u) = r" "disposition r c = Value u \<longleftrightarrow> r = Value () \<and> c = Value ()"
  by (cases r; cases c; simp)+

lemma disposition_when_all: "when_all d c (disposition d c)" "when_all d c (disposition c d)"
  by (cases d; cases c; auto intro: when_all.intros)+

lemma child_ended_simps [simp]:
  "sp_daemon (child_ended c s) = sp_daemon s" "sp_starter (child_ended c s) = sp_starter s"
  "sp_world (child_ended c s) = sp_world s" "sp_result (child_ended c s) = disposition (sp_result s) c"
  "sp_stop (child_ended c s) \<longleftrightarrow> sp_stop s \<or> disposition (sp_result s) c \<noteq> sp_result s"
  "sp_source (child_ended c s) \<longleftrightarrow>
     sp_source s \<or> in_wait_signal (sp_starter s) \<and> disposition (sp_result s) c \<noteq> sp_result s"
  by (cases c; cases "sp_result s"; simp add: child_ended_def request_stop_all_def)+

lemma daemon_ended_sources:
  assumes "stop_sources_inv s" and "sp_daemon s = None"
  shows "stop_sources_inv (daemon_ended c s)"
proof (cases "sp_starter s")
  case (StarterEnded b)
  with assms show ?thesis
    by (cases c) (auto simp: stop_sources_inv_def daemon_ended_def intro: disposition_when_all)
qed (use assms in \<open>cases c; simp add: stop_sources_inv_def daemon_ended_def\<close>)+

lemma starter_ended_sources:
  assumes "stop_sources_inv s" and "\<not> starter_over (sp_starter s)"
  shows "stop_sources_inv (starter_ended c (s\<lparr>sp_world := w\<rparr>))"
proof -
  have "starter_result (sp_starter s) = None" using assms(2) by (cases "sp_starter s") simp_all
  with assms show ?thesis
    by (cases "sp_daemon s"; cases c) (auto simp: stop_sources_inv_def starter_ended_def intro: disposition_when_all)
qed

lemma stop_sources_step:
  assumes "serving_step K ctrl_fd dev_id pid prog ev s t" and "stop_sources_inv s"
  shows "stop_sources_inv t"
  using assms(1)
proof cases
  case (signal_failed ec)
  with starter_ended_sources [OF assms(2), of _ "sp_world s"] show ?thesis by simp
next
  case signal_stopped
  with starter_ended_sources [OF assms(2), of _ "sp_world s"] show ?thesis by simp
next
  case (started w)
  with assms(2) show ?thesis
    by (cases "sp_daemon s") (auto simp: stop_sources_inv_def enter_wait_signal_def)
next
  case (signal_read signo)
  with assms(2) show ?thesis by (cases "sp_daemon s") (simp_all add: stop_sources_inv_def signal_received_def)
qed (simp_all add: assms(2) daemon_ended_sources starter_ended_sources)

section \<open>Refinement of the sequential description\<close>

text \<open>
  What the second branch still has to do, as a task, given what reading the signal descriptor will
  return. The invariant relates a state to \<open>example_start\<close> from the initial world: before the read
  has returned the rest of the branch agrees with it for every outcome of the read, afterwards for
  the one that came, which is \<open>Stopped\<close> only if the daemon has ended.
\<close>

fun starter_rest ::
  "'w kernel \<Rightarrow> int \<Rightarrow> u32 \<Rightarrow> s32 \<Rightarrow> string \<Rightarrow> starter_pc \<Rightarrow> (error_code, u32) outcome \<Rightarrow> ('w ctl_world, unit) task" where
  "starter_rest K ctrl_fd dev_id pid prog StartingDevice signal = example_start K ctrl_fd dev_id pid signal prog"
| "starter_rest K ctrl_fd dev_id pid prog ReadingSignal signal =
     await (throwing (\<lambda>w. (signal, w))) (\<lambda>signo.
     await (print (received_text prog signo)) (\<lambda>_. kernel_call (stop_dev K NoQuery ctrl_fd dev_id)))"
| "starter_rest K ctrl_fd dev_id pid prog StoppingDevice signal = kernel_call (stop_dev K NoQuery ctrl_fd dev_id)"
| "starter_rest K ctrl_fd dev_id pid prog (StarterEnded c) signal = (\<lambda>w. (c, w))"

definition serving_agrees :: "'w kernel \<Rightarrow> int \<Rightarrow> u32 \<Rightarrow> s32 \<Rightarrow> string \<Rightarrow> 'w ctl_world \<Rightarrow> 'w serving \<Rightarrow> bool" where
  "serving_agrees K ctrl_fd dev_id pid prog w0 s \<longleftrightarrow>
     (let agrees = (\<lambda>signal. example_start K ctrl_fd dev_id pid signal prog w0 =
         starter_rest K ctrl_fd dev_id pid prog (sp_starter s) signal (sp_world s))
      in if sp_starter s = StartingDevice \<or> sp_starter s = ReadingSignal then \<forall>signal. agrees signal
         else \<exists>signal. agrees signal \<and> (signal = Stopped \<longrightarrow> sp_daemon s \<noteq> None))"

lemma serving_agrees_step:
  assumes "serving_step K ctrl_fd dev_id pid prog ev s t" and "stop_sources_inv s"
    and "serving_agrees K ctrl_fd dev_id pid prog w0 s"
  shows "serving_agrees K ctrl_fd dev_id pid prog w0 t"
  using assms(1)
proof cases
  case (daemon_ends c)
  with assms(3) show ?thesis by (auto simp: serving_agrees_def daemon_ended_def Let_def)
next
  case (started w)
  then show ?thesis using assms(3)
    by (auto simp: serving_agrees_def enter_wait_signal_def example_start_def wait_signal_def await_def print_def split: prod.splits)
next
  case (start_failed c w)
  then have "example_start K ctrl_fd dev_id pid (Error 0) prog w0 = (c, w)"
    using assms(3) by (cases c) (auto simp: serving_agrees_def example_start_def await_def)
  with start_failed show ?thesis by (auto simp: serving_agrees_def starter_ended_def intro!: exI [of _ "Error 0"])
next
  case (signal_read signo)
  then show ?thesis using assms(3)
    by (auto simp: serving_agrees_def signal_received_def await_def throwing_def print_def
        intro!: exI [of _ "Value signo"] split: prod.splits)
next
  case (signal_failed ec)
  then show ?thesis using assms(3)
    by (auto simp: serving_agrees_def starter_ended_def await_def throwing_def intro!: exI [of _ "Error ec"])
next
  case signal_stopped
  with assms(2) have "sp_daemon s \<noteq> None" by (simp add: stop_sources_inv_def)
  with signal_stopped show ?thesis using assms(3)
    by (auto simp: serving_agrees_def starter_ended_def await_def throwing_def intro!: exI [of _ Stopped])
next
  case (stop_dev_returns c w)
  then show ?thesis using assms(3) by (auto simp: serving_agrees_def starter_ended_def)
qed

section \<open>Runs\<close>

fun starter_rank :: "starter_pc \<Rightarrow> nat" where
  "starter_rank StartingDevice = 2"
| "starter_rank (StarterEnded _) = 0"
| "starter_rank _ = 1"

lemma own_run_rank:
  assumes "own_run K ctrl_fd dev_id pid prog s t"
  shows "starter_rank (sp_starter t) < starter_rank (sp_starter s) \<and> sp_daemon t = sp_daemon s"
  using assms unfolding own_run_def
  by (auto elim!: serving_stepE simp: enter_wait_signal_def starter_ended_def)

lemma waiting_is_stopped:
  assumes "stop_sources_inv s" and "sp_daemon s \<noteq> None" and "in_wait_signal (sp_starter s)"
  shows "sp_source s"
proof -
  obtain d where d: "sp_daemon s = Some d" using assms(2) by blast
  have "starter_result (sp_starter s) = None" using assms(3) by (cases "sp_starter s") simp_all
  with d assms(1) have "sp_result s = d" by (simp add: stop_sources_inv_def)
  with d assms(1,3) show ?thesis by (cases "d = Value ()") (simp_all add: stop_sources_inv_def)
qed

lemma own_stuck_over:
  assumes "stop_sources_inv s" and "sp_daemon s \<noteq> None" and stuck: "\<nexists>t. own_run K ctrl_fd dev_id pid prog s t"
  shows "serving_over s"
proof (cases "sp_starter s")
  case StartingDevice
  obtain c w where "kernel_call (start K NoQuery ctrl_fd dev_id pid) (sp_world s) = (c, w)" by (rule prod.exhaust)
  with StartingDevice have False
    using stuck by (cases "c = Value ()") (auto simp: own_run_def intro: serving_step.intros)
  then show ?thesis ..
next
  case ReadingSignal
  with waiting_is_stopped [OF assms(1,2)] stuck have False by (auto simp: own_run_def intro: serving_step.intros)
  then show ?thesis ..
next
  case StoppingDevice
  obtain c w where "kernel_call (stop_dev K NoQuery ctrl_fd dev_id) (sp_world s) = (c, w)" by (rule prod.exhaust)
  with StoppingDevice stuck have False by (auto simp: own_run_def intro: serving_step.intros)
  then show ?thesis ..
next
  case (StarterEnded c)
  with assms(2) show ?thesis by (simp add: serving_over_def)
qed

interpretation serving_drain: draining "\<lambda>s. s = new_serving w" "serving_run K ctrl_fd dev_id pid prog"
    "\<lambda>s. stop_sources_inv s \<and> serving_agrees K ctrl_fd dev_id pid prog w s"
    "own_run K ctrl_fd dev_id pid prog" "\<lambda>s. sp_daemon s \<noteq> None" "\<lambda>s. starter_rank (sp_starter s)" serving_over
  for K ctrl_fd dev_id pid prog w
proof unfold_locales
  show "stop_sources_inv s \<and> serving_agrees K ctrl_fd dev_id pid prog w s" if "s = new_serving w" for s
    using that by (simp add: new_serving_def stop_sources_inv_def serving_agrees_def)
next
  show "stop_sources_inv t \<and> serving_agrees K ctrl_fd dev_id pid prog w t"
    if "stop_sources_inv s \<and> serving_agrees K ctrl_fd dev_id pid prog w s" "serving_run K ctrl_fd dev_id pid prog s t" for s t
    using that stop_sources_step serving_agrees_step unfolding serving_run_def by blast
next
  show "serving_run K ctrl_fd dev_id pid prog s t" if "own_run K ctrl_fd dev_id pid prog s t" for s t
    using that unfolding own_run_def serving_run_def by blast
qed (use own_run_rank own_stuck_over in metis)+

text \<open>The branch that has ended first has failed with \<open>e\<close>, and the other has not ended.\<close>

definition first_failed :: "exn \<Rightarrow> 'w serving \<Rightarrow> bool" where
  "first_failed e s \<longleftrightarrow> sp_daemon s = Some (Error e) \<and> \<not> starter_over (sp_starter s) \<or>
     sp_daemon s = None \<and> sp_starter s = StarterEnded (Error e)"

lemma error_stays_step:
  "serving_step K ctrl_fd dev_id pid prog ev s t \<Longrightarrow> sp_result s = Error e \<Longrightarrow> sp_result t = Error e"
  by (induction rule: serving_step.induct)
    (auto simp: daemon_ended_def starter_ended_def enter_wait_signal_def signal_received_def)

lemma error_stays:
  "(serving_run K ctrl_fd dev_id pid prog)\<^sup>*\<^sup>* s t \<Longrightarrow> sp_result s = Error e \<Longrightarrow> sp_result t = Error e"
  by (induction rule: rtranclp_induct) (auto simp: serving_run_def dest: error_stays_step)

lemma first_failed_result: "stop_sources_inv s \<Longrightarrow> first_failed e s \<Longrightarrow> sp_result s = Error e"
  by (cases "sp_starter s") (auto simp: stop_sources_inv_def first_failed_def)

text \<open>
  C15. Whatever the order in which the daemon ends, the device starts and a signal arrives, a server
  that has joined its two branches has done what the sequential description says: starting the
  device and waiting for some outcome of the signal read, whose texts and control commands it has
  performed exactly, with the outcomes of the branches combined, and the device deleted if and only
  if both ended normally, not whenever everything has finished, as the guide has it. If a branch
  failed while the other had not ended, the error of that first one is the outcome of the server,
  whatever the other did afterwards.
\<close>

theorem serving_refines_example:
  assumes "example_setup K ctrl_fd prep_info prep w = (Value dev_id, w1)"
    and "(serving_run K ctrl_fd dev_id pid prog)\<^sup>*\<^sup>* (new_serving w1) s"
    and "sp_daemon s = Some d" and "sp_starter s = StarterEnded c"
  shows "\<exists>signal. example_start K ctrl_fd dev_id pid signal prog w1 = (c, sp_world s) \<and>
    example_app K ctrl_fd prep_info prep pid signal prog d w (serving_finish K ctrl_fd dev_id s) \<and>
    (\<forall>s1 e. (serving_run K ctrl_fd dev_id pid prog)\<^sup>*\<^sup>* (new_serving w1) s1 \<longrightarrow>
       (serving_run K ctrl_fd dev_id pid prog)\<^sup>*\<^sup>* s1 s \<longrightarrow> first_failed e s1 \<longrightarrow>
       fst (serving_finish K ctrl_fd dev_id s) = Error e)"
proof -
  have inv: "stop_sources_inv s" "serving_agrees K ctrl_fd dev_id pid prog w1 s"
    using serving_drain.inv_reachable [OF refl assms(2)] by blast+
  then obtain signal where start: "example_start K ctrl_fd dev_id pid signal prog w1 = (c, sp_world s)"
    using assms(4) by (auto simp: serving_agrees_def)
  have joined: "when_all d c (sp_result s)" using inv(1) assms(3,4) by (simp add: stop_sources_inv_def)
  have "example_app K ctrl_fd prep_info prep pid signal prog d w (serving_finish K ctrl_fd dev_id s)"
  proof (cases "sp_result s = Value ()")
    case True
    with joined have "when_all d c (Value ())" by simp
    from example_app.deleted [OF assms(1) start this refl] True show ?thesis by (simp add: serving_finish_def)
  next
    case False
    from example_app.served [OF assms(1) start joined False] False show ?thesis
      by (cases "sp_result s") (simp_all add: serving_finish_def)
  qed
  moreover have "fst (serving_finish K ctrl_fd dev_id s) = Error e"
    if r: "(serving_run K ctrl_fd dev_id pid prog)\<^sup>*\<^sup>* (new_serving w1) s1"
      "(serving_run K ctrl_fd dev_id pid prog)\<^sup>*\<^sup>* s1 s" "first_failed e s1" for s1 e
  proof -
    have "stop_sources_inv s1" using serving_drain.inv_reachable [OF refl r(1)] by blast
    from error_stays [OF r(2) first_failed_result [OF this r(3)]] show ?thesis by (simp add: serving_finish_def)
  qed
  ultimately show ?thesis using start by blast
qed

text \<open>The nop server, whose daemon ends while it waits for a signal, on a device that is recovered.\<close>

lemma sample_serving:
  "\<exists>w1 s log. example_setup (logging quiesced_driver) 3 (nop_prep_dev_info 0) nop_prep_params ([], []) = (Value 0, w1) \<and>
   (serving_run (logging quiesced_driver) 3 0 42 ''ublk-nop'')\<^sup>*\<^sup>* (new_serving w1) s \<and>
   sp_daemon s = Some (Value ()) \<and> sp_starter s = StarterEnded Stopped \<and> sp_result s = Stopped \<and>
   sp_world s = (log, ''ublk-nop: ublk device 0 is running...'' @ nl)"
proof -
  let ?i = recovered_info and ?K = "logging quiesced_driver"
  let ?run = "serving_run ?K 3 0 42 ''ublk-nop''"
  note k = recovered_info_facts(1) and i = recovered_info_facts(2-4)
  obtain w1 where w1: "example_setup ?K 3 (nop_prep_dev_info 0) nop_prep_params ([], []) = (Value 0, (w1, []))"
    using example_setup_known [OF k, of "nop_prep_dev_info 0" 3 nop_prep_params "[]"] i(3)
    by (auto simp: nop_prep_dev_info_def)
  obtain w2 where w2: "kernel_call (start ?K NoQuery 3 0 42) (w1, []) = (Value (), (w2, []))"
    using knows_device_start [OF k, of 3 42 w1] i by (simp add: kernel_call_def)
  let ?s0 = "new_serving (w1, [])" and ?e = "enter_wait_signal ''ublk-nop'' 0"
  let ?s1 = "?e (?s0\<lparr>sp_world := (w2, [])\<rparr>)"
  let ?s2 = "daemon_ended (Value ()) ?s1"
  let ?s3 = "starter_ended Stopped ?s2"
  have "?run ?s0 ?s1" using serving_step.started [of ?s0 ?K 3 0 42 "(w2, [])" "''ublk-nop''"] w2
    by (auto simp: serving_run_def new_serving_def)
  moreover have "?run ?s1 ?s2"
    using serving_step.daemon_ends [of ?s1 ?K 3 0 42 "''ublk-nop''" "Value ()"]
    by (auto simp: serving_run_def new_serving_def enter_wait_signal_def)
  moreover have "?run ?s2 ?s3"
    using serving_step.signal_stopped [of ?s2 ?K 3 0 42 "''ublk-nop''"]
    by (auto simp: serving_run_def enter_wait_signal_def daemon_ended_def)
  ultimately have "?run\<^sup>*\<^sup>* ?s0 ?s3" by (meson converse_rtranclp_into_rtranclp r_into_rtranclp)
  moreover have "dec_str (unat (0::u32)) = ''0''" by code_simp
  then have "sp_world ?s3 = (w2, ''ublk-nop: ublk device 0 is running...'' @ nl)"
    by (simp add: starter_ended_def daemon_ended_def enter_wait_signal_def running_text_def print_def)
  moreover have "sp_daemon ?s3 = Some (Value ())" "sp_starter ?s3 = StarterEnded Stopped" "sp_result ?s3 = Stopped"
    by (simp_all add: starter_ended_def daemon_ended_def enter_wait_signal_def new_serving_def)
  ultimately show ?thesis using w1 by blast
qed

theorem serving_refines_example_witness:
  "\<exists>signal log. nop_app (logging quiesced_driver) 3 0 42 signal (Value ()) ([], [])
     (Stopped, (log, ''ublk-nop: ublk device 0 is running...'' @ nl))"
proof -
  obtain w1 s log where s: "example_setup (logging quiesced_driver) 3 (nop_prep_dev_info 0) nop_prep_params ([], []) = (Value 0, w1)"
      "(serving_run (logging quiesced_driver) 3 0 42 ''ublk-nop'')\<^sup>*\<^sup>* (new_serving w1) s"
      "sp_daemon s = Some (Value ())" "sp_starter s = StarterEnded Stopped" "sp_result s = Stopped"
      "sp_world s = (log, ''ublk-nop: ublk device 0 is running...'' @ nl)"
    using sample_serving by blast
  from serving_refines_example [OF s(1-4)] s(5,6) show ?thesis by (auto simp: nop_app_def serving_finish_def)
qed

text \<open>
  C21. A server whose daemon has ended, normally or not and at any moment of the start, needs no
  signal to end: left to itself it makes at most two more steps (the start returns, the read of the
  signal is stopped or the device stop returns), and it never stands still before both branches
  have been joined.
\<close>

theorem serving_ends_with_daemon:
  assumes "(serving_run K ctrl_fd dev_id pid prog)\<^sup>*\<^sup>* (new_serving w) s" and "sp_daemon s \<noteq> None"
    and "(own_run K ctrl_fd dev_id pid prog ^^ n) s s'"
  shows "n \<le> 2 \<and> ((\<nexists>t. own_run K ctrl_fd dev_id pid prog s' t) \<longrightarrow> serving_over s') \<and>
    (\<exists>t. (own_run K ctrl_fd dev_id pid prog)\<^sup>*\<^sup>* s' t \<and> serving_over t)"
proof -
  have "starter_rank (sp_starter s) \<le> 2" by (cases "sp_starter s") simp_all
  with serving_drain.drains [OF refl assms] show ?thesis by (auto intro: le_trans)
qed

text \<open>A daemon that fails before the start of the device has returned.\<close>

lemma sample_daemon_failed:
  "serving_run (logging quiesced_driver) 3 0 42 ''ublk-nop'' (new_serving ([], []))
     (daemon_ended (Error OtherException) (new_serving ([], [])))"
  unfolding serving_run_def by (rule exI, rule serving_step.daemon_ends) (simp add: new_serving_def)

theorem serving_ends_with_daemon_witness:
  "\<exists>t. (own_run (logging quiesced_driver) 3 0 42 ''ublk-nop'')\<^sup>*\<^sup>*
       (daemon_ended (Error OtherException) (new_serving ([], []))) t \<and> serving_over t"
  using serving_ends_with_daemon [OF r_into_rtranclp [of "serving_run _ _ _ _ _", OF sample_daemon_failed],
      of 0 "daemon_ended (Error OtherException) (new_serving ([], []))"]
  by (simp add: daemon_ended_def)

text \<open>
  C35. The stop requests between the branches are justified in every reachable state: \<^verbatim>\<open>when_all\<close> asks
  the remaining branch to stop exactly when one has failed or was stopped, never because one has
  ended normally, so that a signal that was handled leaves it to the stopped device to end the
  daemon; and the waiting for a signal is only ended for a daemon that has ended.
\<close>

theorem stop_requests_justified:
  assumes "(serving_run K ctrl_fd dev_id pid prog)\<^sup>*\<^sup>* (new_serving w) s"
  shows "(sp_stop s \<longleftrightarrow> (\<exists>d. sp_daemon s = Some d \<and> d \<noteq> Value ()) \<or> (\<exists>c. sp_starter s = StarterEnded c \<and> c \<noteq> Value ())) \<and>
    (sp_source s \<longrightarrow> sp_daemon s \<noteq> None) \<and> (sp_daemon s = Some (Value ()) \<longrightarrow> sp_source s)"
proof -
  have inv: "stop_sources_inv s" using serving_drain.inv_reachable [OF refl assms] by blast
  then have "sp_result s \<noteq> Value () \<longleftrightarrow>
    (\<exists>d. sp_daemon s = Some d \<and> d \<noteq> Value ()) \<or> (\<exists>c. sp_starter s = StarterEnded c \<and> c \<noteq> Value ())"
    by (cases "sp_daemon s"; cases "sp_starter s") (auto simp: stop_sources_inv_def elim: when_all.cases)
  with inv show ?thesis by (auto simp: stop_sources_inv_def)
qed

theorem stop_requests_justified_witness:
  "sp_stop (daemon_ended (Error OtherException) (new_serving ([], [])) :: ctrl_sqe list serving) \<and>
   \<not> sp_source (daemon_ended (Error OtherException) (new_serving ([], [])) :: ctrl_sqe list serving)"
  using stop_requests_justified [OF r_into_rtranclp [of "serving_run _ _ _ _ _", OF sample_daemon_failed]]
  by (simp add: daemon_ended_def new_serving_def)

end
