(* ===== verification/Spec2Isabelle.thy ===== *)
theory Spec2Isabelle
  imports Ublk_Shm_Runs Ublk_Servers Ublk_Signal
begin

text \<open>
  A verification development for \<^verbatim>\<open>ublk-cpp\<close>, the C++ library for user space block devices on the
  Linux ublk driver.

  \<^bold>\<open>The program.\<close> A process that serves a block device talks to the driver over two kinds of io_uring
  commands: control commands on \<^verbatim>\<open>/dev/ublk-control\<close> (add, start, stop, delete, recover, parameters)
  and I/O commands on \<^verbatim>\<open>/dev/ublkc<n>\<close>, with which it fetches requests and commits their results. The
  library wraps these in senders and coroutines of the third-party runtime condy. Its layers, from
  below, with the theory that models each:

  \<^item> \<open>Ublk_Prelude\<close>: integer types, C struct sizes, the three completion channels of a sender and the
    task monad (\<open>co_return\<close>, \<open>throw\<close>, \<open>await\<close>), and the locales \<open>codec\<close> (a decoder inverts an
    encoder on valid values), \<open>transition_system\<close> (an invariant of a step relation) and \<open>draining\<close>
    (a transition system whose runs end, by a rank).
  \<^item> \<open>Ublk_Cmd\<close>: \<^verbatim>\<open>include/ublk/ublk_cmd.h\<close> and \<^verbatim>\<open>helpers.hpp\<close>: a record per struct, the ioctl command
    numbers with their fields, flags, limits, the word of a request, and the address encodings at
    their bit widths.
  \<^item> \<open>Ublk_Utils\<close>: \<^verbatim>\<open>detail/utils.hpp\<close>, \<^verbatim>\<open>detail/path.hpp\<close>, \<^verbatim>\<open>runtime.hpp\<close>: alignment, deferred clean-up,
    device paths in fixed buffers, ring sizes.
  \<^item> \<open>Ublk_Raw\<close>: \<^verbatim>\<open>raw.hpp\<close> and \<^verbatim>\<open>detail/raw.hpp\<close>: every command constructor, as the submission entry it
    builds over a kernel parameter.
  \<^item> \<open>Ublk_Control\<close>: \<^verbatim>\<open>query.hpp\<close>, \<^verbatim>\<open>detail/task.hpp\<close>, \<^verbatim>\<open>detail/retry.hpp\<close>, \<^verbatim>\<open>detail/control.hpp\<close> and
    \<^verbatim>\<open>control.hpp\<close>: all control operations as tasks; the locale \<open>path_command\<close> is what the operations
    that go through \<^verbatim>\<open>with_dev_path\<close> share, interpreted once for each of them.
  \<^item> \<open>Ublk_Daemon\<close>: \<^verbatim>\<open>daemon::setup\<close>, \<^verbatim>\<open>configure\<close> and \<^verbatim>\<open>start\<close> (\<^verbatim>\<open>detail/daemon.hpp\<close>, \<^verbatim>\<open>daemon.hpp\<close>).
  \<^item> \<open>Ublk_Queue\<close>: what the queue classes of \<^verbatim>\<open>detail/queue.hpp\<close> share (buffer predicates, descriptor
    offsets, handler results and errors) and the constructor and clean-up of \<^verbatim>\<open>IoQueue\<close> over a log of
    system calls; the locale \<open>owner\<close> states that constructor and destructor balance.
  \<^item> \<open>Ublk_Worker\<close>: \<^verbatim>\<open>IoQueue::worker_\<close> as a resumable coroutine (program counter, completion in,
    next command out) and \<^verbatim>\<open>IoQueue::run\<close> as the step relation \<open>run_step\<close>.
  \<^item> \<open>Ublk_Worker_Runs\<close>: what the runs of such a queue add up to: the history of a tag as handler calls and
    commits, and the end of a queue whose device is gone.
  \<^item> \<open>Ublk_Batch_Layout\<close>: the memory of \<^verbatim>\<open>BatchIoQueue\<close>: constructor, clean-up, the byte layout of the
    commit buffers; the locale \<open>slot_store\<close> views them as arrays of entries.
  \<^item> \<open>Ublk_Batch\<close>: \<^verbatim>\<open>BatchIoQueue::run\<close> with its workers, the flusher and the multishot fetch, as the
    step relation \<open>batch_step\<close> over one shared state.
  \<^item> \<open>Ublk_Io\<close>: \<^verbatim>\<open>detail/io.hpp\<close>, \<^verbatim>\<open>io.hpp\<close>, \<^verbatim>\<open>detail/io_loop.hpp\<close> and the rest of \<^verbatim>\<open>detail/daemon.hpp\<close> and
    \<^verbatim>\<open>daemon.hpp\<close>: serving one queue on a loop, the thread of a loop and running a daemon with one loop per queue.
  \<^item> \<open>Ublk_Shm\<close>: \<^verbatim>\<open>detail/shm.hpp\<close>: the shared memory service, a session per client as a coroutine, the
    server as a step relation over all sessions, and the outer function with its socket;
    \<open>Ublk_Shm_Runs\<close>: its end after a stop request.
  \<^item> \<open>Ublk_Ctl\<close>: \<^verbatim>\<open>bin/ublkctl.cpp\<close>: formatting, commands, registered options, selection of the command and
    exit status; the locale \<open>option_member\<close> is what the members without an initialiser share.
  \<^item> \<open>Ublk_Examples\<close>: \<^verbatim>\<open>examples/loop.cpp\<close> and \<^verbatim>\<open>examples/nop.cpp\<close>: parameters, handlers, command line
    and the life of a server from set-up to deletion; \<open>Ublk_Signal\<close>: its two branches under \<^verbatim>\<open>when_all\<close>,
    the daemon and the wait for a signal, as the step relation \<open>serving_step\<close> with the two stop
    sources between them; \<open>Ublk_Servers\<close>: the loop server against the specification of a block
    device, and the nop server run by a worker.
  \<^item> this theory: the composition of a served queue and of a daemon with the models of the two queue
    classes.

  \<^bold>\<open>Modelling.\<close> Structs are records with one field per member, integers are words of their width (a
  signed 32-bit value is an \<open>int\<close> with its range stated where it matters). A synchronous task is a
  function from the world to an outcome (value, error, stopped) and a world. A coroutine whose
  interleaving with others matters is a program counter with a \<open>resume\<close> function, from one
  suspension to the next, and the possible interleavings are an inductive step relation. Resources
  (memory, locks, mappings, descriptors) are logs or tables in the state. Exceptions are values of
  \<open>exn\<close>. No fuel is used: loops are structural recursions, have a termination proof (\<open>run_end\<close>,
  \<open>cpu_loop\<close>), or are step relations.

  \<^bold>\<open>Parameters.\<close> Code outside the repository is an argument of the definitions that use it: the driver
  (\<open>kernel\<close>, and the completions a step relation admits), condy (\<open>runtime_ops\<close>, the order of steps),
  the operating system (\<open>os\<close> records with the answers of system calls), the argument parser CLI11 and
  \<^verbatim>\<open>getopt\<close>, and the user's handler. Theorems quantify over them; where one relies on documented
  behaviour, such as a page size that is a power of two or a driver that delivers a tag again only
  after its commit, the hypothesis is named in the theorem or is a guard of the step relation, and a
  witness gives a concrete instance.

  \<^bold>\<open>What is shown.\<close> For the header: encodings are inverse to their decoders, and fields do not overlap.
  For the control plane: with the description of the device at hand, cached or queried first, every
  operation sends exactly its command, with the device path exactly for
  unprivileged devices; the query retries and gives up after 21 attempts; errors are mapped as
  documented; a device is brought up, recovered or refused as its state demands, by a sequence of
  commands given with all their fields. For a queue with
  single commands: each tag follows the fetch and commit protocol, ends only for the listed reasons,
  commands fit the rings, failures of handlers become results, what is committed is what the handler
  answered for the request, in order, memory is balanced on every failure path, the run destroys the
  queue once, after all workers, and when the device is gone the queue comes to its end. For a batch queue: an invariant of all
  interleavings, from which no buffer is overrun or written while the driver reads it, results are
  committed in order and once, no wake-up is lost, and after the fetch has ended with a result or an error everything drains, if
  no operation of a worker is stopped; a fetch that is itself stopped leaves the queue waiting. For
  the daemon: descriptors are restored, loops are balanced, queues find their resources, each thread is
  pinned to the CPUs of its queue, the first
  error is reported, and a normal end means that every queue the device announces was stopped or was
  served completely by the very run whose end was reported. For the shared memory service: a session releases each resource once, replies
  once, with success only after the driver has registered the buffer, never disturbs another, and the service ends after a stop request and leaves no socket behind. For the tools: printed flags
  and CPU sets are faithful, an accepted command line gives a command with every member set,
  commands send what they mean with the values of their options, the loop server answers every sequence of requests as an array of
  sectors does, the nop server commits their length, a device is deleted exactly after a signal and a
  normal end, whatever the order of events, the branch that fails first determines the error, and a server whose daemon has ended needs no signal to
  end.

  \<^bold>\<open>Not modelled.\<close> What the calls at the start of an I/O loop thread do to its scheduling; a failing allocation of the bookkeeping vectors of \<^verbatim>\<open>run\<close> and of spawned operation
  states; partial transfers of the backing file, whose result is committed as it is, and requests of several tags that overlap in time on it; the
  commands of a control operation are not interleaved with the other branch of a server; error messages
  on standard error and the texts CLI11 prints; the concepts of \<^verbatim>\<open>handler.hpp\<close> and \<^verbatim>\<open>query.hpp\<close>, which only constrain types;
  \<^verbatim>\<open>detail/execution.hpp\<close>, \<^verbatim>\<open>version.hpp\<close> and \<^verbatim>\<open>ublk.hpp\<close>, which only include or alias; tests, build files
  and documentation. Threads are represented by interleaving of coroutines of one loop; loops of
  different queues share no state of the library beyond what \<open>Ublk_Io\<close> passes to them.
\<close>

section \<open>Serving a queue, end to end\<close>

text \<open>
  The run behind an outcome of \<^verbatim>\<open>run\<close>: the final state of \<open>run_step\<close>, or the completions of the
  initialisation and of the prepare command with the final state of \<open>batch_step\<close>, if it got so far.
  \<open>ended_as\<close> says that this is the end of a run of that queue and that its outcome is \<open>c\<close>.
\<close>

datatype served_run =
    IoRun io_run
  | BatchRun "(exn, unit) outcome" "(error_code, s32) outcome" "batch_state option"

fun ended_as :: "bool \<Rightarrow> served \<Rightarrow> served_run \<Rightarrow> (exn, unit) outcome \<Rightarrow> bool" where
  "ended_as queue_handler (ServedIo q) (IoRun s') c \<longleftrightarrow>
     (\<exists>s. new_run q s \<and> (run_step queue_handler q)\<^sup>*\<^sup>* s s') \<and> r_phase s' = Finished c"
| "ended_as queue_handler (ServedBatch q) (BatchRun init prep (Some s')) c \<longleftrightarrow>
     (\<exists>s. batch_init q s \<and> (batch_step q)\<^sup>*\<^sup>* s s') \<and> batch_finished s' \<and>
     fst (batch_run queue_handler init prep (batch_outcome s')) = Some c"
| "ended_as queue_handler (ServedBatch q) (BatchRun init prep None) c \<longleftrightarrow>
     fst (batch_run queue_handler init prep None) = Some c"
| "ended_as queue_handler _ _ c \<longleftrightarrow> False"

text \<open>
  What it means that a run has served its queue completely. With single commands: every worker has
  ended without an error, and the queue was destroyed once if it was to be. With batches: all tasks
  have ended, the driver ended the fetch by an abort, neither a worker nor the flusher failed, the
  queue was destroyed once if it was to be, and every result that a handler delivered was committed
  in order, unless a commit was stopped.
\<close>

fun run_complete :: "bool \<Rightarrow> served_run \<Rightarrow> bool" where
  "run_complete queue_handler (IoRun s) \<longleftrightarrow>
     list_all (\<lambda>w. worker_ended w \<and> worker_error w = None) (r_workers s) \<and>
     r_destroyed s = (if queue_handler then 1 else 0)"
| "run_complete queue_handler (BatchRun init prep (Some s)) \<longleftrightarrow>
     batch_finished s \<and> b_res s = Some UBLK_IO_RES_ABORT \<and>
     list_all (\<lambda>w. bworker_error w = None) (b_workers s) \<and> flusher_error (b_flusher s) = None \<and>
     snd (batch_run queue_handler init prep (batch_outcome s)) = (if queue_handler then 1 else 0) \<and>
     (b_flusher s \<noteq> FlDone Stopped \<longrightarrow> list_all2 entry_matches (b_results s) (b_committed s))"
| "run_complete queue_handler (BatchRun init prep None) \<longleftrightarrow> False"

lemma normal_end_complete:
  assumes "ended_as queue_handler q run (Value ())" and "\<And>bq. q = ServedBatch bq \<Longrightarrow> batch_wf bq"
  shows "run_complete queue_handler run"
proof (cases "(queue_handler, q, run, Value () :: (exn, unit) outcome)" rule: ended_as.cases)
  case (1 qh iq s' c)
  with assms(1) obtain s where s: "new_run iq s" "(run_step queue_handler iq)\<^sup>*\<^sup>* s s'" "r_phase s' = Finished (Value ())"
    by auto
  with finished_run [OF s] 1 show ?thesis by (auto simp: list_all_iff)
next
  case (2 qh bq init prep s' c)
  with assms(1) obtain s where s: "batch_init bq s" "(batch_step bq)\<^sup>*\<^sup>* s s'" "batch_finished s'"
    and o: "fst (batch_run queue_handler init prep (batch_outcome s')) = Some (Value ())" by auto
  then have r: "batch_run queue_handler init prep (batch_outcome s') =
      (Some (Value ()), snd (batch_run queue_handler init prep (batch_outcome s')))" by (metis prod.collapse)
  show ?thesis
    using batch_success_complete [OF assms(2) s _ r] batch_success_no_error [OF o] 2 s(3) by auto
next
  case (3 qh bq init prep c)
  with assms(1) show ?thesis by (auto simp: batch_run_def Let_def split: if_splits outcome.splits)
qed (use assms(1) in auto)

text \<open>
  The descriptor and the runtime a queue is served with, after \<^verbatim>\<open>run_dev\<close> has probed the buffer table
  and put the device into file slot 0.
\<close>

definition prepared_runtime :: "'r runtime_ops \<Rightarrow> int \<Rightarrow> ublksrv_ctrl_dev_info \<Rightarrow> 'r \<Rightarrow> uring_fd \<times> 'r" where
  "prepared_runtime R fd info r =
     (let need_buffers = has_flag (di_flags info) (UBLK_F_SUPPORT_ZERO_COPY OR UBLK_F_AUTO_BUF_REG);
          r1 = (if need_buffers then snd (rt_update_buffer R (int (unat (di_queue_depth info)) - 1) r) else r);
          (f, r2) = rt_update_file R UBLKC_FD fd r1
      in (if f < 0 then RawFd fd else FixedFd (int UBLKC_FD), r2))"

text \<open>
  Queue \<open>q_id\<close> of a device was served completely by \<open>serve\<close>, whose runs end as \<open>fin\<close> says: a queue of the right
  kind was constructed for it, and the run whose normal end \<open>serve\<close> reported for this very queue on
  this very runtime is complete.
\<close>

definition queue_served ::
  "bool \<Rightarrow> 'r runtime_ops \<Rightarrow> os \<Rightarrow> (served \<Rightarrow> 'r \<Rightarrow> (exn, unit) outcome \<times> 'r) \<Rightarrow> (served \<Rightarrow> 'r \<Rightarrow> served_run) \<Rightarrow> int \<Rightarrow> u16 \<Rightarrow>
   ublksrv_ctrl_dev_info \<Rightarrow> 'r \<Rightarrow> mem_event list \<Rightarrow> bool" where
  "queue_served queue_handler R os serve fin fd q_id info r log \<longleftrightarrow> (\<exists>ufd q r1 log1.
     prepared_runtime R fd info r = (ufd, r1) \<and>
     (if bit (di_flags info) 15
      then \<exists>bq. q = ServedBatch bq \<and> BatchIoQueue os ufd fd q_id (di_flags info) (di_queue_depth info)
          (di_max_io_buf_bytes info) log = (Inr bq, log1)
      else \<exists>iq. q = ServedIo iq \<and> IoQueue os ufd fd q_id (di_flags info) (di_queue_depth info)
          (di_max_io_buf_bytes info) log = (Inr iq, log1)) \<and>
     fst (serve q r1) = Value () \<and> run_complete queue_handler (fin q r1))"

lemma io_run_dev_served:
  assumes "io_run_dev R os serve fd q_id info r log = (Value (), r', log')"
    and "\<And>q r. ended_as queue_handler q (fin q r) (fst (serve q r))" and "os_page os = 2 ^ k" and "k < 32"
  shows "q_id < di_nr_hw_queues info \<and> queue_served queue_handler R os serve fin fd q_id info r log"
proof -
  obtain ufd r1 r2 where q: "q_id < di_nr_hw_queues info"
    and s: "serve_queue os serve ufd fd q_id info r1 log = (Value (), r2, log')"
    and p: "prepared_runtime R fd info r = (ufd, r1)"
    using assms(1) by (auto simp: io_run_dev_def prepared_runtime_def not_le Let_def split: if_splits prod.splits)
  have c: "run_complete queue_handler (fin q r1)" if "fst (serve q r1) = Value ()" "\<And>bq. q = ServedBatch bq \<Longrightarrow> batch_wf bq" for q
    using normal_end_complete [of queue_handler q "fin q r1"] assms(2) [of q r1] that by simp
  show ?thesis
  proof (cases "bit (di_flags info) 15")
    case True
    with s obtain bq log1 where bq: "BatchIoQueue os ufd fd q_id (di_flags info) (di_queue_depth info)
          (di_max_io_buf_bytes info) log = (Inr bq, log1)" "fst (serve (ServedBatch bq) r1) = Value ()"
      by (auto simp: serve_queue_def Let_def flag_bits split: sum.splits prod.splits)
    from BatchIoQueue_fits [OF bq(1) assms(3,4)] c [OF bq(2)] have "run_complete queue_handler (fin (ServedBatch bq) r1)" by simp
    with True q bq p show ?thesis unfolding queue_served_def by auto
  next
    case False
    with s obtain iq log1 where iq: "IoQueue os ufd fd q_id (di_flags info) (di_queue_depth info)
          (di_max_io_buf_bytes info) log = (Inr iq, log1)" "fst (serve (ServedIo iq) r1) = Value ()"
      by (auto simp: serve_queue_def Let_def flag_bits split: sum.splits prod.splits)
    from c [OF iq(2)] have "run_complete queue_handler (fin (ServedIo iq) r1)" by simp
    with False q iq p show ?thesis unfolding queue_served_def by auto
  qed
qed

text \<open>
  C12. A queue that \<^verbatim>\<open>run_dev\<close> serves to a normal end has been served completely, for both kinds of
  queue: the run of the constructed queue that reported this end, on the runtime \<^verbatim>\<open>run_dev\<close> has prepared, has, with single commands, every
  worker ended without an error and the queue, if the handler initialises queues, destroyed once; with batches, all tasks
  ended, the fetch aborted by the driver, neither a worker nor the flusher failed, the queue
  likewise destroyed once and every result a handler delivered committed in order, unless a commit
  was stopped.
\<close>

theorem served_to_the_end:
  assumes "io_run_dev R os serve fd q_id info r log = (Value (), r', log')"
    and "\<And>q r. ended_as queue_handler q (fin q r) (fst (serve q r))" and "os_page os = 2 ^ k" and "k < 32"
  shows "q_id < di_nr_hw_queues info \<and> (\<exists>ufd q r1 log1. prepared_runtime R fd info r = (ufd, r1) \<and>
     (if bit (di_flags info) 15
      then \<exists>bq. q = ServedBatch bq \<and> BatchIoQueue os ufd fd q_id (di_flags info) (di_queue_depth info)
          (di_max_io_buf_bytes info) log = (Inr bq, log1)
      else \<exists>iq. q = ServedIo iq \<and> IoQueue os ufd fd q_id (di_flags info) (di_queue_depth info)
          (di_max_io_buf_bytes info) log = (Inr iq, log1)) \<and>
     fst (serve q r1) = Value () \<and> run_complete queue_handler (fin q r1))"
  using io_run_dev_served [OF assms] unfolding queue_served_def .

text \<open>
  A device with two queues of depth 1: the worker of each starts, is told that the device is gone,
  and ends.
\<close>

definition tiny_queue :: "u16 \<Rightarrow> io_queue" where
  "tiny_queue q_id = sample_queue\<lparr>q_queue_depth := 1, q_q_id := q_id\<rparr>"

definition tiny_info :: ublksrv_ctrl_dev_info where
  "tiny_info = zero_info\<lparr>di_nr_hw_queues := 2, di_queue_depth := 1, di_max_io_buf_bytes := 4096, di_flags := 1\<rparr>"

definition tiny_serve :: "served \<Rightarrow> 'r \<Rightarrow> (exn, unit) outcome \<times> 'r" where
  "tiny_serve q r = (case q of
       ServedIo q' \<Rightarrow> if q' = tiny_queue (q_q_id q') then Value () else Error OtherException
     | _ \<Rightarrow> Error OtherException, r)"

lemma tiny_constructed: "\<exists>log. IoQueue sample_os (FixedFd 0) fd q_id 1 1 4096 [] = (Inr (tiny_queue q_id), log)"
  by (simp add: IoQueue_def IoQueue_body_def sample_os_def Let_def need_alloc_buf_bits sample_queue_def tiny_queue_def)

definition tiny_gone :: "u16 \<Rightarrow> worker" where
  "tiny_gone q_id = sample_worker\<lparr>w_pc := WorkerDone (Value ()),
     w_trace := started (snd (worker_start (tiny_queue q_id) 0 0)) @ [Complete (CqeDone (Error 19))]\<rparr>"

definition tiny_run :: "u16 \<Rightarrow> io_run" where
  "tiny_run q_id = \<lparr>r_phase = Finished (Value ()), r_workers = [tiny_gone q_id], r_destroyed = 1\<rparr>"

lemma tiny_ended: "ended_as True (ServedIo (tiny_queue q_id)) (IoRun (tiny_run q_id)) (Value ())"
proof -
  define w1 where "w1 = sample_worker\<lparr>w_pc := AwaitFetch, w_trace := started (snd (worker_start (tiny_queue q_id) 0 0))\<rparr>"
  define r where "r = (\<lambda>ph w. \<lparr>r_phase = ph, r_workers = [w], r_destroyed = 0\<rparr>)"
  have buf: "get_buf (q_buf_bases (tiny_queue q_id)) 0 = 0" by (simp add: get_buf_def tiny_queue_def sample_queue_def)
  have st: "worker_step (tiny_queue q_id) 0 0 sample_worker w1"
    using worker_step.start [of sample_worker "tiny_queue q_id" 0 0] by (simp add: sample_worker_def w1_def worker_start_def)
  have re: "worker_step (tiny_queue q_id) 0 0 w1 (tiny_gone q_id)"
    using worker_step.resume [of idle_iod w1 "tiny_queue q_id" 0 0 "CqeDone (Error 19)" "WorkerDone (Value ())" None]
    by (simp add: w1_def tiny_gone_def sample_worker_def fetching_def on_errno_result_def errno_result_def
        worker_fetched_def consts_simps started_def)
  have d: "0 < q_queue_depth (tiny_queue q_id)" by (simp add: tiny_queue_def)
  have "run_step True (tiny_queue q_id) (r Initializing sample_worker) (r Running sample_worker)"
    using run_step.initialized [of "r Initializing sample_worker"] by (simp add: r_def)
  moreover have "run_step True (tiny_queue q_id) (r Running sample_worker) (r Running w1)"
    using run_step.work [of "r Running sample_worker" 0 "tiny_queue q_id" w1 True] d st by (simp add: r_def buf)
  moreover have "run_step True (tiny_queue q_id) (r Running w1) (r Running (tiny_gone q_id))"
    using run_step.work [of "r Running w1" 0 "tiny_queue q_id" "tiny_gone q_id" True] d re by (simp add: r_def buf)
  moreover have "run_step True (tiny_queue q_id) (r Running (tiny_gone q_id)) (tiny_run q_id)"
    using run_step.join [of "r Running (tiny_gone q_id)" True "tiny_queue q_id"]
    by (simp add: r_def worker_ended_def worker_error_def tiny_gone_def tiny_run_def)
  ultimately have "(run_step True (tiny_queue q_id))\<^sup>*\<^sup>* (r Initializing sample_worker) (tiny_run q_id)"
    by (meson converse_rtranclp_into_rtranclp rtranclp.rtrancl_refl)
  moreover have "new_run (tiny_queue q_id) (r Initializing sample_worker)"
    by (simp add: r_def new_run_def tiny_queue_def new_worker_def sample_worker_def)
  ultimately show ?thesis by (auto simp: tiny_run_def)
qed

text \<open>The runs behind \<open>tiny_serve\<close>: any other queue fails to initialise.\<close>

definition failed_run :: "served \<Rightarrow> served_run" where
  "failed_run q = (case q of
       ServedIo q' \<Rightarrow> IoRun \<lparr>r_phase = Finished (Error OtherException),
         r_workers = replicate (unat (q_queue_depth q')) sample_worker, r_destroyed = 0\<rparr>
     | ServedBatch q' \<Rightarrow> BatchRun (Error OtherException) (Value 0) None)"

definition tiny_runs :: "served \<Rightarrow> 'r \<Rightarrow> served_run" where
  "tiny_runs q r = (case q of
       ServedIo q' \<Rightarrow> if q' = tiny_queue (q_q_id q') then IoRun (tiny_run (q_q_id q')) else failed_run q
     | _ \<Rightarrow> failed_run q)"

lemma failed_run_ended: "ended_as True q (failed_run q) (Error OtherException)"
proof (cases q)
  case (ServedIo q')
  let ?r = "\<lparr>r_phase = Initializing, r_workers = replicate (unat (q_queue_depth q')) sample_worker, r_destroyed = 0\<rparr>"
  have "new_run q' ?r" by (simp add: new_run_def new_worker_def sample_worker_def list_all_length)
  moreover have "(run_step True q')\<^sup>*\<^sup>* ?r (?r\<lparr>r_phase := Finished (Error OtherException)\<rparr>)"
    by (rule r_into_rtranclp, rule run_step.init_failed) simp_all
  ultimately show ?thesis by (auto simp: ServedIo failed_run_def)
qed (simp add: failed_run_def batch_run_def)

lemma tiny_serves: "ended_as True q (tiny_runs q r) (fst (tiny_serve q r))"
proof (cases q)
  case (ServedIo q')
  show ?thesis
  proof (cases "q' = tiny_queue (q_q_id q')")
    case True
    with tiny_ended [of "q_q_id q'"] ServedIo show ?thesis by (simp add: tiny_serve_def tiny_runs_def)
  next
    case False
    with failed_run_ended [of q] ServedIo show ?thesis by (simp add: tiny_serve_def tiny_runs_def)
  qed
qed (simp add: tiny_serve_def tiny_runs_def failed_run_ended del: ended_as.simps)

theorem served_to_the_end_witness:
  "\<exists>q r. fst (tiny_serve q (r :: nat \<times> nat \<times> int)) = Value () \<and> run_complete True (tiny_runs q r)"
proof -
  obtain log where q: "IoQueue sample_os (FixedFd 0) 5 1 1 1 4096 [] = (Inr (tiny_queue 1), log)"
    using tiny_constructed [of 5 1] by blast
  have "\<exists>r' log'. io_run_dev table_runtime sample_os tiny_serve 5 1 tiny_info (1, 1, - 1) [] = (Value (), r', log')"
    using q by (simp add: io_run_dev_def serve_queue_def table_runtime_def UBLKC_FD_def Let_def tiny_info_def
        has_flag_or flag_bits tiny_serve_def tiny_queue_def word_le_nat_alt)
  then obtain r' log' where run:
    "io_run_dev table_runtime sample_os tiny_serve 5 1 tiny_info (1, 1, - 1) [] = (Value (), r', log')" by blast
  from served_to_the_end [OF run tiny_serves, of 12] show ?thesis
    by (simp add: sample_os_def del: split_paired_Ex) blast
qed

section \<open>Running a daemon, end to end\<close>

lemma queue_error_none: "queue_error c = None \<longleftrightarrow> c = Value () \<or> c = Stopped"
  by (cases c) auto

text \<open>The loops that \<^verbatim>\<open>daemon::run\<close> creates for a device: one per queue, with the sizes it computes.\<close>

definition daemon_loops ::
  "'w kernel \<Rightarrow> 'r runtime_ops \<Rightarrow> int \<Rightarrow> u32 \<Rightarrow> daemon_options \<Rightarrow> ublksrv_ctrl_dev_info \<Rightarrow> 'w \<Rightarrow>
   ((exn, unit) outcome \<times> 'r io_loop list) \<times> 'w" where
  "daemon_loops K R fd dev_id options info w =
     create_loops K R fd dev_id info
       (build_options (case do_runtime_options options of Some opts \<Rightarrow> opts | None \<Rightarrow> default_options) (ucast (di_queue_depth info)))
       (max (do_nr_files options) 1)
       (if has_flag (di_flags info) (UBLK_F_SUPPORT_ZERO_COPY OR UBLK_F_AUTO_BUF_REG)
        then max (do_nr_buffers options) (unat (di_queue_depth info)) else do_nr_buffers options)
       (unat (di_nr_hw_queues info)) [] w"

text \<open>
  C4. A daemon that returns normally has served its device: the queues it served are those the
  driver announced for the device, each once, on one descriptor of its character device, and each
  of them was stopped or was served completely, on the runtime of the loop created for it, by the
  run whose normal end was reported for it: all
  workers ended without an error or, with batches, all tasks ended, the fetch was aborted by the
  driver, nothing failed and every result was committed in order, unless a commit was stopped.
\<close>

theorem daemon_serves_every_queue:
  assumes "run_daemon K R os async_open serve env fd dev_id options (w, []) = (Value (), (w', evs))"
    and "\<And>n q r. ended_as queue_handler q (fin n q r) (fst (serve n q r))" and "os_page os = 2 ^ k" and "k < 32"
  shows "\<exists>info w1 w2 loops ublkc_fd. cached_get_dev_info K (TaskEnv env) fd dev_id zero_info w = (Value info, w1) \<and>
    daemon_loops K R fd dev_id options info w1 = ((Value (), loops), w2) \<and>
    DevOpened (dev_path dev_id) ublkc_fd \<in> set evs \<and>
    map fst (served_queues evs) = [0..<unat (di_nr_hw_queues info)] \<and>
    list_all (\<lambda>(n, c). c = Stopped \<or> c = Value () \<and>
        queue_served queue_handler R os (serve n) (fin n) ublkc_fd (of_nat n) info (lp_runtime (loops ! n)) [])
      (served_queues evs)"
proof -
  have "daemon_run K R os async_open serve (TaskEnv env) fd dev_id (do_runtime_options options)
      (do_nr_files options) (do_nr_buffers options) (w, []) = (Value (), (w', evs))"
    using assms(1) by (simp add: run_daemon_def task_invoke_def)
  then show ?thesis
  proof (cases rule: daemon_run_cases)
    case (serving info w1 w2 loops ublkc_fd outs)
    have "outs ! n = Stopped \<or> outs ! n = Value () \<and>
        queue_served queue_handler R os (serve n) (fin n) ublkc_fd (of_nat n) info (lp_runtime (loops ! n)) []"
      if n: "n < length outs" for n
    proof -
      have "queue_error (outs ! n) = None"
        using n serving(5) rethrow_first_spec [of "map queue_error outs"] by (auto split: outcome.splits)
      then consider "outs ! n = Stopped" | "outs ! n = Value ()" by (auto simp: queue_error_none)
      then show ?thesis
      proof cases
        case 2
        with n serving(3) have "fst (io_run_dev R os (serve n) ublkc_fd (of_nat n) info (lp_runtime (loops ! n)) []) = Value ()"
          by (simp add: queue_outcome_def)
        then obtain r' log' where
          "io_run_dev R os (serve n) ublkc_fd (of_nat n) info (lp_runtime (loops ! n)) [] = (Value (), r', log')"
          by (metis prod.collapse)
        from io_run_dev_served [OF this assms(2-4)] 2 show ?thesis by blast
      qed blast
    qed
    then have "list_all (\<lambda>(n, c). c = Stopped \<or> c = Value () \<and>
        queue_served queue_handler R os (serve n) (fin n) ublkc_fd (of_nat n) info (lp_runtime (loops ! n)) [])
        (enumerate 0 outs)"
      by (auto simp: list_all_length nth_enumerate_eq)
    with serving show ?thesis by (intro exI [of _ info] exI [of _ w1] exI [of _ w2] exI [of _ loops] exI [of _ ublkc_fd])
        (simp add: daemon_loops_def)
  qed simp
qed

text \<open>The device with two tiny queues, its information cached.\<close>

lemma tiny_flags:
  "has_flag (di_flags tiny_info) (UBLK_F_SUPPORT_ZERO_COPY OR UBLK_F_AUTO_BUF_REG)"
  "\<not> has_flag (di_flags tiny_info) UBLK_F_BATCH_IO" "di_dev_id tiny_info = 0"
  "unat (di_nr_hw_queues tiny_info) = 2" "unat (di_queue_depth tiny_info) = 1"
  by (simp_all add: tiny_info_def zero_info_def has_flag_or flag_bits)

lemma tiny_loops:
  "\<exists>loops. create_loops idle_kernel table_runtime fd 0 tiny_info sizes 1 1 2 [] () = ((Value (), loops), ()) \<and>
     map lp_runtime loops = [(1, 1, - 1), (1, 1, - 1)]"
proof -
  have "\<not> has_flag (di_flags tiny_info) UBLK_F_UNPRIVILEGED_DEV" by (simp add: tiny_info_def flag_bits)
  then have a: "control_get_queue_affinity idle_kernel (WithInfo (Some tiny_info)) fd 0 q 0 () = (Value 0, ())" for fd q
    by (simp add: control_get_queue_affinity_def cached_hit raw_simps ctrl_await_def ctrl_cmd_def idle_kernel_def
        co_return_def await_def tiny_flags)
  have "IoLoop table_runtime opts 1 1 0 = Inr \<lparr>lp_options = opts, lp_runtime = (1, 1, - 1), lp_cpuset = 0\<rparr>" for opts
    by (simp add: IoLoop_def table_runtime_def)
  with a show ?thesis by (simp add: numeral_2_eq_2 del: One_nat_def)
qed

lemma tiny_outcome:
  assumes "lp_runtime (loops ! n) = (1, 1, - 1)" and "n < 2"
  shows "queue_outcome table_runtime sample_os (\<lambda>_. tiny_serve) 9 tiny_info loops n = Value ()"
proof -
  obtain log where "IoQueue sample_os (FixedFd 0) 9 (of_nat n) 1 1 4096 [] = (Inr (tiny_queue (of_nat n)), log)"
    using tiny_constructed by blast
  moreover have "\<not> di_nr_hw_queues tiny_info \<le> of_nat n"
    using assms(2) by (auto simp: less_2_cases_iff tiny_info_def word_le_nat_alt)
  ultimately show ?thesis
    using assms(1)
    by (simp add: queue_outcome_def io_run_dev_def serve_queue_def table_runtime_def UBLKC_FD_def Let_def tiny_info_def
        has_flag_or flag_bits tiny_serve_def tiny_queue_def)
qed

lemma tiny_daemon:
  "\<exists>w' evs. run_daemon idle_kernel table_runtime sample_os (\<lambda>path w. (Value 9, w)) (\<lambda>_. tiny_serve)
     (WithInfo (Some tiny_info)) 3 0 \<lparr>do_runtime_options = None, do_nr_files = 0, do_nr_buffers = 0\<rparr> ((), []) = (Value (), (w', evs))"
proof -
  have c: "cached_get_dev_info idle_kernel (WithInfo (Some tiny_info)) 3 0 zero_info () = (Value tiny_info, ())"
    by (simp add: cached_hit tiny_flags co_return_def)
  let ?sizes = "build_options default_options (ucast (di_queue_depth tiny_info))"
  obtain loops where l: "create_loops idle_kernel table_runtime 3 0 tiny_info ?sizes 1 1 2 [] () = ((Value (), loops), ())"
      "map lp_runtime loops = [(1, 1, - 1), (1, 1, - 1)]"
    using tiny_loops [of 3 ?sizes] by (elim exE conjE)
  have "lp_runtime (loops ! n) = (1, 1, - 1)" if "n < 2" for n
    using that l(2) by (cases n) auto
  then have o: "queue_outcome table_runtime sample_os (\<lambda>_. tiny_serve) 9 tiny_info loops n = Value ()" if "n < 2" for n
    using that tiny_outcome by blast
  show ?thesis
    by (simp add: run_daemon_def task_invoke_def daemon_run_def c l(1) tiny_flags Let_def run_deferred_def
        daemon_serve_def o upt_rec del: One_nat_def)
qed

theorem daemon_serves_every_queue_witness:
  "\<exists>evs (loops :: (nat \<times> nat \<times> int) io_loop list) ublkc_fd. map fst (served_queues evs) = [0..<2] \<and>
     list_all (\<lambda>(n, c). c = Stopped \<or> c = Value () \<and>
       queue_served True table_runtime sample_os tiny_serve tiny_runs ublkc_fd (of_nat n) tiny_info
         (lp_runtime (loops ! n)) [])
       (served_queues evs)"
proof -
  obtain w' evs where d: "run_daemon idle_kernel table_runtime sample_os (\<lambda>path w. (Value 9, w)) (\<lambda>_. tiny_serve)
     (WithInfo (Some tiny_info)) 3 0 \<lparr>do_runtime_options = None, do_nr_files = 0, do_nr_buffers = 0\<rparr> ((), []) = (Value (), (w', evs))"
    using tiny_daemon by blast
  have "cached_get_dev_info idle_kernel (TaskEnv (WithInfo (Some tiny_info))) 3 0 zero_info () = (Value tiny_info, ())"
    by (simp add: cached_hit tiny_flags co_return_def)
  moreover have "os_page sample_os = 2 ^ 12" by (simp add: sample_os_def)
  ultimately show ?thesis using daemon_serves_every_queue [OF d tiny_serves, of 12]
    by (auto simp: tiny_flags intro!: exI [of _ evs])
qed

end
